(* ===== verification/Dxe_Prelude.thy ===== *)
theory Dxe_Prelude
  imports Main "HOL-Library.Word" "HOL-Library.Monad_Syntax"
begin

text \<open>
  Shared vocabulary of the development.

  \<^item> The integer types of \<open>src/MdePkg/Include/Base.h\<close> that the modelled code uses, as words of
    their width (a 64-bit build: \<open>UINTN\<close> is 64 bits wide).
  \<^item> The status codes the modelled functions return.
  \<^item> The outcome of a C function is an \<open>option\<close>: \<open>None\<close> stands for an execution that does not
    return normally, that is a failed \<open>ASSERT()\<close>, an access outside an object, or a loop
    that does not end. \<open>Some\<close> carries the returned value and the new state. A theorem that
    concludes \<open>\<exists>r. f x = Some r\<close> therefore rules all three out.
  \<^item> Generic facts on lists seen as doubly linked lists (successor, predecessor, insertion before
    and after a node), on options and on words.
\<close>

section \<open>Integer types and status codes\<close>

type_synonym UINT8 = "8 word"
type_synonym UINT32 = "32 word"
type_synonym UINT64 = "64 word"

text \<open>An \<open>EFI_GUID\<close> is its sixteen bytes in memory; \<open>CompareGuid\<close> compares all of them.\<close>

type_synonym EFI_GUID = "UINT8 list"

text \<open>Pointers to pool objects are natural numbers; \<open>NULL\<close> is \<open>0\<close>.\<close>

type_synonym ptr = nat

abbreviation NULL :: ptr where
  "NULL \<equiv> 0"

datatype EFI_STATUS =
    EFI_SUCCESS
  | EFI_INVALID_PARAMETER
  | EFI_UNSUPPORTED
  | EFI_BUFFER_TOO_SMALL
  | EFI_NOT_READY
  | EFI_OUT_OF_RESOURCES
  | EFI_NOT_FOUND
  | EFI_ACCESS_DENIED
  | EFI_ALREADY_STARTED
  | EFI_NOT_AVAILABLE_YET

definition EFI_ERROR :: "EFI_STATUS \<Rightarrow> bool" where
  "EFI_ERROR Status = (Status \<noteq> EFI_SUCCESS)"

lemma EFI_ERROR_simps [simp]:
  "\<not> EFI_ERROR EFI_SUCCESS"
  "EFI_ERROR EFI_INVALID_PARAMETER"
  "EFI_ERROR EFI_UNSUPPORTED"
  "EFI_ERROR EFI_BUFFER_TOO_SMALL"
  "EFI_ERROR EFI_NOT_READY"
  "EFI_ERROR EFI_OUT_OF_RESOURCES"
  "EFI_ERROR EFI_NOT_FOUND"
  "EFI_ERROR EFI_ACCESS_DENIED"
  "EFI_ERROR EFI_ALREADY_STARTED"
  "EFI_ERROR EFI_NOT_AVAILABLE_YET"
  by (simp_all add: EFI_ERROR_def)

lemma not_EFI_ERROR_iff: "\<not> EFI_ERROR st \<longleftrightarrow> st = EFI_SUCCESS"
  by (simp add: EFI_ERROR_def)

section \<open>Assertions\<close>

text \<open>\<open>ASSERT (b)\<close> in a build with assertions: it does not return when \<open>b\<close> is false.\<close>

definition ASSERT :: "bool \<Rightarrow> unit option" where
  "ASSERT b = (if b then Some () else None)"

lemma ASSERT_True [simp]: "ASSERT True = Some ()"
  by (simp add: ASSERT_def)

lemma ASSERT_False [simp]: "ASSERT False = None"
  by (simp add: ASSERT_def)

lemma ASSERT_eq_Some [simp]: "ASSERT b = Some u \<longleftrightarrow> b"
  by (simp add: ASSERT_def)

lemma bind_ASSERT_eq_Some [simp]: "Option.bind (ASSERT b) f = Some r \<longleftrightarrow> b \<and> f () = Some r"
  by (simp add: ASSERT_def)

lemma bind_Some_iff: "Option.bind m f = Some r \<longleftrightarrow> (\<exists>x. m = Some x \<and> f x = Some r)"
  by (cases m) auto

section \<open>Lists\<close>

lemma list_update_take_snoc:
  "n < length xs \<Longrightarrow> take (Suc n) (xs[n := v]) = take n xs @ [v]"
  by (simp add: take_Suc_conv_app_nth)

lemma remove1_filter: "distinct xs \<Longrightarrow> remove1 x xs = filter (\<lambda>y. y \<noteq> x) xs"
  by (auto simp: distinct_remove1_removeAll removeAll_filter_not_eq intro!: filter_cong)

section \<open>Words\<close>

lemma unat_less_64: "unat (w :: UINT64) < 2 ^ 64"
  using unsigned_less [of w, where ?'a = nat] by simp

lemma unat_plus_one:
  fixes x y :: UINT64
  assumes "x < y"
  shows "unat (x + 1) = Suc (unat x)"
proof -
  have "unat x + 1 < 2 ^ 64" using assms unat_less_64 [of y] by (simp add: word_less_nat_alt)
  then show ?thesis by (simp add: unat_word_ariths)
qed

text \<open>The last address of a range that does not pass the end of the address space.\<close>

lemma unat_last:
  fixes b l :: UINT64
  assumes "l \<noteq> 0" and "unat b + unat l \<le> 2 ^ 64"
  shows "unat (b + l - 1) = unat b + unat l - 1"
proof -
  have "unat l \<noteq> 0" using assms(1) by (simp add: unat_eq_zero)
  have "b + l - 1 = word_of_nat (unat b + unat l - 1)"
    using \<open>unat l \<noteq> 0\<close> by (simp add: of_nat_diff)
  moreover have "unat b + unat l - 1 < 2 ^ 64" using assms(2) \<open>unat l \<noteq> 0\<close> by linarith
  ultimately show ?thesis by (simp add: unat_of_nat take_bit_nat_eq_self)
qed

end
