(* ===== verification/Depex.thy ===== *)
theory Depex
  imports Dxe_Prelude
begin

text \<open>
  The dependency expression evaluator of the DXE dispatcher,
  \<open>src/MdeModulePkg/Core/Dxe/Dispatcher/Dependency.c\<close>.

  A dependency expression is a byte string in postfix order. \<open>CoreIsSchedulable\<close> runs it on a
  boolean stack that lives in a growable pool buffer, and overwrites every \<open>PUSH\<close> opcode whose
  protocol was found by \<open>EFI_DEP_REPLACE_TRUE\<close>. The stack is the triple of globals
  \<open>mDepexEvaluationStack\<close>, \<open>mDepexEvaluationStackEnd\<close>, \<open>mDepexEvaluationStackPointer\<close>: here the
  buffer (\<open>None\<close> for \<open>NULL\<close>), whose length is the distance of the first two, and the offset of
  the third.

  Two operations are parameters of the evaluator: \<open>AllocatePool n\<close>, which yields the
  uninitialised contents of a fresh buffer of \<open>n\<close> booleans, or \<open>None\<close>, and \<open>CoreLocateProtocol\<close> with a
  \<open>NULL\<close> registration, of which the code reads the status only.
\<close>

section \<open>Data\<close>

record DEPEX_STACK =
  StackBuffer :: "bool list option"
  StackPointer :: nat

definition StackEnd :: "DEPEX_STACK \<Rightarrow> nat" where
  "StackEnd st = (case StackBuffer st of None \<Rightarrow> 0 | Some buf \<Rightarrow> length buf)"

text \<open>The fields of \<open>EFI_CORE_DRIVER_ENTRY\<close> that dependency evaluation reads or writes.\<close>

record EFI_CORE_DRIVER_ENTRY =
  Depex :: "UINT8 list option"
  DepexSize :: nat
  Before :: bool
  After :: bool
  BeforeAfterGuid :: EFI_GUID
  Dependent :: bool
  Unrequested :: bool

abbreviation EFI_DEP_BEFORE :: UINT8 where "EFI_DEP_BEFORE \<equiv> 0x00"
abbreviation EFI_DEP_AFTER :: UINT8 where "EFI_DEP_AFTER \<equiv> 0x01"
abbreviation EFI_DEP_PUSH :: UINT8 where "EFI_DEP_PUSH \<equiv> 0x02"
abbreviation EFI_DEP_AND :: UINT8 where "EFI_DEP_AND \<equiv> 0x03"
abbreviation EFI_DEP_OR :: UINT8 where "EFI_DEP_OR \<equiv> 0x04"
abbreviation EFI_DEP_NOT :: UINT8 where "EFI_DEP_NOT \<equiv> 0x05"
abbreviation EFI_DEP_TRUE :: UINT8 where "EFI_DEP_TRUE \<equiv> 0x06"
abbreviation EFI_DEP_FALSE :: UINT8 where "EFI_DEP_FALSE \<equiv> 0x07"
abbreviation EFI_DEP_END :: UINT8 where "EFI_DEP_END \<equiv> 0x08"
abbreviation EFI_DEP_SOR :: UINT8 where "EFI_DEP_SOR \<equiv> 0x09"
abbreviation EFI_DEP_REPLACE_TRUE :: UINT8 where "EFI_DEP_REPLACE_TRUE \<equiv> 0xff"

definition DEPEX_STACK_SIZE_INCREMENT :: nat where
  "DEPEX_STACK_SIZE_INCREMENT = 0x1000"

definition sizeof_EFI_GUID :: nat where
  "sizeof_EFI_GUID = 16"

section \<open>The boolean stack\<close>

definition GrowDepexStack ::
  "(nat \<Rightarrow> (nat \<Rightarrow> bool) option) \<Rightarrow> DEPEX_STACK \<Rightarrow> EFI_STATUS \<times> DEPEX_STACK" where
  "GrowDepexStack AllocatePool st =
     (let Size = DEPEX_STACK_SIZE_INCREMENT + StackEnd st in
      case AllocatePool Size of
        None \<Rightarrow> (EFI_OUT_OF_RESOURCES, st)
      | Some Contents \<Rightarrow>
          (let NewStack = map Contents [0..<Size] in
           (EFI_SUCCESS,
            st\<lparr>StackBuffer :=
                 Some (case StackBuffer st of
                         None \<Rightarrow> NewStack
                       | Some buf \<Rightarrow> buf @ drop (length buf) NewStack)\<rparr>)))"

text \<open>Storing through the stack pointer faults when it does not point into the buffer.\<close>

definition PushBool ::
  "(nat \<Rightarrow> (nat \<Rightarrow> bool) option) \<Rightarrow> bool \<Rightarrow> DEPEX_STACK \<Rightarrow> (EFI_STATUS \<times> DEPEX_STACK) option" where
  "PushBool AllocatePool Value st =
     (let (Status, st) =
        (if StackPointer st = StackEnd st then GrowDepexStack AllocatePool st
         else (EFI_SUCCESS, st)) in
      if EFI_ERROR Status then Some (Status, st)
      else case StackBuffer st of
          None \<Rightarrow> None
        | Some buf \<Rightarrow>
            if StackPointer st < length buf then
              Some (EFI_SUCCESS,
                    st\<lparr>StackBuffer := Some (buf[StackPointer st := Value]),
                       StackPointer := StackPointer st + 1\<rparr>)
            else None)"

definition PopBool :: "DEPEX_STACK \<Rightarrow> (EFI_STATUS \<times> bool \<times> DEPEX_STACK) option" where
  "PopBool st =
     (if StackPointer st = 0 then Some (EFI_ACCESS_DENIED, False, st)
      else case StackBuffer st of
          None \<Rightarrow> None
        | Some buf \<Rightarrow>
            if StackPointer st - 1 < length buf then
              Some (EFI_SUCCESS, buf ! (StackPointer st - 1),
                    st\<lparr>StackPointer := StackPointer st - 1\<rparr>)
            else None)"

section \<open>The evaluator\<close>

text \<open>Reading one byte, and copying a GUID, out of the expression; both fault past its end.\<close>

definition ReadByte :: "UINT8 list \<Rightarrow> nat \<Rightarrow> UINT8 option" where
  "ReadByte Buffer Offset = (if Offset < length Buffer then Some (Buffer ! Offset) else None)"

definition CopyGuidFrom :: "UINT8 list \<Rightarrow> nat \<Rightarrow> EFI_GUID option" where
  "CopyGuidFrom Buffer Offset =
     (if Offset + sizeof_EFI_GUID \<le> length Buffer
      then Some (take sizeof_EFI_GUID (drop Offset Buffer)) else None)"

definition CorePreProcessDepex ::
  "EFI_CORE_DRIVER_ENTRY \<Rightarrow> (EFI_STATUS \<times> EFI_CORE_DRIVER_ENTRY) option" where
  "CorePreProcessDepex DriverEntry = do {
     Iterator \<leftarrow> Depex DriverEntry;
     Opcode \<leftarrow> ReadByte Iterator 0;
     let DriverEntry =
       (if Opcode = EFI_DEP_SOR then DriverEntry\<lparr>Unrequested := True\<rparr>
        else DriverEntry\<lparr>Dependent := True\<rparr>);
     let DriverEntry =
       (if Opcode = EFI_DEP_BEFORE then DriverEntry\<lparr>Before := True\<rparr>
        else if Opcode = EFI_DEP_AFTER then DriverEntry\<lparr>After := True\<rparr>
        else DriverEntry);
     if Before DriverEntry \<or> After DriverEntry then do {
       Guid \<leftarrow> CopyGuidFrom Iterator 1;
       Some (EFI_SUCCESS, DriverEntry\<lparr>BeforeAfterGuid := Guid\<rparr>)
     }
     else Some (EFI_SUCCESS, DriverEntry)
   }"

text \<open>
  One pass through the \<open>switch\<close>: either the function returns, or the switch is left by
  \<open>break\<close> with the iterator where the case put it.
\<close>

datatype depex_flow = Return bool | Break nat

definition PushAndBreak ::
  "(nat \<Rightarrow> (nat \<Rightarrow> bool) option) \<Rightarrow> bool \<Rightarrow> nat \<Rightarrow> UINT8 list \<Rightarrow> DEPEX_STACK
    \<Rightarrow> (depex_flow \<times> UINT8 list \<times> DEPEX_STACK) option" where
  "PushAndBreak AllocatePool Value Iterator Expr st = do {
     (Status, st) \<leftarrow> PushBool AllocatePool Value st;
     Some (if EFI_ERROR Status then Return False else Break Iterator, Expr, st)
   }"

definition BinaryOperator ::
  "(nat \<Rightarrow> (nat \<Rightarrow> bool) option) \<Rightarrow> (bool \<Rightarrow> bool \<Rightarrow> bool) \<Rightarrow> nat \<Rightarrow> UINT8 list \<Rightarrow> DEPEX_STACK
    \<Rightarrow> (depex_flow \<times> UINT8 list \<times> DEPEX_STACK) option" where
  "BinaryOperator AllocatePool f Iterator Expr st = do {
     (Status, Operator, st) \<leftarrow> PopBool st;
     if EFI_ERROR Status then Some (Return False, Expr, st)
     else do {
       (Status, Operator2, st) \<leftarrow> PopBool st;
       if EFI_ERROR Status then Some (Return False, Expr, st)
       else PushAndBreak AllocatePool (f Operator Operator2) Iterator Expr st
     }
   }"

definition DepexSwitch ::
  "(nat \<Rightarrow> (nat \<Rightarrow> bool) option) \<Rightarrow> (EFI_GUID \<Rightarrow> EFI_STATUS) \<Rightarrow> nat \<Rightarrow> UINT8 list \<Rightarrow> DEPEX_STACK
    \<Rightarrow> (depex_flow \<times> UINT8 list \<times> DEPEX_STACK) option" where
  "DepexSwitch AllocatePool CoreLocateProtocol Iterator Expr st = do {
     Opcode \<leftarrow> ReadByte Expr Iterator;
     if Opcode = EFI_DEP_BEFORE \<or> Opcode = EFI_DEP_AFTER \<or> Opcode = EFI_DEP_SOR then do {
       ASSERT (Opcode = EFI_DEP_SOR);
       Some (if Iterator \<noteq> 0 then Return False else Break Iterator, Expr, st)
     }
     else if Opcode = EFI_DEP_PUSH then do {
       DriverGuid \<leftarrow> CopyGuidFrom Expr (Iterator + 1);
       if EFI_ERROR (CoreLocateProtocol DriverGuid) then
         PushAndBreak AllocatePool False (Iterator + sizeof_EFI_GUID) Expr st
       else
         PushAndBreak AllocatePool True (Iterator + sizeof_EFI_GUID)
           (Expr[Iterator := EFI_DEP_REPLACE_TRUE]) st
     }
     else if Opcode = EFI_DEP_AND then
       BinaryOperator AllocatePool (\<lambda>Operator Operator2. Operator \<and> Operator2) Iterator Expr st
     else if Opcode = EFI_DEP_OR then
       BinaryOperator AllocatePool (\<lambda>Operator Operator2. Operator \<or> Operator2) Iterator Expr st
     else if Opcode = EFI_DEP_NOT then do {
       (Status, Operator, st) \<leftarrow> PopBool st;
       if EFI_ERROR Status then Some (Return False, Expr, st)
       else PushAndBreak AllocatePool (\<not> Operator) Iterator Expr st
     }
     else if Opcode = EFI_DEP_TRUE then PushAndBreak AllocatePool True Iterator Expr st
     else if Opcode = EFI_DEP_FALSE then PushAndBreak AllocatePool False Iterator Expr st
     else if Opcode = EFI_DEP_END then do {
       (Status, Operator, st) \<leftarrow> PopBool st;
       Some (Return (if EFI_ERROR Status then False else Operator), Expr, st)
     }
     else if Opcode = EFI_DEP_REPLACE_TRUE then do {
       DriverGuid \<leftarrow> CopyGuidFrom Expr (Iterator + 1);
       PushAndBreak AllocatePool True (Iterator + sizeof_EFI_GUID) Expr st
     }
     else Some (Return False, Expr, st)
   }"

lemma PushAndBreak_forward:
  "PushAndBreak al v i e st = Some (Break j, e', st') \<Longrightarrow> i \<le> j"
  by (auto simp: PushAndBreak_def bind_Some_iff split: if_splits)

lemma BinaryOperator_forward:
  "BinaryOperator al f i e st = Some (Break j, e', st') \<Longrightarrow> i \<le> j"
  by (auto simp: BinaryOperator_def bind_Some_iff split: if_splits dest: PushAndBreak_forward)

text \<open>The iterator never moves backwards, which bounds the loop by the size of the expression.\<close>

lemma DepexSwitch_forward:
  "DepexSwitch al loc i e st = Some (Break j, e', st') \<Longrightarrow> i \<le> j"
  by (auto simp: DepexSwitch_def bind_Some_iff split: if_splits
      dest!: PushAndBreak_forward BinaryOperator_forward)

function DepexLoop ::
  "(nat \<Rightarrow> (nat \<Rightarrow> bool) option) \<Rightarrow> (EFI_GUID \<Rightarrow> EFI_STATUS) \<Rightarrow> nat \<Rightarrow> nat \<Rightarrow> UINT8 list \<Rightarrow> DEPEX_STACK
    \<Rightarrow> (bool \<times> UINT8 list \<times> DEPEX_STACK) option" where
  "DepexLoop AllocatePool CoreLocateProtocol Size Iterator Expr st =
     (if Size \<le> Iterator then Some (False, Expr, st)
      else case DepexSwitch AllocatePool CoreLocateProtocol Iterator Expr st of
          None \<Rightarrow> None
        | Some (Return b, Expr', st') \<Rightarrow> Some (b, Expr', st')
        | Some (Break Iterator', Expr', st') \<Rightarrow>
            DepexLoop AllocatePool CoreLocateProtocol Size (Iterator' + 1) Expr' st')"
  by pat_completeness auto
termination
  by (relation "measure (\<lambda>(al, loc, n, i, e, st). n - i)") (auto dest!: DepexSwitch_forward)

declare DepexLoop.simps [simp del]

definition CoreIsSchedulable ::
  "(nat \<Rightarrow> (nat \<Rightarrow> bool) option) \<Rightarrow> (EFI_GUID \<Rightarrow> EFI_STATUS) \<Rightarrow> EFI_STATUS
    \<Rightarrow> EFI_CORE_DRIVER_ENTRY \<Rightarrow> DEPEX_STACK
    \<Rightarrow> (bool \<times> EFI_CORE_DRIVER_ENTRY \<times> DEPEX_STACK) option" where
  "CoreIsSchedulable AllocatePool CoreLocateProtocol AllServicesStatus DriverEntry st =
     (if After DriverEntry \<or> Before DriverEntry then Some (False, DriverEntry, st)
      else case Depex DriverEntry of
          None \<Rightarrow> Some (\<not> EFI_ERROR AllServicesStatus, DriverEntry, st)
        | Some Expr \<Rightarrow> do {
            (b, Expr', st') \<leftarrow>
              DepexLoop AllocatePool CoreLocateProtocol (DepexSize DriverEntry) 0 Expr
                (st\<lparr>StackPointer := 0\<rparr>);
            Some (b, DriverEntry\<lparr>Depex := Some Expr'\<rparr>, st')
          })"

text \<open>
  \<open>CoreAllEfiServicesAvailable\<close> of \<open>DxeMain/DxeProtocolNotify.c\<close>: the table of architectural
  protocols, one entry per protocol with its \<open>Present\<close> flag; the \<open>NULL\<close> entry ends it.
\<close>

fun CoreAllEfiServicesAvailable :: "(EFI_GUID option \<times> bool) list \<Rightarrow> EFI_STATUS option" where
  "CoreAllEfiServicesAvailable [] = None"
| "CoreAllEfiServicesAvailable ((ProtocolGuid, Present) # Entries) =
     (if ProtocolGuid = None then Some EFI_SUCCESS
      else if \<not> Present then Some EFI_NOT_FOUND
      else CoreAllEfiServicesAvailable Entries)"

section \<open>The stack as an abstract stack\<close>

definition StackOk :: "DEPEX_STACK \<Rightarrow> bool" where
  "StackOk st \<longleftrightarrow> StackPointer st \<le> StackEnd st"

definition StackItems :: "DEPEX_STACK \<Rightarrow> bool list" where
  "StackItems st =
     (case StackBuffer st of None \<Rightarrow> [] | Some buf \<Rightarrow> rev (take (StackPointer st) buf))"

text \<open>
  What the evaluator relies on: a push either adds the value on top or reports
  \<open>EFI_OUT_OF_RESOURCES\<close> and changes nothing; a pop removes the top or reports
  \<open>EFI_ACCESS_DENIED\<close> on an empty stack; neither touches memory outside the buffer.
\<close>

locale bool_stack =
  fixes push :: "bool \<Rightarrow> 's \<Rightarrow> (EFI_STATUS \<times> 's) option"
    and pop :: "'s \<Rightarrow> (EFI_STATUS \<times> bool \<times> 's) option"
    and items :: "'s \<Rightarrow> bool list"
    and invar :: "'s \<Rightarrow> bool"
  assumes push_cases: "invar s \<Longrightarrow>
      push v s = Some (EFI_OUT_OF_RESOURCES, s) \<or>
      (\<exists>s'. push v s = Some (EFI_SUCCESS, s') \<and> invar s' \<and> items s' = v # items s)"
    and pop_empty: "invar s \<Longrightarrow> items s = [] \<Longrightarrow> pop s = Some (EFI_ACCESS_DENIED, False, s)"
    and pop_top: "invar s \<Longrightarrow> items s = v # vs \<Longrightarrow>
      \<exists>s'. pop s = Some (EFI_SUCCESS, v, s') \<and> invar s' \<and> items s' = vs"
begin

lemma pop_cases:
  assumes "invar s"
  obtains "items s = []" "pop s = Some (EFI_ACCESS_DENIED, False, s)"
  | v vs s' where "items s = v # vs" "pop s = Some (EFI_SUCCESS, v, s')" "invar s'" "items s' = vs"
proof (cases "items s")
  case Nil
  then show ?thesis using assms pop_empty that(1) by blast
next
  case (Cons v vs)
  then show ?thesis using assms pop_top that(2) by blast
qed

lemma pop_after_push:
  assumes "invar s" and "push v s = Some (EFI_SUCCESS, s')"
  shows "\<exists>s''. pop s' = Some (EFI_SUCCESS, v, s'') \<and> invar s'' \<and> items s'' = items s"
proof -
  from push_cases [OF assms(1), of v] assms(2) have "invar s'" "items s' = v # items s" by auto
  then show ?thesis by (rule pop_top)
qed

end

lemma StackEnd_grow:
  assumes "GrowDepexStack al st = (EFI_SUCCESS, st')"
  shows "StackEnd st' = DEPEX_STACK_SIZE_INCREMENT + StackEnd st"
    and "StackPointer st' = StackPointer st"
    and "StackOk st \<Longrightarrow> StackItems st' = StackItems st"
    and "StackBuffer st' \<noteq> None"
  using assms
  by (auto simp: GrowDepexStack_def StackEnd_def StackItems_def StackOk_def Let_def
      split: option.splits)

lemma GrowDepexStack_cases:
  "GrowDepexStack al st = (EFI_OUT_OF_RESOURCES, st) \<or> (\<exists>st'. GrowDepexStack al st = (EFI_SUCCESS, st'))"
  by (auto simp: GrowDepexStack_def Let_def split: option.splits)

lemma PushBool_room:
  assumes "StackPointer st < StackEnd st"
  shows "\<exists>st'. PushBool al v st = Some (EFI_SUCCESS, st') \<and> StackOk st'
           \<and> StackItems st' = v # StackItems st"
  using assms
  by (auto simp: PushBool_def StackEnd_def StackOk_def StackItems_def list_update_take_snoc
      split: option.splits)

lemma PushBool_cases:
  assumes "StackOk st"
  shows "PushBool al v st = Some (EFI_OUT_OF_RESOURCES, st) \<or>
    (\<exists>st'. PushBool al v st = Some (EFI_SUCCESS, st') \<and> StackOk st'
       \<and> StackItems st' = v # StackItems st)"
proof (cases "StackPointer st = StackEnd st")
  case False
  with assms have "StackPointer st < StackEnd st" by (simp add: StackOk_def)
  then show ?thesis using PushBool_room by blast
next
  case full: True
  consider "GrowDepexStack al st = (EFI_OUT_OF_RESOURCES, st)"
    | st' where "GrowDepexStack al st = (EFI_SUCCESS, st')"
    using GrowDepexStack_cases by blast
  then show ?thesis
  proof cases
    case 1
    with full show ?thesis by (simp add: PushBool_def)
  next
    case (2 st')
    note g = StackEnd_grow [OF 2]
    have room: "StackPointer st' < StackEnd st'"
      using g full by (simp add: DEPEX_STACK_SIZE_INCREMENT_def)
    have "PushBool al v st = PushBool al v st'"
      using full 2 room by (simp add: PushBool_def)
    with PushBool_room [OF room, of al v] g(3) assms show ?thesis by auto
  qed
qed

interpretation depex_stack: bool_stack "PushBool al" PopBool StackItems StackOk
  for al :: "nat \<Rightarrow> (nat \<Rightarrow> bool) option"
proof
  fix st v
  assume "StackOk st"
  then show "PushBool al v st = Some (EFI_OUT_OF_RESOURCES, st) \<or>
    (\<exists>st'. PushBool al v st = Some (EFI_SUCCESS, st') \<and> StackOk st'
       \<and> StackItems st' = v # StackItems st)"
    by (rule PushBool_cases)
next
  fix st
  assume "StackOk st" "StackItems st = []"
  then show "PopBool st = Some (EFI_ACCESS_DENIED, False, st)"
    by (auto simp: PopBool_def StackItems_def StackOk_def StackEnd_def split: option.splits)
next
  fix st v vs
  assume ok: "StackOk st" and it: "StackItems st = v # vs"
  from it obtain buf where buf: "StackBuffer st = Some buf"
    by (auto simp: StackItems_def split: option.splits)
  with it obtain n where n: "StackPointer st = Suc n"
    by (cases "StackPointer st") (auto simp: StackItems_def)
  from ok buf n have len: "n < length buf" by (simp add: StackOk_def StackEnd_def)
  with it buf n have "v = buf ! n \<and> vs = rev (take n buf)"
    by (simp add: StackItems_def take_Suc_conv_app_nth)
  with ok buf n len show "\<exists>st'. PopBool st = Some (EFI_SUCCESS, v, st') \<and> StackOk st' \<and> StackItems st' = vs"
    by (simp add: PopBool_def StackOk_def StackEnd_def StackItems_def)
qed

section \<open>Dependency expressions and their postfix encoding\<close>

text \<open>
  The expressions the encoding stands for. \<open>Found g\<close> is a \<open>PUSH\<close> that an earlier evaluation has
  overwritten by \<open>EFI_DEP_REPLACE_TRUE\<close>.
\<close>

datatype depex =
    DepTrue
  | DepFalse
  | Push EFI_GUID
  | Found EFI_GUID
  | DepNot depex
  | DepAnd depex depex
  | DepOr depex depex

fun depex_eval :: "(EFI_GUID \<Rightarrow> bool) \<Rightarrow> depex \<Rightarrow> bool" where
  "depex_eval P DepTrue = True"
| "depex_eval P DepFalse = False"
| "depex_eval P (Push g) = P g"
| "depex_eval P (Found g) = True"
| "depex_eval P (DepNot a) = (\<not> depex_eval P a)"
| "depex_eval P (DepAnd a b) = (depex_eval P a \<and> depex_eval P b)"
| "depex_eval P (DepOr a b) = (depex_eval P a \<or> depex_eval P b)"

fun depex_code :: "depex \<Rightarrow> UINT8 list" where
  "depex_code DepTrue = [EFI_DEP_TRUE]"
| "depex_code DepFalse = [EFI_DEP_FALSE]"
| "depex_code (Push g) = EFI_DEP_PUSH # g"
| "depex_code (Found g) = EFI_DEP_REPLACE_TRUE # g"
| "depex_code (DepNot a) = depex_code a @ [EFI_DEP_NOT]"
| "depex_code (DepAnd a b) = depex_code a @ depex_code b @ [EFI_DEP_AND]"
| "depex_code (DepOr a b) = depex_code a @ depex_code b @ [EFI_DEP_OR]"

fun depex_wf :: "depex \<Rightarrow> bool" where
  "depex_wf (Push g) = (length g = sizeof_EFI_GUID)"
| "depex_wf (Found g) = (length g = sizeof_EFI_GUID)"
| "depex_wf (DepNot a) = depex_wf a"
| "depex_wf (DepAnd a b) = (depex_wf a \<and> depex_wf b)"
| "depex_wf (DepOr a b) = (depex_wf a \<and> depex_wf b)"
| "depex_wf _ = True"

text \<open>The effect of one evaluation on the expression: the protocols found are recorded in it.\<close>

fun depex_patch :: "(EFI_GUID \<Rightarrow> bool) \<Rightarrow> depex \<Rightarrow> depex" where
  "depex_patch P (Push g) = (if P g then Found g else Push g)"
| "depex_patch P (DepNot a) = DepNot (depex_patch P a)"
| "depex_patch P (DepAnd a b) = DepAnd (depex_patch P a) (depex_patch P b)"
| "depex_patch P (DepOr a b) = DepOr (depex_patch P a) (depex_patch P b)"
| "depex_patch P e = e"

lemma depex_wf_patch [simp]: "depex_wf (depex_patch P e) = depex_wf e"
  by (induction e) auto

lemma length_depex_code_patch [simp]: "length (depex_code (depex_patch P e)) = length (depex_code e)"
  by (induction e) auto

lemma depex_eval_patch: "depex_eval Q (depex_patch P e) = depex_eval (\<lambda>g. P g \<or> Q g) e"
  by (induction e) auto

subsection \<open>One opcode\<close>

lemma ReadByte_append [simp]: "ReadByte (pre @ b # post) (length pre) = Some b"
  by (simp add: ReadByte_def)

lemma CopyGuidFrom_append:
  "length g = sizeof_EFI_GUID \<Longrightarrow> CopyGuidFrom (pre @ b # g @ post) (Suc (length pre)) = Some g"
  by (simp add: CopyGuidFrom_def)

text \<open>
  \<open>runs al loc n i e st j e' vs\<close>: from iterator \<open>i\<close> the loop either gives up with the result
  \<open>False\<close> because the stack cannot grow, or goes on at \<open>j\<close> with the items \<open>vs\<close> on the stack.
\<close>

definition runs ::
  "(nat \<Rightarrow> (nat \<Rightarrow> bool) option) \<Rightarrow> (EFI_GUID \<Rightarrow> EFI_STATUS) \<Rightarrow> nat \<Rightarrow> nat \<Rightarrow> UINT8 list \<Rightarrow> DEPEX_STACK
    \<Rightarrow> nat \<Rightarrow> UINT8 list \<Rightarrow> bool list \<Rightarrow> bool" where
  "runs al loc n i e st j e' vs \<longleftrightarrow>
     ((\<exists>e1 st1 k. DepexLoop al loc n i e st = Some (False, e1, st1) \<and> al k = None) \<or>
      (\<exists>st1. StackOk st1 \<and> StackItems st1 = vs \<and> DepexLoop al loc n i e st = DepexLoop al loc n j e' st1))"

lemma PushBool_fails_only_without_pool:
  "PushBool al v st = Some (EFI_OUT_OF_RESOURCES, st') \<Longrightarrow> \<exists>k. al k = None"
  by (auto simp: PushBool_def GrowDepexStack_def Let_def split: if_splits option.splits)

lemma runs_trans:
  assumes "runs al loc n i e st j e' vs"
    and "\<And>st1. StackOk st1 \<Longrightarrow> StackItems st1 = vs \<Longrightarrow> runs al loc n j e' st1 k e'' ws"
  shows "runs al loc n i e st k e'' ws"
  using assms unfolding runs_def by metis

lemma runs_refl: "StackOk st \<Longrightarrow> runs al loc n i e st i e (StackItems st)"
  unfolding runs_def by blast

lemma runs_PushAndBreak:
  assumes "i < n" and "StackOk st" and "DepexSwitch al loc i e st = PushAndBreak al v j e' st1"
    and "StackOk st1"
  shows "runs al loc n i e st (Suc j) e' (v # StackItems st1)"
  using depex_stack.push_cases [OF assms(4), of al v]
proof
  assume oor: "PushBool al v st1 = Some (EFI_OUT_OF_RESOURCES, st1)"
  then obtain k where "al k = None" using PushBool_fails_only_without_pool by blast
  moreover have "DepexLoop al loc n i e st = Some (False, e', st1)"
    using assms(1,3) oor by (simp add: DepexLoop.simps [of al loc n i] PushAndBreak_def)
  ultimately show ?thesis unfolding runs_def by blast
next
  assume "\<exists>st2. PushBool al v st1 = Some (EFI_SUCCESS, st2) \<and> StackOk st2
            \<and> StackItems st2 = v # StackItems st1"
  then obtain st2 where st2: "PushBool al v st1 = Some (EFI_SUCCESS, st2)" "StackOk st2"
    "StackItems st2 = v # StackItems st1" by blast
  then have "DepexLoop al loc n i e st = DepexLoop al loc n (Suc j) e' st2"
    using assms(1,3) by (simp add: DepexLoop.simps [of al loc n i] PushAndBreak_def)
  with st2 show ?thesis unfolding runs_def by blast
qed

lemma runs_binary:
  assumes "i < n" and "StackOk st" and "StackItems st = b # a # vs"
    and "DepexSwitch al loc i e st = BinaryOperator al f i e st"
  shows "runs al loc n i e st (Suc i) e (f b a # vs)"
proof -
  obtain st1 where st1: "PopBool st = Some (EFI_SUCCESS, b, st1)" "StackOk st1" "StackItems st1 = a # vs"
    using depex_stack.pop_top [OF assms(2,3)] by blast
  obtain st2 where st2: "PopBool st1 = Some (EFI_SUCCESS, a, st2)" "StackOk st2" "StackItems st2 = vs"
    using depex_stack.pop_top [OF st1(2,3)] by blast
  have "DepexSwitch al loc i e st = PushAndBreak al (f b a) i e st2"
    using assms(4) st1(1) st2(1) by (simp add: BinaryOperator_def)
  from runs_PushAndBreak [OF assms(1,2) this st2(2)] st2(3) show ?thesis by simp
qed

lemma runs_not:
  assumes "i < n" and "StackOk st" and "StackItems st = a # vs" and "ReadByte e i = Some EFI_DEP_NOT"
  shows "runs al loc n i e st (Suc i) e ((\<not> a) # vs)"
proof -
  obtain st1 where st1: "PopBool st = Some (EFI_SUCCESS, a, st1)" "StackOk st1" "StackItems st1 = vs"
    using depex_stack.pop_top [OF assms(2,3)] by blast
  have "DepexSwitch al loc i e st = PushAndBreak al (\<not> a) i e st1"
    using assms(4) st1(1) by (simp add: DepexSwitch_def)
  from runs_PushAndBreak [OF assms(1,2) this st1(2)] st1(3) show ?thesis by simp
qed

subsection \<open>A whole expression\<close>

lemma runs_operator:
  assumes A: "\<And>pre post st. StackOk st \<Longrightarrow> length pre + length ca \<le> n \<Longrightarrow>
      runs al loc n (length pre) (pre @ ca @ post) st (length pre + length ca) (pre @ ca' @ post)
        (va # StackItems st)"
    and B: "\<And>pre post st. StackOk st \<Longrightarrow> length pre + length cb \<le> n \<Longrightarrow>
      runs al loc n (length pre) (pre @ cb @ post) st (length pre + length cb) (pre @ cb' @ post)
        (vb # StackItems st)"
    and len: "length ca' = length ca" "length cb' = length cb"
    and op: "\<And>i e st. ReadByte e i = Some b \<Longrightarrow> DepexSwitch al loc i e st = BinaryOperator al f i e st"
    and st: "StackOk st" and n: "Suc (length pre + length ca + length cb) \<le> n"
  shows "runs al loc n (length pre) (pre @ ca @ cb @ b # post) st
           (Suc (length pre + length ca + length cb)) (pre @ ca' @ cb' @ b # post)
           (f vb va # StackItems st)"
proof -
  have one: "runs al loc n (length pre) (pre @ ca @ cb @ b # post) st
     (length pre + length ca) (pre @ ca' @ cb @ b # post) (va # StackItems st)"
    using A [OF st, of pre "cb @ b # post"] n by simp
  have two: "runs al loc n (length pre + length ca) (pre @ ca' @ cb @ b # post) st1
     (length pre + length ca + length cb) (pre @ ca' @ cb' @ b # post) (vb # va # StackItems st)"
    if "StackOk st1" "StackItems st1 = va # StackItems st" for st1
    using B [OF that(1), of "pre @ ca'" "b # post"] n that(2) len by simp
  have three: "runs al loc n (length pre + length ca + length cb) (pre @ ca' @ cb' @ b # post) st1
     (Suc (length pre + length ca + length cb)) (pre @ ca' @ cb' @ b # post) (f vb va # StackItems st)"
    if "StackOk st1" "StackItems st1 = vb # va # StackItems st" for st1
    using runs_binary [OF _ that] op ReadByte_append [of "pre @ ca' @ cb'" b post] n len
    by (simp add: add.assoc)
  show ?thesis by (rule runs_trans [OF runs_trans [OF one two] three])
qed

lemma runs_depex_code:
  assumes "depex_wf d" and "StackOk st" and "length pre + length (depex_code d) \<le> n"
  shows "runs al loc n (length pre) (pre @ depex_code d @ post) st
           (length pre + length (depex_code d))
           (pre @ depex_code (depex_patch (\<lambda>g. \<not> EFI_ERROR (loc g)) d) @ post)
           (depex_eval (\<lambda>g. \<not> EFI_ERROR (loc g)) d # StackItems st)"
  using assms
proof (induction d arbitrary: pre post st)
  case DepTrue
  have "DepexSwitch al loc (length pre) (pre @ EFI_DEP_TRUE # post) st =
          PushAndBreak al True (length pre) (pre @ EFI_DEP_TRUE # post) st"
    by (simp add: DepexSwitch_def)
  from runs_PushAndBreak [OF _ DepTrue(2) this DepTrue(2)] DepTrue(3) show ?case by simp
next
  case DepFalse
  have "DepexSwitch al loc (length pre) (pre @ EFI_DEP_FALSE # post) st =
          PushAndBreak al False (length pre) (pre @ EFI_DEP_FALSE # post) st"
    by (simp add: DepexSwitch_def)
  from runs_PushAndBreak [OF _ DepFalse(2) this DepFalse(2)] DepFalse(3) show ?case by simp
next
  case (Push g)
  let ?b = "\<not> EFI_ERROR (loc g)"
  let ?e = "pre @ (if ?b then EFI_DEP_REPLACE_TRUE else EFI_DEP_PUSH) # g @ post"
  have "DepexSwitch al loc (length pre) (pre @ EFI_DEP_PUSH # g @ post) st =
          PushAndBreak al ?b (length pre + sizeof_EFI_GUID) ?e st"
    using Push(1) by (simp add: DepexSwitch_def CopyGuidFrom_append)
  from runs_PushAndBreak [OF _ Push(2) this Push(2)] Push(1,3) show ?case
    by (cases ?b) simp_all
next
  case (Found g)
  have "DepexSwitch al loc (length pre) (pre @ EFI_DEP_REPLACE_TRUE # g @ post) st =
          PushAndBreak al True (length pre + sizeof_EFI_GUID) (pre @ EFI_DEP_REPLACE_TRUE # g @ post) st"
    using Found(1) by (simp add: DepexSwitch_def CopyGuidFrom_append)
  from runs_PushAndBreak [OF _ Found(2) this Found(2)] Found(1,3) show ?case by simp
next
  case (DepNot a)
  let ?P = "\<lambda>g. \<not> EFI_ERROR (loc g)"
  let ?a = "depex_code (depex_patch ?P a)"
  have one: "runs al loc n (length pre) (pre @ depex_code a @ EFI_DEP_NOT # post) st
          (length pre + length (depex_code a)) (pre @ ?a @ EFI_DEP_NOT # post)
          (depex_eval ?P a # StackItems st)"
    using DepNot by (intro DepNot.IH) auto
  have two: "runs al loc n (length pre + length (depex_code a)) (pre @ ?a @ EFI_DEP_NOT # post) st1
          (Suc (length pre + length (depex_code a))) (pre @ ?a @ EFI_DEP_NOT # post)
          ((\<not> depex_eval ?P a) # StackItems st)"
    if "StackOk st1" "StackItems st1 = depex_eval ?P a # StackItems st" for st1
    using that DepNot.prems ReadByte_append [of "pre @ ?a" EFI_DEP_NOT post]
    by (intro runs_not) auto
  from runs_trans [OF one two] show ?case by simp
next
  case (DepAnd a b)
  have op: "DepexSwitch al loc i e st = BinaryOperator al (\<lambda>x y. x \<and> y) i e st"
    if "ReadByte e i = Some EFI_DEP_AND" for i e st
    using that by (simp add: DepexSwitch_def)
  from runs_operator [OF DepAnd.IH(1) DepAnd.IH(2) _ _ op DepAnd.prems(2), where pre = pre and post = post] DepAnd.prems
  show ?case by (simp add: conj_commute add.assoc)
next
  case (DepOr a b)
  have op: "DepexSwitch al loc i e st = BinaryOperator al (\<lambda>x y. x \<or> y) i e st"
    if "ReadByte e i = Some EFI_DEP_OR" for i e st
    using that by (simp add: DepexSwitch_def)
  from runs_operator [OF DepOr.IH(1) DepOr.IH(2) _ _ op DepOr.prems(2), where pre = pre and post = post] DepOr.prems
  show ?case by (simp add: disj_commute add.assoc)
qed


lemma DepexLoop_END:
  assumes "StackOk st" and "StackItems st = v # vs" and "i < n" and "ReadByte e i = Some EFI_DEP_END"
  shows "\<exists>st'. DepexLoop al loc n i e st = Some (v, e, st')"
proof -
  obtain st1 where "PopBool st = Some (EFI_SUCCESS, v, st1)"
    using depex_stack.pop_top [OF assms(1,2)] by blast
  then show ?thesis using assms(3,4)
    by (simp add: DepexLoop.simps [of al loc n i] DepexSwitch_def)
qed

lemma DepexLoop_code:
  assumes "depex_wf d" and "StackOk st" and "length pre + length (depex_code d) < n"
  shows "(\<exists>e1 st1 k. DepexLoop al loc n (length pre) (pre @ depex_code d @ EFI_DEP_END # rest) st
            = Some (False, e1, st1) \<and> al k = None) \<or>
    (\<exists>st1. DepexLoop al loc n (length pre) (pre @ depex_code d @ EFI_DEP_END # rest) st =
       Some (depex_eval (\<lambda>g. \<not> EFI_ERROR (loc g)) d,
             pre @ depex_code (depex_patch (\<lambda>g. \<not> EFI_ERROR (loc g)) d) @ EFI_DEP_END # rest, st1))"
proof -
  let ?c = "depex_code (depex_patch (\<lambda>g. \<not> EFI_ERROR (loc g)) d)"
  have "ReadByte (pre @ ?c @ EFI_DEP_END # rest) (length pre + length (depex_code d)) = Some EFI_DEP_END"
    using ReadByte_append [of "pre @ ?c"] by simp
  with runs_depex_code [OF assms(1,2), of pre n al loc "EFI_DEP_END # rest"] assms(3)
  show ?thesis unfolding runs_def by (auto dest!: DepexLoop_END)
qed

lemma DepexLoop_SOR:
  assumes "0 < n"
  shows "DepexLoop al loc n 0 (EFI_DEP_SOR # e) st = DepexLoop al loc n 1 (EFI_DEP_SOR # e) st"
  using assms by (simp add: DepexLoop.simps [of al loc n 0] DepexSwitch_def ReadByte_def)

lemma StackOk_reset [simp]: "StackOk (st\<lparr>StackPointer := 0\<rparr>)"
  by (simp add: StackOk_def)

lemma CoreIsSchedulable_code:
  assumes "depex_wf d" and "\<not> Before E" and "\<not> After E"
    and "sor = [] \<or> sor = [EFI_DEP_SOR]"
    and "Depex E = Some (sor @ depex_code d @ EFI_DEP_END # rest)"
    and "length sor + length (depex_code d) < DepexSize E"
  shows "(\<exists>E1 st1 k. CoreIsSchedulable al loc AllServices E st = Some (False, E1, st1) \<and> al k = None) \<or>
    (\<exists>st1. CoreIsSchedulable al loc AllServices E st =
       Some (depex_eval (\<lambda>g. \<not> EFI_ERROR (loc g)) d,
             E\<lparr>Depex := Some (sor @ depex_code (depex_patch (\<lambda>g. \<not> EFI_ERROR (loc g)) d)
                               @ EFI_DEP_END # rest)\<rparr>, st1))"
proof -
  have "DepexLoop al loc (DepexSize E) 0 (sor @ depex_code d @ EFI_DEP_END # rest) (st\<lparr>StackPointer := 0\<rparr>)
      = DepexLoop al loc (DepexSize E) (length sor) (sor @ depex_code d @ EFI_DEP_END # rest)
          (st\<lparr>StackPointer := 0\<rparr>)"
    using assms(4,6) by (auto simp: DepexLoop_SOR)
  with DepexLoop_code [OF assms(1) StackOk_reset assms(6), of al loc rest st] assms(2,3,5)
  show ?thesis by (auto simp: CoreIsSchedulable_def)
qed

section \<open>Arbitrary byte strings\<close>

text \<open>
  \<open>no_before_after e n i\<close>: scanning from \<open>i\<close> and stepping over the GUID operands, no opcode below
  \<open>n\<close> is \<open>BEFORE\<close> or \<open>AFTER\<close>.
\<close>

definition opcode_length :: "UINT8 \<Rightarrow> nat" where
  "opcode_length b = (if b = EFI_DEP_PUSH \<or> b = EFI_DEP_REPLACE_TRUE then 1 + sizeof_EFI_GUID else 1)"

function no_before_after :: "UINT8 list \<Rightarrow> nat \<Rightarrow> nat \<Rightarrow> bool" where
  "no_before_after e n i =
     (if n \<le> i then True
      else e ! i \<noteq> EFI_DEP_BEFORE \<and> e ! i \<noteq> EFI_DEP_AFTER
           \<and> no_before_after e n (i + opcode_length (e ! i)))"
  by pat_completeness auto
termination
  by (relation "measure (\<lambda>(e, n, i). n - i)") (auto simp: opcode_length_def)

declare no_before_after.simps [simp del]

lemma no_before_after_upd:
  "i < j \<Longrightarrow> no_before_after (e[i := b]) n j = no_before_after e n j"
proof (induction e n j rule: no_before_after.induct)
  case (1 e n j)
  then show ?case
    by (subst (1 2) no_before_after.simps) (auto simp: opcode_length_def)
qed

lemma PushAndBreak_total:
  assumes "StackOk st"
  shows "\<exists>f st'. PushAndBreak al v i e st = Some (f, e, st') \<and> StackOk st' \<and> (f = Break i \<or> f = Return False)"
  using depex_stack.push_cases [OF assms, of al v] assms by (auto simp: PushAndBreak_def)

lemma BinaryOperator_total:
  assumes "StackOk st"
  shows "\<exists>f st'. BinaryOperator al g i e st = Some (f, e, st') \<and> StackOk st' \<and> (f = Break i \<or> f = Return False)"
  using assms
proof (cases rule: depex_stack.pop_cases)
  case 1
  then show ?thesis using assms by (simp add: BinaryOperator_def)
next
  case (2 v vs st1)
  from 2(3) show ?thesis
  proof (cases rule: depex_stack.pop_cases)
    case 1
    then show ?thesis using 2 by (simp add: BinaryOperator_def)
  next
    case (2 v' vs' st2)
    with \<open>PopBool st = _\<close> PushAndBreak_total [of st2 al "g v v'" i e]
    show ?thesis by (simp add: BinaryOperator_def)
  qed
qed

lemma DepexSwitch_total:
  assumes "StackOk st" and "i < n" and "n + sizeof_EFI_GUID \<le> length e"
    and "e ! i \<noteq> EFI_DEP_BEFORE" and "e ! i \<noteq> EFI_DEP_AFTER"
  shows "\<exists>f e' st'. DepexSwitch al loc i e st = Some (f, e', st') \<and> StackOk st'
    \<and> (e' = e \<or> e' = e[i := EFI_DEP_REPLACE_TRUE])
    \<and> (\<forall>j. f = Break j \<longrightarrow> Suc j = i + opcode_length (e ! i))"
proof -
  have rd: "ReadByte e i = Some (e ! i)" using assms by (simp add: ReadByte_def)
  obtain g where cp: "CopyGuidFrom e (Suc i) = Some g"
    using assms(2,3) by (simp add: CopyGuidFrom_def)
  obtain S v st1 where pop: "PopBool st = Some (S, v, st1)" "StackOk st1"
    using assms(1) by (cases rule: depex_stack.pop_cases) (use assms(1) in auto)
  note push = PushAndBreak_total [OF assms(1), of al]
  note neg = PushAndBreak_total [OF pop(2), of al "\<not> v" i e]
  note bin = BinaryOperator_total [OF assms(1), of al _ i e]
  consider "e ! i = EFI_DEP_SOR" | "e ! i = EFI_DEP_PUSH" | "e ! i = EFI_DEP_AND" | "e ! i = EFI_DEP_OR"
    | "e ! i = EFI_DEP_NOT" | "e ! i = EFI_DEP_TRUE" | "e ! i = EFI_DEP_FALSE" | "e ! i = EFI_DEP_END"
    | "e ! i = EFI_DEP_REPLACE_TRUE"
    | "e ! i \<notin> {EFI_DEP_SOR, EFI_DEP_PUSH, EFI_DEP_AND, EFI_DEP_OR, EFI_DEP_NOT, EFI_DEP_TRUE,
         EFI_DEP_FALSE, EFI_DEP_END, EFI_DEP_REPLACE_TRUE}" by blast
  then show ?thesis
  proof cases
    case 1
    then show ?thesis using rd assms(1) by (simp add: DepexSwitch_def opcode_length_def)
  next
    case 2
    then show ?thesis
      using rd cp push [of True "i + sizeof_EFI_GUID" "e[i := EFI_DEP_REPLACE_TRUE]"]
        push [of False "i + sizeof_EFI_GUID" e]
      by (cases "EFI_ERROR (loc g)") (auto simp: DepexSwitch_def opcode_length_def)
  next
    case 3
    then show ?thesis using rd bin [of "\<lambda>x y. x \<and> y"] by (auto simp: DepexSwitch_def opcode_length_def)
  next
    case 4
    then show ?thesis using rd bin [of "\<lambda>x y. x \<or> y"] by (auto simp: DepexSwitch_def opcode_length_def)
  next
    case 5
    then show ?thesis using rd pop neg
      by (cases "EFI_ERROR S") (auto simp: DepexSwitch_def opcode_length_def)
  next
    case 6
    then show ?thesis using rd push [of True i e] by (auto simp: DepexSwitch_def opcode_length_def)
  next
    case 7
    then show ?thesis using rd push [of False i e] by (auto simp: DepexSwitch_def opcode_length_def)
  next
    case 8
    then show ?thesis using rd pop by (simp add: DepexSwitch_def)
  next
    case 9
    then show ?thesis using rd cp push [of True "i + sizeof_EFI_GUID" e]
      by (auto simp: DepexSwitch_def opcode_length_def)
  next
    case 10
    then show ?thesis using rd assms(1,4,5) by (simp add: DepexSwitch_def)
  qed
qed

lemma DepexLoop_total:
  assumes "StackOk st" and "n + sizeof_EFI_GUID \<le> length e" and "no_before_after e n i"
  shows "\<exists>b e' st'. DepexLoop al loc n i e st = Some (b, e', st') \<and> StackOk st' \<and> length e' = length e"
  using assms
proof (induction "n - i" arbitrary: i e st rule: less_induct)
  case less
  show ?case
  proof (cases "n \<le> i")
    case True
    then have "DepexLoop al loc n i e st = Some (False, e, st)" by (simp add: DepexLoop.simps)
    then show ?thesis using less.prems(1) by blast
  next
    case False
    then have i: "i < n" by simp
    from less.prems(3) i have op: "e ! i \<noteq> EFI_DEP_BEFORE" "e ! i \<noteq> EFI_DEP_AFTER"
      and rest: "no_before_after e n (i + opcode_length (e ! i))"
      by (simp_all add: no_before_after.simps [of e n i])
    obtain f e1 st1 where sw: "DepexSwitch al loc i e st = Some (f, e1, st1)" "StackOk st1"
      "e1 = e \<or> e1 = e[i := EFI_DEP_REPLACE_TRUE]"
      "\<forall>j. f = Break j \<longrightarrow> Suc j = i + opcode_length (e ! i)"
      using DepexSwitch_total [OF less.prems(1) i less.prems(2) op] by blast
    show ?thesis
    proof (cases f)
      case (Return b)
      then have "DepexLoop al loc n i e st = Some (b, e1, st1)"
        using sw(1) i by (subst DepexLoop.simps) simp
      then show ?thesis using sw(2,3) by auto
    next
      case (Break j)
      have len: "length e1 = length e" using sw(3) by auto
      have j: "Suc j = i + opcode_length (e ! i)" using sw(4) Break by simp
      then have "i < Suc j" by (simp add: opcode_length_def split: if_splits)
      then have "no_before_after e1 n (Suc j)"
        using rest sw(3) no_before_after_upd [of i "Suc j" e] j by auto
      moreover have "n - Suc j < n - i" using \<open>i < Suc j\<close> i by simp
      moreover have "n + sizeof_EFI_GUID \<le> length e1" using less.prems(2) len by simp
      ultimately obtain b e' st' where "DepexLoop al loc n (Suc j) e1 st1 = Some (b, e', st')"
        "StackOk st'" "length e' = length e1"
        using less.hyps [OF _ sw(2)] by blast
      moreover have "DepexLoop al loc n i e st = DepexLoop al loc n (Suc j) e1 st1"
        using sw(1) i Break by (subst DepexLoop.simps) simp
      ultimately show ?thesis using len by simp
    qed
  qed
qed

section \<open>Properties\<close>

text \<open>
  C6. On a well-formed dependency expression (an optional \<open>SOR\<close>, the postfix code of \<open>d\<close>, \<open>END\<close>) of
  a driver without \<open>BEFORE\<close> or \<open>AFTER\<close>, \<open>CoreIsSchedulable\<close> returns; it says \<open>TRUE\<close> only if the
  expression holds of the protocols that can be located; and when the evaluation stack can
  always grow, the answer is exactly the value of the expression, and the only change to the
  driver entry is that the protocols found are recorded in the expression.
\<close>

theorem CoreIsSchedulable_correct:
  assumes "depex_wf d" and "\<not> Before E" and "\<not> After E"
    and "sor = [] \<or> sor = [EFI_DEP_SOR]"
    and "Depex E = Some (sor @ depex_code d @ EFI_DEP_END # rest)"
    and "length sor + length (depex_code d) < DepexSize E"
  shows "\<exists>b E' st'. CoreIsSchedulable al loc AllServices E st = Some (b, E', st')
    \<and> (b \<longrightarrow> depex_eval (\<lambda>g. \<not> EFI_ERROR (loc g)) d)
    \<and> ((\<forall>k. al k \<noteq> None) \<longrightarrow> b = depex_eval (\<lambda>g. \<not> EFI_ERROR (loc g)) d
         \<and> E' = E\<lparr>Depex := Some (sor @ depex_code (depex_patch (\<lambda>g. \<not> EFI_ERROR (loc g)) d)
                                    @ EFI_DEP_END # rest)\<rparr>)"
proof -
  from CoreIsSchedulable_code [OF assms, of al loc AllServices st]
  consider E1 st1 k where "CoreIsSchedulable al loc AllServices E st = Some (False, E1, st1)" "al k = None"
    | st1 where "CoreIsSchedulable al loc AllServices E st =
       Some (depex_eval (\<lambda>g. \<not> EFI_ERROR (loc g)) d,
             E\<lparr>Depex := Some (sor @ depex_code (depex_patch (\<lambda>g. \<not> EFI_ERROR (loc g)) d)
                               @ EFI_DEP_END # rest)\<rparr>, st1)" by blast
  then show ?thesis by cases blast+
qed

definition witness_driver :: EFI_CORE_DRIVER_ENTRY where
  "witness_driver =
     \<lparr>Depex = Some (EFI_DEP_SOR # depex_code (DepAnd (Push (replicate 16 7)) (DepNot DepFalse)) @ [EFI_DEP_END]),
      DepexSize = 22, Before = False, After = False, BeforeAfterGuid = [], Dependent = True,
      Unrequested = True\<rparr>"

definition witness_stack :: DEPEX_STACK where
  "witness_stack = \<lparr>StackBuffer = None, StackPointer = 0\<rparr>"

theorem CoreIsSchedulable_correct_witness:
  "\<exists>E' st'. CoreIsSchedulable (\<lambda>n. Some (\<lambda>i. False)) (\<lambda>g. EFI_SUCCESS) EFI_NOT_FOUND witness_driver
     witness_stack = Some (True, E', st')"
  using CoreIsSchedulable_correct [of "DepAnd (Push (replicate 16 7)) (DepNot DepFalse)" witness_driver
      "[EFI_DEP_SOR]" "[]" "\<lambda>n. Some (\<lambda>i. False)" "\<lambda>g. EFI_SUCCESS" EFI_NOT_FOUND witness_stack]
  by (auto simp: witness_driver_def sizeof_EFI_GUID_def)

text \<open>
  C21. The recording is sound: when the same entry is evaluated again later, the answer is the value
  of the original expression where a protocol counts as installed if it could be located in
  either evaluation.
\<close>

theorem CoreIsSchedulable_again:
  assumes "depex_wf d" and "\<not> Before E" and "\<not> After E"
    and "sor = [] \<or> sor = [EFI_DEP_SOR]"
    and "Depex E = Some (sor @ depex_code d @ EFI_DEP_END # rest)"
    and "length sor + length (depex_code d) < DepexSize E"
    and "\<forall>k. al k \<noteq> None"
    and "CoreIsSchedulable al loc1 AllServices1 E st1 = Some (b1, E1, st1')"
  shows "\<exists>E2 st2'. CoreIsSchedulable al loc2 AllServices2 E1 st2 =
    Some (depex_eval (\<lambda>g. \<not> EFI_ERROR (loc1 g) \<or> \<not> EFI_ERROR (loc2 g)) d, E2, st2')"
proof -
  let ?d1 = "depex_patch (\<lambda>g. \<not> EFI_ERROR (loc1 g)) d"
  have E1: "E1 = E\<lparr>Depex := Some (sor @ depex_code ?d1 @ EFI_DEP_END # rest)\<rparr>"
    using CoreIsSchedulable_code [OF assms(1-6), of al loc1 AllServices1 st1] assms(7,8) by auto
  have "(\<exists>E2 st2' k. CoreIsSchedulable al loc2 AllServices2 E1 st2 = Some (False, E2, st2') \<and> al k = None) \<or>
      (\<exists>st2'. CoreIsSchedulable al loc2 AllServices2 E1 st2 =
         Some (depex_eval (\<lambda>g. \<not> EFI_ERROR (loc2 g)) ?d1,
           E1\<lparr>Depex := Some (sor @ depex_code (depex_patch (\<lambda>g. \<not> EFI_ERROR (loc2 g)) ?d1)
                               @ EFI_DEP_END # rest)\<rparr>, st2'))"
    using assms(1-4,6) E1 by (intro CoreIsSchedulable_code) auto
  moreover have "al k \<noteq> None" for k using assms(7) by blast
  ultimately show ?thesis by (auto simp: depex_eval_patch)
qed

theorem CoreIsSchedulable_again_witness:
  "\<exists>E1 st1 E2 st2. CoreIsSchedulable (\<lambda>n. Some (\<lambda>i. False)) (\<lambda>g. EFI_SUCCESS) EFI_NOT_FOUND
       witness_driver witness_stack = Some (True, E1, st1) \<and>
     CoreIsSchedulable (\<lambda>n. Some (\<lambda>i. False)) (\<lambda>g. EFI_NOT_FOUND) EFI_NOT_FOUND E1 st1
       = Some (True, E2, st2)"
proof -
  let ?d = "DepAnd (Push (replicate 16 7)) (DepNot DepFalse)"
  let ?run = "\<lambda>loc. CoreIsSchedulable (\<lambda>n. Some (\<lambda>i. False)) loc EFI_NOT_FOUND"
  obtain E1 st1 where one: "?run (\<lambda>g. EFI_SUCCESS) witness_driver witness_stack = Some (True, E1, st1)"
    using CoreIsSchedulable_code [of ?d witness_driver "[EFI_DEP_SOR]" "[]" "\<lambda>n. Some (\<lambda>i. False)"
        "\<lambda>g. EFI_SUCCESS" EFI_NOT_FOUND witness_stack]
    by (auto simp: witness_driver_def sizeof_EFI_GUID_def)
  have "\<exists>E2 st2. ?run (\<lambda>g. EFI_NOT_FOUND) E1 st1 = Some (True, E2, st2)"
    using CoreIsSchedulable_again [of ?d witness_driver "[EFI_DEP_SOR]" "[]" "\<lambda>n. Some (\<lambda>i. False)"
        "\<lambda>g. EFI_SUCCESS" EFI_NOT_FOUND witness_stack True E1 st1 "\<lambda>g. EFI_NOT_FOUND" EFI_NOT_FOUND st1] one
    by (simp add: witness_driver_def sizeof_EFI_GUID_def)
  with one show ?thesis by blast
qed

text \<open>
  C12. Memory safety on arbitrary bytes: whatever the expression holds, if sixteen more bytes are
  readable behind it and no opcode in it is \<open>BEFORE\<close> or \<open>AFTER\<close>, evaluation returns without leaving
  the expression or the stack buffer, keeps the stack pointer inside the buffer, and does not
  change the size of the expression.
\<close>

theorem CoreIsSchedulable_safe:
  assumes "Depex E = Some e" and "DepexSize E + sizeof_EFI_GUID \<le> length e"
    and "no_before_after e (DepexSize E) 0" and "StackOk st"
  shows "\<exists>b E' e' st'. CoreIsSchedulable al loc AllServices E st = Some (b, E', st')
    \<and> Depex E' = Some e' \<and> length e' = length e \<and> StackOk st'"
proof (cases "After E \<or> Before E")
  case True
  then have "CoreIsSchedulable al loc AllServices E st = Some (False, E, st)"
    by (simp add: CoreIsSchedulable_def)
  with assms(1,4) show ?thesis by blast
next
  case False
  with DepexLoop_total [OF StackOk_reset assms(2,3), of al loc st] assms(1)
  show ?thesis by (auto simp: CoreIsSchedulable_def)
qed

definition witness_garbage :: EFI_CORE_DRIVER_ENTRY where
  "witness_garbage = witness_driver\<lparr>Depex := Some (replicate 18 EFI_DEP_AND), DepexSize := 2\<rparr>"

theorem CoreIsSchedulable_safe_witness:
  "\<exists>b E' e' st'. CoreIsSchedulable (\<lambda>n. None) (\<lambda>g. EFI_SUCCESS) EFI_SUCCESS witness_garbage witness_stack
     = Some (b, E', st') \<and> Depex E' = Some e' \<and> length e' = 18 \<and> StackOk st'"
proof -
  have "no_before_after (replicate 18 EFI_DEP_AND) 2 0"
    by (simp add: no_before_after.simps opcode_length_def)
  then have "\<exists>b E' e' st'. CoreIsSchedulable (\<lambda>n. None) (\<lambda>g. EFI_SUCCESS) EFI_SUCCESS witness_garbage
     witness_stack = Some (b, E', st') \<and> Depex E' = Some e'
     \<and> length e' = length (replicate 18 EFI_DEP_AND) \<and> StackOk st'"
    by (intro CoreIsSchedulable_safe)
      (simp_all add: witness_garbage_def witness_stack_def StackOk_def sizeof_EFI_GUID_def)
  then show ?thesis unfolding length_replicate .
qed

text \<open>
  C29. The bound on the bytes behind the expression is needed: when an expression ends inside the operand of a \<open>PUSH\<close> that
  evaluation reaches, the GUID is copied from beyond the expression. The loop checks the iterator
  against \<open>DepexSize\<close> but not the operand.
\<close>

theorem CoreIsSchedulable_truncated_push:
  assumes "depex_wf d" and "\<not> Before E" and "\<not> After E" and "\<forall>k. al k \<noteq> None"
    and "Depex E = Some (depex_code d @ EFI_DEP_PUSH # g)" and "length g < sizeof_EFI_GUID"
    and "DepexSize E = length (depex_code d @ EFI_DEP_PUSH # g)"
  shows "CoreIsSchedulable al loc AllServices E st = None"
proof -
  let ?c = "depex_code (depex_patch (\<lambda>g. \<not> EFI_ERROR (loc g)) d)"
  have "ReadByte (?c @ EFI_DEP_PUSH # g) (length (depex_code d)) = Some EFI_DEP_PUSH"
    using ReadByte_append [of ?c] by simp
  then have "DepexSwitch al loc (length (depex_code d)) (?c @ EFI_DEP_PUSH # g) st1 = None" for st1
    using assms(6) by (simp add: DepexSwitch_def CopyGuidFrom_def)
  then have "DepexLoop al loc (DepexSize E) (length (depex_code d)) (?c @ EFI_DEP_PUSH # g) st1 = None" for st1
    using assms(7) by (subst DepexLoop.simps) simp
  with runs_depex_code [OF assms(1) StackOk_reset, of "[]" "DepexSize E" al loc "EFI_DEP_PUSH # g" st] assms
  have "DepexLoop al loc (DepexSize E) 0 (depex_code d @ EFI_DEP_PUSH # g) (st\<lparr>StackPointer := 0\<rparr>) = None"
    unfolding runs_def by auto
  with assms(2,3,5) show ?thesis by (simp add: CoreIsSchedulable_def)
qed

theorem CoreIsSchedulable_truncated_push_witness:
  "CoreIsSchedulable (\<lambda>n. Some (\<lambda>i. False)) (\<lambda>g. EFI_SUCCESS) EFI_SUCCESS
     (witness_driver\<lparr>Depex := Some [EFI_DEP_TRUE, EFI_DEP_PUSH, 5], DepexSize := 3\<rparr>) witness_stack = None"
  using CoreIsSchedulable_truncated_push [of DepTrue
      "witness_driver\<lparr>Depex := Some [EFI_DEP_TRUE, EFI_DEP_PUSH, 5], DepexSize := 3\<rparr>"
      "\<lambda>n. Some (\<lambda>i. False)" "[5]"]
  by (simp add: witness_driver_def sizeof_EFI_GUID_def)

end
