(* ===== verification/Base_Math.thy ===== *)
theory Base_Math
  imports Dxe_Prelude
begin

unbundle bit_operations_syntax

text \<open>
  Integer functions of BaseLib (\<open>src/MdePkg/Library/BaseLib\<close>): bit scans, shifts, rotations and byte swaps.
  A C shift by the width of the operand or more is undefined behaviour; such a shift, like a failed
  \<open>ASSERT\<close>, is \<open>None\<close>.
\<close>

section \<open>Definitions\<close>

type_synonym UINT16 = "16 word"

definition c_shl :: "'a::len word \<Rightarrow> nat \<Rightarrow> 'a word option" where
  "c_shl x n = (if n < LENGTH('a) then Some (push_bit n x) else None)"

definition c_shr :: "'a::len word \<Rightarrow> nat \<Rightarrow> 'a word option" where
  "c_shr x n = (if n < LENGTH('a) then Some (drop_bit n x) else None)"

definition InternalMathLShiftU64 :: "UINT64 \<Rightarrow> nat \<Rightarrow> UINT64 option" where
  "InternalMathLShiftU64 Operand Count = c_shl Operand Count"

definition InternalMathRShiftU64 :: "UINT64 \<Rightarrow> nat \<Rightarrow> UINT64 option" where
  "InternalMathRShiftU64 Operand Count = c_shr Operand Count"

definition LShiftU64 :: "UINT64 \<Rightarrow> nat \<Rightarrow> UINT64 option" where
  "LShiftU64 Operand Count = do { ASSERT (Count < 64); InternalMathLShiftU64 Operand Count }"

definition RShiftU64 :: "UINT64 \<Rightarrow> nat \<Rightarrow> UINT64 option" where
  "RShiftU64 Operand Count = do { ASSERT (Count < 64); InternalMathRShiftU64 Operand Count }"

definition LRotU32 :: "UINT32 \<Rightarrow> nat \<Rightarrow> UINT32 option" where
  "LRotU32 Operand Count = do {
     ASSERT (Count < 32);
     High \<leftarrow> c_shl Operand Count;
     Low \<leftarrow> c_shr Operand (32 - Count);
     Some (High OR Low)
   }"

definition RRotU32 :: "UINT32 \<Rightarrow> nat \<Rightarrow> UINT32 option" where
  "RRotU32 Operand Count = do {
     ASSERT (Count < 32);
     Low \<leftarrow> c_shr Operand Count;
     High \<leftarrow> c_shl Operand (32 - Count);
     Some (Low OR High)
   }"

definition InternalMathLRotU64 :: "UINT64 \<Rightarrow> nat \<Rightarrow> UINT64 option" where
  "InternalMathLRotU64 Operand Count = do {
     High \<leftarrow> c_shl Operand Count;
     Low \<leftarrow> c_shr Operand (64 - Count);
     Some (High OR Low)
   }"

definition InternalMathRRotU64 :: "UINT64 \<Rightarrow> nat \<Rightarrow> UINT64 option" where
  "InternalMathRRotU64 Operand Count = do {
     Low \<leftarrow> c_shr Operand Count;
     High \<leftarrow> c_shl Operand (64 - Count);
     Some (Low OR High)
   }"

definition LRotU64 :: "UINT64 \<Rightarrow> nat \<Rightarrow> UINT64 option" where
  "LRotU64 Operand Count = do { ASSERT (Count < 64); InternalMathLRotU64 Operand Count }"

definition RRotU64 :: "UINT64 \<Rightarrow> nat \<Rightarrow> UINT64 option" where
  "RRotU64 Operand Count = do { ASSERT (Count < 64); InternalMathRRotU64 Operand Count }"

text \<open>\<open>Value << 8\<close> is computed in \<open>int\<close> and truncated to sixteen bits.\<close>

definition SwapBytes16 :: "UINT16 \<Rightarrow> UINT16" where
  "SwapBytes16 Value = push_bit 8 Value OR drop_bit 8 Value"

definition SwapBytes32 :: "UINT32 \<Rightarrow> UINT32" where
  "SwapBytes32 Value =
     (let LowerBytes = ucast (SwapBytes16 (ucast Value));
          HigherBytes = ucast (SwapBytes16 (ucast (drop_bit 16 Value)))
      in push_bit 16 LowerBytes OR HigherBytes)"

definition InternalMathSwapBytes64 :: "UINT64 \<Rightarrow> UINT64" where
  "InternalMathSwapBytes64 Operand =
     (let LowerBytes = ucast (SwapBytes32 (ucast Operand));
          HigherBytes = ucast (SwapBytes32 (ucast (drop_bit 32 Operand)))
      in push_bit 32 LowerBytes OR HigherBytes)"

definition SwapBytes64 :: "UINT64 \<Rightarrow> UINT64" where
  "SwapBytes64 Value = InternalMathSwapBytes64 Value"

lemma sint_pos_iff: "0 < sint (x :: UINT32) \<longleftrightarrow> x \<noteq> 0 \<and> \<not> bit x 31"
proof -
  have "bit x 31 \<longleftrightarrow> sint x < 0" using bit_last_iff [of x] by simp
  moreover have "sint x = 0 \<longleftrightarrow> x = 0" using signed_word_eqI [of x 0] by auto
  ultimately show ?thesis by linarith
qed

lemma unat_double:
  fixes x :: UINT32
  assumes "\<not> bit x 31"
  shows "unat (push_bit 1 x) = 2 * unat x"
proof -
  have "bit (take_bit 31 x) n = bit x n" if "n < 32" for n
    using assms that by (cases "n = 31") (simp_all add: bit_take_bit_iff)
  then have "take_bit 31 x = x" by (intro bit_word_eqI) simp
  then have "take_bit 31 (unat x) = unat x" by (metis unsigned_take_bit_eq)
  then have "unat x < 2 ^ 31" by (metis take_bit_nat_less_exp)
  then have "unat (x * 2) = unat x * 2" by (subst unat_mult_lem [THEN iffD1]) simp_all
  then show ?thesis by (simp add: push_bit_eq_mult mult.commute)
qed

section \<open>Bit scans\<close>

function HighBitLoop :: "int \<Rightarrow> UINT32 \<Rightarrow> int" where
  "HighBitLoop BitIndex Operand =
     (if sint Operand > 0 then HighBitLoop (BitIndex - 1) (push_bit 1 Operand) else BitIndex)"
  by pat_completeness auto
termination
proof (relation "measure (\<lambda>(i, x). 2 ^ 32 - unat x)", goal_cases)
  case (2 i x)
  then have "unat (push_bit 1 x) = 2 * unat x" "0 < unat x"
    using unat_double [of x] by (simp_all add: sint_pos_iff unat_gt_0)
  moreover have "unat x < 2 ^ 32" using unsigned_less [of x] by simp
  ultimately show ?case by simp
qed simp

declare HighBitLoop.simps [simp del]

definition HighBitSet32 :: "UINT32 \<Rightarrow> int" where
  "HighBitSet32 Operand = (if Operand = 0 then - 1 else HighBitLoop 31 Operand)"

definition HighBitSet64 :: "UINT64 \<Rightarrow> int option" where
  "HighBitSet64 Operand =
     (if Operand = ucast (ucast Operand :: UINT32) then Some (HighBitSet32 (ucast Operand))
      else do {
        High \<leftarrow> RShiftU64 Operand 32;
        Some (HighBitSet32 (ucast High) + 32)
      })"

definition GetPowerOfTwo32 :: "UINT32 \<Rightarrow> UINT32 option" where
  "GetPowerOfTwo32 Operand =
     (if 0 = Operand then Some 0
      else map_option ucast (c_shl (1 :: UINT64) (nat (HighBitSet32 Operand))))"

definition GetPowerOfTwo64 :: "UINT64 \<Rightarrow> UINT64 option" where
  "GetPowerOfTwo64 Operand =
     (if Operand = 0 then Some 0
      else do {
        Index \<leftarrow> HighBitSet64 Operand;
        LShiftU64 1 (nat Index)
      })"

partial_function (option) LowBitLoop :: "int \<Rightarrow> 'a::len word \<Rightarrow> int option" where
  "LowBitLoop BitIndex Operand =
     (if Operand AND 1 = 0 then LowBitLoop (BitIndex + 1) (drop_bit 1 Operand) else Some BitIndex)"

definition LowBitSet32 :: "UINT32 \<Rightarrow> int option" where
  "LowBitSet32 Operand = (if Operand = 0 then Some (- 1) else LowBitLoop 0 Operand)"

definition LowBitSet64 :: "UINT64 \<Rightarrow> int option" where
  "LowBitSet64 Operand = (if Operand = 0 then Some (- 1) else LowBitLoop 0 Operand)"

section \<open>The highest and the lowest bit\<close>

definition highest_bit :: "'a::len word \<Rightarrow> nat \<Rightarrow> bool" where
  "highest_bit x k \<longleftrightarrow> bit x k \<and> (\<forall>j>k. \<not> bit x j)"

definition lowest_bit :: "'a::len word \<Rightarrow> nat \<Rightarrow> bool" where
  "lowest_bit x k \<longleftrightarrow> bit x k \<and> (\<forall>j<k. \<not> bit x j)"

lemma highest_bit_exists: "x \<noteq> 0 \<Longrightarrow> \<exists>k<LENGTH('a). highest_bit (x :: 'a::len word) k"
proof -
  assume "x \<noteq> 0"
  let ?S = "{k. bit x k}"
  have fin: "finite ?S" by (rule finite_subset [of _ "{..<LENGTH('a)}"]) (auto dest: bit_imp_le_length)
  have "?S \<noteq> {}" using \<open>x \<noteq> 0\<close> by (auto simp: bit_eq_iff)
  with fin have "Max ?S \<in> ?S" by (rule Max_in)
  moreover have "\<not> bit x j" if "j > Max ?S" for j using Max_ge [OF fin, of j] that by (meson CollectI leD)
  ultimately show ?thesis unfolding highest_bit_def using bit_imp_le_length by blast
qed

lemma lowest_bit_exists: "x \<noteq> 0 \<Longrightarrow> \<exists>k<LENGTH('a). lowest_bit (x :: 'a::len word) k"
proof -
  assume "x \<noteq> 0"
  then obtain n where "bit x n" by (auto simp: bit_eq_iff)
  then have "bit x (LEAST k. bit x k)" by (rule LeastI)
  moreover have "\<not> bit x j" if "j < (LEAST k. bit x k)" for j using not_less_Least that by blast
  ultimately show ?thesis unfolding lowest_bit_def using bit_imp_le_length by blast
qed

lemma HighBitLoop_highest:
  assumes "highest_bit x k" and "k \<le> 31"
  shows "HighBitLoop i x = i - (31 - int k)"
  using assms
proof (induction "31 - k" arbitrary: x k i)
  case 0
  then have "bit x 31" by (simp add: highest_bit_def)
  then show ?case using 0 by (subst HighBitLoop.simps) (simp add: sint_pos_iff)
next
  case (Suc d)
  then have k: "k < 31" "\<not> bit x 31" "x \<noteq> 0" by (auto simp: highest_bit_def)
  have "bit (push_bit 1 x) n \<longleftrightarrow> 0 < n \<and> n < 32 \<and> bit x (n - 1)" for n
    using bit_push_bit_iff [of 1 x n] by (simp add: possible_bit_def Suc_le_eq del: push_bit_Suc)
  then have "highest_bit (push_bit 1 x) (Suc k)"
    using Suc.prems k(1) unfolding highest_bit_def by simp
  moreover have "d = 31 - Suc k" "Suc k \<le> 31" using Suc.hyps(2) k(1) by simp_all
  ultimately have "HighBitLoop (i - 1) (push_bit 1 x) = i - 1 - (31 - int (Suc k))"
    by (intro Suc.hyps(1))
  then show ?case using k by (subst HighBitLoop.simps) (simp add: sint_pos_iff)
qed

lemma LowBitLoop_lowest:
  fixes x :: "'a::len word"
  assumes "lowest_bit x k"
  shows "LowBitLoop i x = Some (i + int k)"
  using assms
proof (induction k arbitrary: x i)
  case 0
  then have "odd x" by (simp add: lowest_bit_def bit_0)
  then show ?case by (subst LowBitLoop.simps) (simp add: and_one_eq odd_iff_mod_2_eq_one)
next
  case (Suc k)
  then have "even x" by (auto simp: lowest_bit_def bit_0)
  moreover have "lowest_bit (drop_bit 1 x) k"
    using Suc.prems by (auto simp: lowest_bit_def bit_drop_bit_eq)
  ultimately show ?case using Suc.IH [of "drop_bit 1 x" "i + 1"]
    by (subst LowBitLoop.simps) (simp add: and_one_eq even_iff_mod_2_eq_zero)
qed

lemma HighBitSet32_highest: "highest_bit x k \<Longrightarrow> HighBitSet32 x = int k"
proof -
  assume h: "highest_bit x k"
  then have "k < 32" "x \<noteq> 0" using bit_imp_le_length [of x k] by (auto simp: highest_bit_def)
  then show ?thesis using HighBitLoop_highest [OF h, of 31] by (simp add: HighBitSet32_def)
qed

lemma RShiftU64_eq: "n < 64 \<Longrightarrow> RShiftU64 x n = Some (drop_bit n x)"
  by (simp add: RShiftU64_def InternalMathRShiftU64_def c_shr_def)

lemma LShiftU64_eq: "n < 64 \<Longrightarrow> LShiftU64 x n = Some (push_bit n x)"
  by (simp add: LShiftU64_def InternalMathLShiftU64_def c_shl_def)

lemma HighBitSet64_eq: "highest_bit x k \<Longrightarrow> HighBitSet64 x = Some (int k)"
proof -
  assume h: "highest_bit x k"
  then have k: "k < 64" using bit_imp_le_length [of x k] by (auto simp: highest_bit_def)
  let ?l = "ucast x :: UINT32"
  show ?thesis
  proof (cases "x = ucast ?l")
    case True
    have "bit x n \<longleftrightarrow> bit ?l n" for n using True by (metis bit_unsigned_iff bit_imp_le_length possible_bit_word)
    then have "highest_bit ?l k" using h by (simp add: highest_bit_def)
    then show ?thesis using True HighBitSet32_highest by (simp add: HighBitSet64_def)
  next
    case False
    have "32 \<le> k"
    proof (rule ccontr)
      assume "\<not> 32 \<le> k"
      then have "bit x n = bit (ucast ?l :: UINT64) n" if "n < 64" for n
        using h that by (cases "n < 32") (auto simp: highest_bit_def bit_simps not_le)
      then have "x = ucast ?l" by (intro bit_word_eqI) simp
      then show False using False by simp
    qed
    then have "highest_bit (ucast (drop_bit 32 x) :: UINT32) (k - 32)"
      using h k by (auto simp: highest_bit_def bit_simps)
    then have "HighBitSet32 (ucast (drop_bit 32 x)) = int (k - 32)" by (rule HighBitSet32_highest)
    then show ?thesis using False \<open>32 \<le> k\<close> by (simp add: HighBitSet64_def RShiftU64_eq)
  qed
qed

text \<open>
  C37. \<open>HighBitSet64\<close> and \<open>LowBitSet64\<close> return the positions of the highest and the lowest set bit of every
  non-zero value and -1 for zero, \<open>GetPowerOfTwo64\<close> the value of the highest bit; the loops end.
\<close>

theorem bit_scans_64:
  fixes x :: UINT64
  shows "if x = 0 then HighBitSet64 x = Some (- 1) \<and> LowBitSet64 x = Some (- 1) \<and> GetPowerOfTwo64 x = Some 0
    else \<exists>h l. highest_bit x h \<and> lowest_bit x l \<and> HighBitSet64 x = Some (int h) \<and> LowBitSet64 x = Some (int l)
      \<and> GetPowerOfTwo64 x = Some (push_bit h 1)"
proof (cases "x = 0")
  case True
  then show ?thesis by (simp add: HighBitSet64_def HighBitSet32_def LowBitSet64_def GetPowerOfTwo64_def)
next
  case False
  then obtain h l where h: "highest_bit x h" "h < 64" and l: "lowest_bit x l"
    using highest_bit_exists lowest_bit_exists by fastforce
  then show ?thesis using False HighBitSet64_eq [OF h(1)] LowBitLoop_lowest [OF l, of 0]
    by (auto simp: LowBitSet64_def GetPowerOfTwo64_def LShiftU64_eq)
qed

section \<open>Rotations\<close>

lemma rotated:
  fixes x :: "'a::len word"
  assumes "0 < n" and "n < LENGTH('a)"
  defines "y \<equiv> push_bit n x OR drop_bit (LENGTH('a) - n) x"
  shows "drop_bit n y OR push_bit (LENGTH('a) - n) y = x"
    and "k < LENGTH('a) \<Longrightarrow> bit y ((k + n) mod LENGTH('a)) = bit x k"
proof -
  have y: "bit y j \<longleftrightarrow> (if n \<le> j then j < LENGTH('a) \<and> bit x (j - n) else bit x (LENGTH('a) - n + j))" for j
    unfolding y_def using assms(1,2) by (auto simp: bit_simps dest: bit_imp_le_length)
  have "bit (drop_bit n y OR push_bit (LENGTH('a) - n) y) j = bit x j" if "j < LENGTH('a)" for j
  proof (cases "n + j < LENGTH('a)")
    case True
    then show ?thesis using y [of "n + j"] assms(1,2) by (auto simp: bit_simps)
  next
    case False
    then have j: "LENGTH('a) - n \<le> j" "j - (LENGTH('a) - n) < n" "LENGTH('a) - n + (j - (LENGTH('a) - n)) = j"
      using that assms by auto
    then show ?thesis using y [of "n + j"] y [of "j - (LENGTH('a) - n)"] that False by (auto simp: bit_simps)
  qed
  then show "drop_bit n y OR push_bit (LENGTH('a) - n) y = x" by (intro bit_word_eqI) simp
  show "bit y ((k + n) mod LENGTH('a)) = bit x k" if "k < LENGTH('a)"
  proof (cases "k + n < LENGTH('a)")
    case True
    then show ?thesis using y [of "k + n"] by simp
  next
    case False
    then have "(k + n) mod LENGTH('a) = k + n - LENGTH('a)" using that assms(2) by (simp add: mod_if)
    moreover have "k + n - LENGTH('a) < n" "LENGTH('a) - n + (k + n - LENGTH('a)) = k" using that assms(2) False by auto
    ultimately show ?thesis using y [of "k + n - LENGTH('a)"] by simp
  qed
qed

text \<open>
  C38. For a count of 1 up to 31 (63), rotating right undoes rotating left, in both widths, and bit \<open>k\<close> moves
  to \<open>k + Count\<close> modulo the width.
\<close>

theorem rotate_right_undoes_left:
  assumes "0 < n" and "n < 32" and "0 < m" and "m < 64"
  shows "(\<exists>y. LRotU32 x n = Some y \<and> RRotU32 y n = Some x \<and> (\<forall>k<32. bit y ((k + n) mod 32) = bit x k))
    \<and> (\<exists>y. LRotU64 z m = Some y \<and> RRotU64 y m = Some z \<and> (\<forall>k<64. bit y ((k + m) mod 64) = bit z k))"
proof
  let ?y = "push_bit n x OR drop_bit (32 - n) x"
  have "LRotU32 x n = Some ?y" using assms(1,2) by (simp add: LRotU32_def c_shl_def c_shr_def)
  moreover have "RRotU32 ?y n = Some x"
    using assms(1,2) rotated(1) [of n x] by (simp add: RRotU32_def c_shl_def c_shr_def)
  ultimately show "\<exists>y. LRotU32 x n = Some y \<and> RRotU32 y n = Some x \<and> (\<forall>k<32. bit y ((k + n) mod 32) = bit x k)"
    using rotated(2) [of n _ x] assms(1,2) by auto
next
  let ?y = "push_bit m z OR drop_bit (64 - m) z"
  have "LRotU64 z m = Some ?y" using assms(3,4) by (simp add: LRotU64_def InternalMathLRotU64_def c_shl_def c_shr_def)
  moreover have "RRotU64 ?y m = Some z"
    using assms(3,4) rotated(1) [of m z] by (simp add: RRotU64_def InternalMathRRotU64_def c_shl_def c_shr_def)
  ultimately show "\<exists>y. LRotU64 z m = Some y \<and> RRotU64 y m = Some z \<and> (\<forall>k<64. bit y ((k + m) mod 64) = bit z k)"
    using rotated(2) [of m _ z] assms(3,4) by auto
qed

theorem rotate_right_undoes_left_witness:
  "(\<exists>y. LRotU32 0x80000001 4 = Some y \<and> RRotU32 y 4 = Some 0x80000001)
   \<and> (\<exists>y. LRotU64 0x8000000000000001 8 = Some y \<and> RRotU64 y 8 = Some 0x8000000000000001)"
  using rotate_right_undoes_left [of 4 8 "0x80000001" "0x8000000000000001"] by auto

text \<open>
  C40. The comments allow a count of zero, for which the functions evaluate a shift by the full width of the
  operand; C leaves that undefined, for every operand and in all four functions.
\<close>

theorem rotate_by_zero_undefined:
  "LRotU32 x 0 = None \<and> RRotU32 x 0 = None \<and> LRotU64 z 0 = None \<and> RRotU64 z 0 = None"
  by (simp add: LRotU32_def RRotU32_def LRotU64_def RRotU64_def InternalMathLRotU64_def InternalMathRRotU64_def
      c_shl_def c_shr_def)

section \<open>Byte swaps\<close>

lemma bit_SwapBytes16: "bit (SwapBytes16 x) n \<longleftrightarrow> (if n < 8 then bit x (n + 8) else n < 16 \<and> bit x (n - 8))"
  by (auto simp: SwapBytes16_def bit_simps add.commute dest: bit_imp_le_length)

lemma bit_SwapBytes32: "bit (SwapBytes32 x) n \<longleftrightarrow>
  (if n < 8 then bit x (n + 24) else if n < 16 then bit x (n + 8) else if n < 24 then bit x (n - 8)
   else n < 32 \<and> bit x (n - 24))"
proof -
  have "16 + (n + 8) = n + 24" "n - 16 + 8 = n - 8" if "16 \<le> n" using that by auto
  then show ?thesis
    by (auto simp: SwapBytes32_def Let_def bit_simps bit_SwapBytes16 add.commute dest: bit_imp_le_length)
qed

lemma bit_SwapBytes64: "bit (SwapBytes64 x) n \<longleftrightarrow>
  (if n < 8 then bit x (n + 56) else if n < 16 then bit x (n + 40) else if n < 24 then bit x (n + 24)
   else if n < 32 then bit x (n + 8) else if n < 40 then bit x (n - 8) else if n < 48 then bit x (n - 24)
   else if n < 56 then bit x (n - 40) else n < 64 \<and> bit x (n - 56))"
proof (cases "n < 32")
  case True
  have "32 + (n - 8) = n + 24" if "8 \<le> n" using that by simp
  moreover have "32 + (n - 24) = n + 8" if "24 \<le> n" using that by simp
  ultimately show ?thesis using True
    by (auto simp: SwapBytes64_def InternalMathSwapBytes64_def Let_def bit_simps bit_SwapBytes32 add.commute
        dest: bit_imp_le_length)
next
  case False
  then have "n - 32 + 24 = n - 8" "n < 56 \<Longrightarrow> n - 32 - 8 = n - 40" "40 \<le> n \<Longrightarrow> n - 32 + 8 = n - 24" by auto
  then show ?thesis using False
    by (auto simp: SwapBytes64_def InternalMathSwapBytes64_def Let_def bit_simps bit_SwapBytes32 add.commute
        dest: bit_imp_le_length)
qed

text \<open>
  C39. \<open>SwapBytes64\<close> reverses the order of the eight bytes, and is its own inverse.
\<close>

theorem SwapBytes64_reverses:
  "(\<forall>k<8. \<forall>j<8. bit (SwapBytes64 x) (8 * k + j) = bit x (8 * (7 - k) + j)) \<and> SwapBytes64 (SwapBytes64 x) = x"
proof
  show "\<forall>k<8. \<forall>j<8. bit (SwapBytes64 x) (8 * k + j) = bit x (8 * (7 - k) + j)"
  proof (intro allI impI)
    fix k j :: nat assume "k < 8" "j < 8"
    moreover from \<open>k < 8\<close> have "k = 0 \<or> k = 1 \<or> k = 2 \<or> k = 3 \<or> k = 4 \<or> k = 5 \<or> k = 6 \<or> k = 7" by arith
    ultimately show "bit (SwapBytes64 x) (8 * k + j) = bit x (8 * (7 - k) + j)"
      unfolding bit_SwapBytes64 by (elim disjE) (simp_all add: add.commute)
  qed
  have "bit (SwapBytes64 (SwapBytes64 x)) n = bit x n" if "n < 64" for n
    using that unfolding bit_SwapBytes64 by (auto simp: not_less)
  then show "SwapBytes64 (SwapBytes64 x) = x" by (intro bit_word_eqI) simp
qed

theorem SwapBytes64_reverses_witness:
  "SwapBytes64 (SwapBytes64 0x0102030405060708) = 0x0102030405060708
   \<and> bit (SwapBytes64 0x0102030405060708) (8 * 7 + 3)"
  using SwapBytes64_reverses [of "0x0102030405060708"]
    SwapBytes64_reverses [of "0x0102030405060708", THEN conjunct1, rule_format, of 7 3] by simp

end
