(* ===== verification/Check_Sum.thy ===== *)
theory Check_Sum
  imports Base_Math
begin

unbundle bit_operations_syntax

text \<open>
  The checksums of BaseLib (\<open>src/MdePkg/Library/BaseLib/CheckSum.c\<close>): sums and two's complement checksums of buffers of
  8, 16, 32 and 64-bit values, and the table-driven CRC-32.
  A buffer is its address and the elements it holds; reading behind its end is \<open>None\<close>, like a failed \<open>ASSERT\<close>.
\<close>

section \<open>Definitions\<close>

definition MAX_ADDRESS :: UINT64 where
  "MAX_ADDRESS = 0xFFFFFFFFFFFFFFFF"

definition ReadElement :: "'w::len word list \<Rightarrow> nat \<Rightarrow> 'w word option" where
  "ReadElement Data Count = (if Count < length Data then Some (Data ! Count) else None)"

function SumLoop :: "'w::len word list \<Rightarrow> nat \<Rightarrow> nat \<Rightarrow> 'w word \<Rightarrow> 'w word option" where
  "SumLoop Data Number Count Acc =
     (if Count < Number then do {
        x \<leftarrow> ReadElement Data Count;
        SumLoop Data Number (Count + 1) (Acc + x)
      } else Some Acc)"
  by pat_completeness auto
termination by (relation "measure (\<lambda>(Data, Number, Count, Acc). Number - Count)") auto

declare SumLoop.simps [simp del]

definition CalculateSum8 :: "UINT64 \<Rightarrow> UINT8 list \<Rightarrow> UINT64 \<Rightarrow> UINT8 option" where
  "CalculateSum8 Buffer Data Length = do {
     ASSERT (Buffer \<noteq> 0);
     ASSERT (Length \<le> MAX_ADDRESS - Buffer + 1);
     SumLoop Data (unat Length) 0 0
   }"

definition CalculateCheckSum8 :: "UINT64 \<Rightarrow> UINT8 list \<Rightarrow> UINT64 \<Rightarrow> UINT8 option" where
  "CalculateCheckSum8 Buffer Data Length = do {
     CheckSum \<leftarrow> CalculateSum8 Buffer Data Length;
     Some (ucast (0x100 - ucast CheckSum :: UINT32))
   }"

definition CalculateSum16 :: "UINT64 \<Rightarrow> UINT16 list \<Rightarrow> UINT64 \<Rightarrow> UINT16 option" where
  "CalculateSum16 Buffer Data Length = do {
     ASSERT (Buffer \<noteq> 0);
     ASSERT (Buffer AND 0x1 = 0);
     ASSERT (Length AND 0x1 = 0);
     ASSERT (Length \<le> MAX_ADDRESS - Buffer + 1);
     SumLoop Data (unat (Length div 2)) 0 0
   }"

definition CalculateCheckSum16 :: "UINT64 \<Rightarrow> UINT16 list \<Rightarrow> UINT64 \<Rightarrow> UINT16 option" where
  "CalculateCheckSum16 Buffer Data Length = do {
     CheckSum \<leftarrow> CalculateSum16 Buffer Data Length;
     Some (ucast (0x10000 - ucast CheckSum :: UINT32))
   }"

definition CalculateSum32 :: "UINT64 \<Rightarrow> UINT32 list \<Rightarrow> UINT64 \<Rightarrow> UINT32 option" where
  "CalculateSum32 Buffer Data Length = do {
     ASSERT (Buffer \<noteq> 0);
     ASSERT (Buffer AND 0x3 = 0);
     ASSERT (Length AND 0x3 = 0);
     ASSERT (Length \<le> MAX_ADDRESS - Buffer + 1);
     SumLoop Data (unat (Length div 4)) 0 0
   }"

definition CalculateCheckSum32 :: "UINT64 \<Rightarrow> UINT32 list \<Rightarrow> UINT64 \<Rightarrow> UINT32 option" where
  "CalculateCheckSum32 Buffer Data Length = do {
     CheckSum \<leftarrow> CalculateSum32 Buffer Data Length;
     Some (- 1 - CheckSum + 1)
   }"

definition CalculateSum64 :: "UINT64 \<Rightarrow> UINT64 list \<Rightarrow> UINT64 \<Rightarrow> UINT64 option" where
  "CalculateSum64 Buffer Data Length = do {
     ASSERT (Buffer \<noteq> 0);
     ASSERT (Buffer AND 0x7 = 0);
     ASSERT (Length AND 0x7 = 0);
     ASSERT (Length \<le> MAX_ADDRESS - Buffer + 1);
     SumLoop Data (unat (Length div 8)) 0 0
   }"

definition CalculateCheckSum64 :: "UINT64 \<Rightarrow> UINT64 list \<Rightarrow> UINT64 \<Rightarrow> UINT64 option" where
  "CalculateCheckSum64 Buffer Data Length = do {
     CheckSum \<leftarrow> CalculateSum64 Buffer Data Length;
     Some (- 1 - CheckSum + 1)
   }"

definition mCrcTable :: "UINT32 list" where
  "mCrcTable =
    [
      0x00000000, 0x77073096, 0xEE0E612C, 0x990951BA, 0x076DC419, 0x706AF48F, 0xE963A535, 0x9E6495A3,
      0x0EDB8832, 0x79DCB8A4, 0xE0D5E91E, 0x97D2D988, 0x09B64C2B, 0x7EB17CBD, 0xE7B82D07, 0x90BF1D91,
      0x1DB71064, 0x6AB020F2, 0xF3B97148, 0x84BE41DE, 0x1ADAD47D, 0x6DDDE4EB, 0xF4D4B551, 0x83D385C7,
      0x136C9856, 0x646BA8C0, 0xFD62F97A, 0x8A65C9EC, 0x14015C4F, 0x63066CD9, 0xFA0F3D63, 0x8D080DF5,
      0x3B6E20C8, 0x4C69105E, 0xD56041E4, 0xA2677172, 0x3C03E4D1, 0x4B04D447, 0xD20D85FD, 0xA50AB56B,
      0x35B5A8FA, 0x42B2986C, 0xDBBBC9D6, 0xACBCF940, 0x32D86CE3, 0x45DF5C75, 0xDCD60DCF, 0xABD13D59,
      0x26D930AC, 0x51DE003A, 0xC8D75180, 0xBFD06116, 0x21B4F4B5, 0x56B3C423, 0xCFBA9599, 0xB8BDA50F,
      0x2802B89E, 0x5F058808, 0xC60CD9B2, 0xB10BE924, 0x2F6F7C87, 0x58684C11, 0xC1611DAB, 0xB6662D3D,
      0x76DC4190, 0x01DB7106, 0x98D220BC, 0xEFD5102A, 0x71B18589, 0x06B6B51F, 0x9FBFE4A5, 0xE8B8D433,
      0x7807C9A2, 0x0F00F934, 0x9609A88E, 0xE10E9818, 0x7F6A0DBB, 0x086D3D2D, 0x91646C97, 0xE6635C01,
      0x6B6B51F4, 0x1C6C6162, 0x856530D8, 0xF262004E, 0x6C0695ED, 0x1B01A57B, 0x8208F4C1, 0xF50FC457,
      0x65B0D9C6, 0x12B7E950, 0x8BBEB8EA, 0xFCB9887C, 0x62DD1DDF, 0x15DA2D49, 0x8CD37CF3, 0xFBD44C65,
      0x4DB26158, 0x3AB551CE, 0xA3BC0074, 0xD4BB30E2, 0x4ADFA541, 0x3DD895D7, 0xA4D1C46D, 0xD3D6F4FB,
      0x4369E96A, 0x346ED9FC, 0xAD678846, 0xDA60B8D0, 0x44042D73, 0x33031DE5, 0xAA0A4C5F, 0xDD0D7CC9,
      0x5005713C, 0x270241AA, 0xBE0B1010, 0xC90C2086, 0x5768B525, 0x206F85B3, 0xB966D409, 0xCE61E49F,
      0x5EDEF90E, 0x29D9C998, 0xB0D09822, 0xC7D7A8B4, 0x59B33D17, 0x2EB40D81, 0xB7BD5C3B, 0xC0BA6CAD,
      0xEDB88320, 0x9ABFB3B6, 0x03B6E20C, 0x74B1D29A, 0xEAD54739, 0x9DD277AF, 0x04DB2615, 0x73DC1683,
      0xE3630B12, 0x94643B84, 0x0D6D6A3E, 0x7A6A5AA8, 0xE40ECF0B, 0x9309FF9D, 0x0A00AE27, 0x7D079EB1,
      0xF00F9344, 0x8708A3D2, 0x1E01F268, 0x6906C2FE, 0xF762575D, 0x806567CB, 0x196C3671, 0x6E6B06E7,
      0xFED41B76, 0x89D32BE0, 0x10DA7A5A, 0x67DD4ACC, 0xF9B9DF6F, 0x8EBEEFF9, 0x17B7BE43, 0x60B08ED5,
      0xD6D6A3E8, 0xA1D1937E, 0x38D8C2C4, 0x4FDFF252, 0xD1BB67F1, 0xA6BC5767, 0x3FB506DD, 0x48B2364B,
      0xD80D2BDA, 0xAF0A1B4C, 0x36034AF6, 0x41047A60, 0xDF60EFC3, 0xA867DF55, 0x316E8EEF, 0x4669BE79,
      0xCB61B38C, 0xBC66831A, 0x256FD2A0, 0x5268E236, 0xCC0C7795, 0xBB0B4703, 0x220216B9, 0x5505262F,
      0xC5BA3BBE, 0xB2BD0B28, 0x2BB45A92, 0x5CB36A04, 0xC2D7FFA7, 0xB5D0CF31, 0x2CD99E8B, 0x5BDEAE1D,
      0x9B64C2B0, 0xEC63F226, 0x756AA39C, 0x026D930A, 0x9C0906A9, 0xEB0E363F, 0x72076785, 0x05005713,
      0x95BF4A82, 0xE2B87A14, 0x7BB12BAE, 0x0CB61B38, 0x92D28E9B, 0xE5D5BE0D, 0x7CDCEFB7, 0x0BDBDF21,
      0x86D3D2D4, 0xF1D4E242, 0x68DDB3F8, 0x1FDA836E, 0x81BE16CD, 0xF6B9265B, 0x6FB077E1, 0x18B74777,
      0x88085AE6, 0xFF0F6A70, 0x66063BCA, 0x11010B5C, 0x8F659EFF, 0xF862AE69, 0x616BFFD3, 0x166CCF45,
      0xA00AE278, 0xD70DD2EE, 0x4E048354, 0x3903B3C2, 0xA7672661, 0xD06016F7, 0x4969474D, 0x3E6E77DB,
      0xAED16A4A, 0xD9D65ADC, 0x40DF0B66, 0x37D83BF0, 0xA9BCAE53, 0xDEBB9EC5, 0x47B2CF7F, 0x30B5FFE9,
      0xBDBDF21C, 0xCABAC28A, 0x53B39330, 0x24B4A3A6, 0xBAD03605, 0xCDD70693, 0x54DE5729, 0x23D967BF,
      0xB3667A2E, 0xC4614AB8, 0x5D681B02, 0x2A6F2B94, 0xB40BBE37, 0xC30C8EA1, 0x5A05DF1B, 0x2D02EF8D]"

function CrcLoop :: "UINT8 list \<Rightarrow> nat \<Rightarrow> nat \<Rightarrow> UINT32 \<Rightarrow> UINT32 option" where
  "CrcLoop Data Length Index Crc =
     (if Index < Length then do {
        Byte \<leftarrow> ReadElement Data Index;
        Entry \<leftarrow> ReadElement mCrcTable (unat (ucast Crc XOR Byte));
        CrcLoop Data Length (Index + 1) (drop_bit 8 Crc XOR Entry)
      } else Some Crc)"
  by pat_completeness auto
termination by (relation "measure (\<lambda>(Data, Length, Index, Crc). Length - Index)") auto

declare CrcLoop.simps [simp del]

definition CalculateCrc32 :: "UINT64 \<Rightarrow> UINT8 list \<Rightarrow> UINT64 \<Rightarrow> UINT32 option" where
  "CalculateCrc32 Buffer Data Length = do {
     ASSERT (Buffer \<noteq> 0);
     ASSERT (Length \<le> MAX_ADDRESS - Buffer + 1);
     Crc \<leftarrow> CrcLoop Data (unat Length) 0 0xFFFFFFFF;
     Some (Crc XOR 0xFFFFFFFF)
   }"

section \<open>Sums\<close>

lemma SumLoop_eq:
  "Number \<le> length Data \<Longrightarrow> Count \<le> Number \<Longrightarrow>
     SumLoop Data Number Count Acc = Some (Acc + sum_list (drop Count (take Number Data)))"
proof (induction Data Number Count Acc rule: SumLoop.induct)
  case (1 Data Number Count Acc)
  show ?case
  proof (cases "Count < Number")
    case True
    then have "drop Count (take Number Data) = Data ! Count # drop (Suc Count) (take Number Data)"
      using 1(2) by (simp flip: Cons_nth_drop_Suc)
    then show ?thesis using 1 True by (subst SumLoop.simps) (simp add: ReadElement_def add.assoc)
  next
    case False
    then show ?thesis using 1(3) by (subst SumLoop.simps) simp
  qed
qed

lemma SumLoop_out: "length Data < Number \<Longrightarrow> Count \<le> length Data \<Longrightarrow> SumLoop Data Number Count Acc = None"
proof (induction Data Number Count Acc rule: SumLoop.induct)
  case (1 Data Number Count Acc)
  then show ?case by (subst SumLoop.simps) (auto simp: ReadElement_def)
qed

lemma SumLoop_sum: "SumLoop Data Number 0 0 = (if Number \<le> length Data then Some (sum_list (take Number Data)) else None)"
  using SumLoop_eq [of Number Data 0 0] SumLoop_out [of Data Number 0 0] by simp

text \<open>The two's complement through a wider type.\<close>

lemma take_bit_complement:
  fixes k :: int
  assumes "n \<le> m"
  shows "take_bit n (take_bit m (2 ^ n - take_bit n k)) = take_bit n (- k)"
proof -
  have "take_bit n (take_bit m (2 ^ n - take_bit n k)) = take_bit n (take_bit n (2 ^ n) - take_bit n (take_bit n k))"
    using assms by (simp only: take_bit_diff) (simp add: min_def)
  also have "\<dots> = take_bit n (0 - take_bit n k)" by simp
  finally show ?thesis by (simp add: take_bit_minus)
qed

section \<open>CRC-32\<close>

text \<open>The reference: one step of the shift register with the reversed polynomial of ITU-T V.42 per bit.\<close>

definition crc_bit :: "UINT32 \<Rightarrow> UINT32" where
  "crc_bit c = (if bit c 0 then drop_bit 1 c XOR 0xEDB88320 else drop_bit 1 c)"

definition crc_byte :: "UINT32 \<Rightarrow> UINT8 \<Rightarrow> UINT32" where
  "crc_byte c b = (crc_bit ^^ 8) (c XOR ucast b)"

definition crc32 :: "UINT8 list \<Rightarrow> UINT32" where
  "crc32 bs = NOT (foldl crc_byte (NOT 0) bs)"

lemma mCrcTable_length: "length mCrcTable = 256"
  by (simp add: mCrcTable_def)

lemma crc_bit_xor: "crc_bit (x XOR y) = crc_bit x XOR crc_bit y"
  by (rule bit_word_eqI) (auto simp: crc_bit_def bit_simps)

lemma crc_bits_xor: "(crc_bit ^^ n) (x XOR y) = (crc_bit ^^ n) x XOR (crc_bit ^^ n) y"
  by (induction n) (simp_all add: crc_bit_xor)

lemma crc_bits_zero [simp]: "(crc_bit ^^ n) 0 = 0"
  by (induction n) (simp_all add: crc_bit_def)

text \<open>Zero bits are shifted out.\<close>

lemma crc_bits_drop:
  "\<forall>i<n. \<not> bit x i \<Longrightarrow> (crc_bit ^^ n) x = drop_bit n x"
proof (induction n arbitrary: x)
  case (Suc n)
  have "crc_bit x = drop_bit 1 x" using Suc.prems by (simp add: crc_bit_def)
  moreover have "\<forall>i<n. \<not> bit (drop_bit 1 x) i" using Suc.prems by (simp add: bit_simps)
  ultimately have "(crc_bit ^^ Suc n) x = drop_bit n (drop_bit 1 x)"
    using Suc.IH [of "drop_bit 1 x"] by (simp add: funpow_swap1)
  then show ?case by simp
qed simp

text \<open>The table is determined by its entries at the powers of two.\<close>

definition xor_table :: "UINT32 list \<Rightarrow> UINT32 list" where
  "xor_table bs = foldl (\<lambda>t b. t @ map (\<lambda>x. x XOR b) t) [0] bs"

lemma word_of_nat_xor_power:
  assumes "i < 2 ^ k" and "k < 32"
  shows "(word_of_nat (i + 2 ^ k) :: UINT32) = word_of_nat i XOR push_bit k 1"
proof -
  have "\<not> bit i k" using assms(1) by (simp add: bit_iff_odd)
  then have "i AND 2 ^ k = 0" by (intro bit_eqI) (auto simp: bit_simps bit_exp_iff)
  then have "i + 2 ^ k = i XOR push_bit k 1" by (simp add: disjunctive_add_eq_xor push_bit_eq_mult)
  then show ?thesis by (simp add: of_nat_xor_eq of_nat_push_bit)
qed

lemma xor_table_linear:
  fixes f :: "UINT32 \<Rightarrow> UINT32"
  assumes "f 0 = 0" and lin: "\<And>x y. f (x XOR y) = f x XOR f y" and "k \<le> 32"
  shows "xor_table (map (\<lambda>j. f (push_bit j 1)) [0..<k]) = map (\<lambda>i. f (word_of_nat i)) [0..<2 ^ k]"
  using assms(3)
proof (induction k)
  case 0
  then show ?case using assms(1) by (simp add: xor_table_def)
next
  case (Suc k)
  have "[0..<2 ^ Suc k] = [0..<2 ^ k] @ map (\<lambda>i. i + 2 ^ k) [0..<2 ^ k]"
    by (simp add: map_add_upt upt_add_eq_append [of 0 "2 ^ k" "2 ^ k", simplified] mult_2 add.commute)
  moreover have "f (word_of_nat i + 2 ^ k) = f (word_of_nat i) XOR f (2 ^ k)" if "i < 2 ^ k" for i
    using word_of_nat_xor_power [OF that] Suc.prems lin by (simp add: push_bit_eq_mult)
  ultimately show ?case using Suc by (simp add: xor_table_def push_bit_eq_mult)
qed

lemma crc_bits_8: "(crc_bit ^^ 8) x = crc_bit (crc_bit (crc_bit (crc_bit (crc_bit (crc_bit (crc_bit (crc_bit x)))))))"
  by (simp add: eval_nat_numeral)

lemma mCrcTable_table: "mCrcTable = xor_table (map (\<lambda>j. (crc_bit ^^ 8) (push_bit j 1)) [0..<8])"
proof -
  have "[0..<8] = [0, 1, 2, 3, 4, 5, 6, 7 :: nat]" by (simp add: upt_conv_Cons)
  then have "map (\<lambda>j. (crc_bit ^^ 8) (push_bit j 1)) [0..<8]
    = [0x77073096, 0xEE0E612C, 0x076DC419, 0x0EDB8832, 0x1DB71064, 0x3B6E20C8, 0x76DC4190, 0xEDB88320]"
    unfolding crc_bits_8 by (simp add: crc_bit_def bit_0)
  then show ?thesis by (simp add: xor_table_def mCrcTable_def)
qed

lemma mCrcTable_nth: "ReadElement mCrcTable (unat b) = Some ((crc_bit ^^ 8) (ucast b))" for b :: UINT8
proof -
  have tab: "mCrcTable = map (\<lambda>i. (crc_bit ^^ 8) (word_of_nat i)) [0..<2 ^ 8]"
    unfolding mCrcTable_table by (rule xor_table_linear) (simp_all add: crc_bits_xor)
  have "unat b < 256" by (rule order_less_le_trans [OF unsigned_less]) simp
  then show ?thesis by (simp add: ReadElement_def tab)
qed

text \<open>One round of the table-driven loop is eight steps of the shift register.\<close>

lemma crc_byte_table: "drop_bit 8 c XOR (crc_bit ^^ 8) (ucast (ucast c XOR b :: UINT8)) = crc_byte c b"
proof -
  have "c XOR ucast b = push_bit 8 (drop_bit 8 c) XOR ucast (ucast c XOR b :: UINT8)"
    by (rule bit_word_eqI) (auto simp: bit_simps)
  moreover have "(crc_bit ^^ 8) (push_bit 8 (drop_bit 8 c)) = drop_bit 8 c"
    using crc_bits_drop [of 8 "push_bit 8 (drop_bit 8 c)"] by (simp add: bit_simps) (rule bit_word_eqI, auto simp: bit_simps dest: bit_imp_le_length)
  ultimately show ?thesis by (simp add: crc_byte_def crc_bits_xor)
qed

lemma CrcLoop_eq:
  "Length \<le> length Data \<Longrightarrow> Index \<le> Length \<Longrightarrow>
     CrcLoop Data Length Index Crc = Some (foldl crc_byte Crc (drop Index (take Length Data)))"
proof (induction Data Length Index Crc rule: CrcLoop.induct)
  case (1 Data Length Index Crc)
  show ?case
  proof (cases "Index < Length")
    case True
    then have "drop Index (take Length Data) = Data ! Index # drop (Suc Index) (take Length Data)"
      using 1(2) by (simp flip: Cons_nth_drop_Suc)
    then show ?thesis using 1 True
      by (subst CrcLoop.simps) (simp add: ReadElement_def mCrcTable_nth [unfolded ReadElement_def] flip: crc_byte_table [of Crc "Data ! Index"])
  next
    case False
    then show ?thesis using 1(3) by (subst CrcLoop.simps) simp
  qed
qed

text \<open>The shift register is injective: the top bit of the polynomial tells which bit was shifted out.\<close>

lemma xor_cancel [simp]: "x XOR z = y XOR z \<longleftrightarrow> x = y" for x y z :: "'w::len word"
  by (metis xor.assoc xor.right_neutral xor_self_eq)

lemma crc_bit_inj: "crc_bit x = crc_bit y \<Longrightarrow> x = y"
proof -
  assume eq: "crc_bit x = crc_bit y"
  have top: "bit (crc_bit z) 31 \<longleftrightarrow> bit z 0" for z by (auto simp: crc_bit_def bit_simps dest: bit_imp_le_length)
  then have b0: "bit x 0 = bit y 0" using eq top [of x] by simp
  then have "drop_bit 1 x = drop_bit 1 y" using eq by (auto simp: crc_bit_def split: if_splits)
  then have "bit x (Suc n) = bit y (Suc n)" for n by (metis bit_drop_bit_eq comp_apply plus_1_eq_Suc)
  then show "x = y" using b0 by (intro bit_word_eqI) (metis not0_implies_Suc)
qed

lemma crc_bits_inj: "(crc_bit ^^ n) x = (crc_bit ^^ n) y \<Longrightarrow> x = y"
  by (induction n) (auto dest: crc_bit_inj)

text \<open>Up to four bytes enter the register side by side.\<close>

fun pack :: "UINT8 list \<Rightarrow> UINT32" where
  "pack [] = 0"
| "pack (b # bs) = ucast b XOR push_bit 8 (pack bs)"

lemma pack_snoc: "pack (bs @ [b]) = pack bs XOR push_bit (8 * length bs) (ucast b)"
proof (induction bs)
  case (Cons c bs)
  then show ?case by (simp add: push_bit_xor push_bit_push_bit xor.assoc add.commute)
qed simp

lemma pack_bit:
  "n < 8 \<Longrightarrow> 8 * k + n < 32 \<Longrightarrow> bit (pack bs) (8 * k + n) \<longleftrightarrow> k < length bs \<and> bit (bs ! k) n"
proof (induction bs arbitrary: k)
  case (Cons b bs)
  show ?case
  proof (cases k)
    case 0
    then show ?thesis using Cons.prems by (simp add: bit_simps)
  next
    case (Suc j)
    then have "8 * k + n = 8 + (8 * j + n)" by simp
    then show ?thesis using Cons.prems Cons.IH [of j] Suc by (auto simp: bit_simps dest: bit_imp_le_length)
  qed
qed simp

lemma pack_inj:
  assumes "length us = length vs" and "length us \<le> 4" and "pack us = pack vs"
  shows "us = vs"
proof (rule nth_equalityI [OF assms(1)])
  fix k assume k: "k < length us"
  show "us ! k = vs ! k"
  proof (rule bit_word_eqI)
    fix n assume "n < LENGTH(8)"
    then show "bit (us ! k) n = bit (vs ! k) n"
      using pack_bit [of n k us] pack_bit [of n k vs] assms k by simp
  qed
qed

lemma foldl_crc_byte_pack:
  "length bs \<le> 4 \<Longrightarrow> foldl crc_byte c bs = (crc_bit ^^ (8 * length bs)) (c XOR pack bs)"
proof (induction bs rule: rev_induct)
  case (snoc b bs)
  let ?n = "8 * length bs" and ?b = "ucast b :: UINT32"
  have "(crc_bit ^^ ?n) (push_bit ?n ?b) = drop_bit ?n (push_bit ?n ?b)"
    by (rule crc_bits_drop) (simp add: bit_simps)
  also have "\<dots> = ?b"
    using snoc.prems by (intro bit_word_eqI) (auto simp: bit_simps dest: bit_imp_le_length)
  finally have "(crc_bit ^^ ?n) (c XOR pack bs) XOR ?b = (crc_bit ^^ ?n) (c XOR pack (bs @ [b]))"
    by (simp add: crc_bits_xor pack_snoc xor.assoc)
  then show ?case using snoc by (simp add: crc_byte_def funpow_add)
qed simp

lemma foldl_crc_byte_inj: "foldl crc_byte c ys = foldl crc_byte d ys \<Longrightarrow> c = d"
proof (induction ys arbitrary: c d)
  case (Cons y ys)
  then have "crc_byte c y = crc_byte d y" by auto
  then have "c XOR ucast y = d XOR ucast y" unfolding crc_byte_def by (rule crc_bits_inj)
  then show ?case by simp
qed simp

section \<open>Properties\<close>

text \<open>When the checks of a buffer argument pass and the whole buffer is there.\<close>

definition readable :: "UINT64 \<Rightarrow> 'w::len word list \<Rightarrow> UINT64 \<Rightarrow> nat \<Rightarrow> bool" where
  "readable Buffer Data Length w \<longleftrightarrow> Buffer \<noteq> 0 \<and> Length \<le> MAX_ADDRESS - Buffer + 1
     \<and> unat Buffer mod w = 0 \<and> unat Length mod w = 0 \<and> unat Length div w \<le> length Data"

lemma low_bits_zero:
  fixes x :: UINT64
  shows "x AND 1 = 0 \<longleftrightarrow> unat x mod 2 = 0" "x AND 3 = 0 \<longleftrightarrow> unat x mod 4 = 0" "x AND 7 = 0 \<longleftrightarrow> unat x mod 8 = 0"
proof -
  have "unat (take_bit n x) = unat x mod 2 ^ n" for n
    using take_bit_eq_mod [of n "unat x"] unsigned_take_bit_eq [of n x, where 'a = nat] by simp
  then have "x AND mask n = 0 \<longleftrightarrow> unat x mod 2 ^ n = 0" for n
    unfolding take_bit_eq_mask [symmetric] by (metis unat_eq_zero)
  from this [of 1] this [of 2] this [of 3]
  show "x AND 1 = 0 \<longleftrightarrow> unat x mod 2 = 0" "x AND 3 = 0 \<longleftrightarrow> unat x mod 4 = 0" "x AND 7 = 0 \<longleftrightarrow> unat x mod 8 = 0"
    by (simp_all add: mask_numeral)
qed

lemma CrcLoop_out: "length Data < Length \<Longrightarrow> Index \<le> length Data \<Longrightarrow> CrcLoop Data Length Index Crc = None"
proof (induction Data Length Index Crc rule: CrcLoop.induct)
  case (1 Data Length Index Crc)
  then show ?case by (subst CrcLoop.simps) (auto simp: ReadElement_def mCrcTable_nth [unfolded ReadElement_def])
qed

lemma CalculateCrc32_reference:
  "CalculateCrc32 Buffer Data Length
     = (if readable Buffer Data Length 1 then Some (crc32 (take (unat Length) Data)) else None)"
proof -
  have m: "(0xFFFFFFFF :: UINT32) = - 1" by simp
  have "x XOR - 1 = NOT x" for x :: UINT32 by (rule bit_word_eqI) (simp add: bit_simps)
  then show ?thesis
    using CrcLoop_eq [of "unat Length" Data 0] CrcLoop_out [of Data "unat Length" 0]
    by (auto simp: CalculateCrc32_def readable_def crc32_def ASSERT_def not_le m)
qed

text \<open>
  C23. The table-driven CRC-32 computes the bitwise CRC-32 of ITU-T V.42 (reversed polynomial EDB88320, initial value and final
  exclusive-or of all ones) of the first \<open>Length\<close> bytes, for every buffer; the function returns exactly when the checks of its arguments
  pass and the buffer holds that many bytes.
\<close>

theorem CalculateCrc32_is_crc32:
  "CalculateCrc32 Buffer Data Length
     = (if readable Buffer Data Length 1 then Some (crc32 (take (unat Length) Data)) else None)"
  by (rule CalculateCrc32_reference)

text \<open>
  C24. The CRC-32 detects every change of a buffer that is confined to at most four consecutive bytes.
\<close>

theorem CalculateCrc32_detects:
  assumes "CalculateCrc32 Buffer (xs @ us @ ys) Length = Some Crc1" and "CalculateCrc32 Buffer (xs @ vs @ ys) Length = Some Crc2"
    and "unat Length = length (xs @ us @ ys)" and "length us = length vs" and "length us \<le> 4" and "us \<noteq> vs"
  shows "Crc1 \<noteq> Crc2"
proof -
  have "Crc1 = crc32 (xs @ us @ ys)" "Crc2 = crc32 (xs @ vs @ ys)"
    using assms(1-4) by (auto simp: CalculateCrc32_reference split: if_splits)
  moreover have "foldl crc_byte c us \<noteq> foldl crc_byte c vs" for c
  proof
    assume "foldl crc_byte c us = foldl crc_byte c vs"
    then have "c XOR pack us = c XOR pack vs" using assms(4,5) by (auto simp: foldl_crc_byte_pack dest: crc_bits_inj)
    then have "pack us = pack vs" by (metis xor.commute xor_cancel)
    then show False using pack_inj assms(4-6) by blast
  qed
  ultimately show ?thesis by (auto simp: crc32_def dest: foldl_crc_byte_inj)
qed

theorem CalculateCrc32_detects_witness:
  "\<exists>Crc1 Crc2. CalculateCrc32 1 [1, 2, 3] 3 = Some Crc1 \<and> CalculateCrc32 1 [1, 4, 3] 3 = Some Crc2 \<and> Crc1 \<noteq> Crc2"
proof -
  have "readable 1 [1, 2, 3 :: UINT8] 3 1" "readable 1 [1, 4, 3 :: UINT8] 3 1" by (simp_all add: readable_def MAX_ADDRESS_def)
  then have "\<exists>c. CalculateCrc32 1 ([1] @ [2] @ [3]) 3 = Some c" "\<exists>c. CalculateCrc32 1 ([1] @ [4] @ [3]) 3 = Some c"
    by (simp_all add: CalculateCrc32_reference)
  then obtain c d where cd: "CalculateCrc32 1 ([1] @ [2] @ [3]) 3 = Some c" "CalculateCrc32 1 ([1] @ [4] @ [3]) 3 = Some d" by blast
  then have "c \<noteq> d" by (rule CalculateCrc32_detects) simp_all
  then show ?thesis using cd by simp
qed

text \<open>
  C35. For all four element widths the sum is that of the elements modulo the width, and the checksum is its two's complement, so a
  buffer to which its checksum is appended sums to zero; the functions return exactly when the checks of their arguments pass and the
  buffer is long enough.
\<close>

theorem CalculateCheckSum_cancels:
  "CalculateSum8 Buffer D8 Length = (if readable Buffer D8 Length 1 then Some (sum_list (take (unat Length) D8)) else None)
   \<and> CalculateSum16 Buffer D16 Length = (if readable Buffer D16 Length 2 then Some (sum_list (take (unat Length div 2) D16)) else None)
   \<and> CalculateSum32 Buffer D32 Length = (if readable Buffer D32 Length 4 then Some (sum_list (take (unat Length div 4) D32)) else None)
   \<and> CalculateSum64 Buffer D64 Length = (if readable Buffer D64 Length 8 then Some (sum_list (take (unat Length div 8) D64)) else None)
   \<and> CalculateCheckSum8 Buffer D8 Length = map_option uminus (CalculateSum8 Buffer D8 Length)
   \<and> CalculateCheckSum16 Buffer D16 Length = map_option uminus (CalculateSum16 Buffer D16 Length)
   \<and> CalculateCheckSum32 Buffer D32 Length = map_option uminus (CalculateSum32 Buffer D32 Length)
   \<and> CalculateCheckSum64 Buffer D64 Length = map_option uminus (CalculateSum64 Buffer D64 Length)"
proof (intro conjI)
  have c8: "ucast (0x100 - ucast x :: UINT32) = - x" for x :: UINT8
    using take_bit_complement [of 8 32] by transfer simp
  have c16: "ucast (0x10000 - ucast x :: UINT32) = - x" for x :: UINT16
    using take_bit_complement [of 16 32] by transfer simp
  show "CalculateCheckSum8 Buffer D8 Length = map_option uminus (CalculateSum8 Buffer D8 Length)"
    by (cases "CalculateSum8 Buffer D8 Length") (simp_all add: CalculateCheckSum8_def c8)
  show "CalculateCheckSum16 Buffer D16 Length = map_option uminus (CalculateSum16 Buffer D16 Length)"
    by (cases "CalculateSum16 Buffer D16 Length") (simp_all add: CalculateCheckSum16_def c16)
  show "CalculateCheckSum32 Buffer D32 Length = map_option uminus (CalculateSum32 Buffer D32 Length)"
    by (cases "CalculateSum32 Buffer D32 Length") (simp_all add: CalculateCheckSum32_def)
  show "CalculateCheckSum64 Buffer D64 Length = map_option uminus (CalculateSum64 Buffer D64 Length)"
    by (cases "CalculateSum64 Buffer D64 Length") (simp_all add: CalculateCheckSum64_def)
qed (simp_all add: CalculateSum8_def CalculateSum16_def CalculateSum32_def CalculateSum64_def readable_def ASSERT_def SumLoop_sum
      low_bits_zero unat_div)

end
