(* ===== verification/Bit_Field.thy ===== *)
theory Bit_Field
  imports Base_Math
begin

unbundle bit_operations_syntax

text \<open>
  Bit fields (\<open>src/MdePkg/Library/BaseLib/BitField.c\<close>): reading, writing, and combining a field of an 8, 16, 32 or 64-bit
  value, and counting its set bits.
\<close>

section \<open>Definitions\<close>

text \<open>Subtraction on \<open>UINTN\<close> bit positions.\<close>

definition UintnSub :: "nat \<Rightarrow> nat \<Rightarrow> nat" where
  "UintnSub a b = (if b \<le> a then a - b else 2 ^ 64 + a - b)"

definition InternalBaseLibBitFieldReadUint :: "UINT64 \<Rightarrow> nat \<Rightarrow> nat \<Rightarrow> UINT64 option" where
  "InternalBaseLibBitFieldReadUint Operand StartBit EndBit = do {
     High \<leftarrow> c_shl (- 2) EndBit;
     c_shr (Operand AND NOT High) StartBit
   }"

definition InternalBaseLibBitFieldOrUint :: "UINT64 \<Rightarrow> nat \<Rightarrow> nat \<Rightarrow> UINT64 \<Rightarrow> UINT64 option" where
  "InternalBaseLibBitFieldOrUint Operand StartBit EndBit OrData = do {
     Top \<leftarrow> c_shr OrData (UintnSub EndBit StartBit);
     ASSERT (Top = Top AND 1);
     Field \<leftarrow> c_shl OrData StartBit;
     High \<leftarrow> c_shl (- 2) EndBit;
     Some (Operand OR (Field AND NOT High))
   }"

definition InternalBaseLibBitFieldAndUint :: "UINT64 \<Rightarrow> nat \<Rightarrow> nat \<Rightarrow> UINT64 \<Rightarrow> UINT64 option" where
  "InternalBaseLibBitFieldAndUint Operand StartBit EndBit AndData = do {
     Top \<leftarrow> c_shr AndData (UintnSub EndBit StartBit);
     ASSERT (Top = Top AND 1);
     Field \<leftarrow> c_shl (NOT AndData) StartBit;
     High \<leftarrow> c_shl (- 2) EndBit;
     Some (Operand AND NOT (Field AND NOT High))
   }"

definition BitFieldRead8 :: "UINT8 \<Rightarrow> nat \<Rightarrow> nat \<Rightarrow> UINT8 option" where
  "BitFieldRead8 Operand StartBit EndBit = do {
     ASSERT (EndBit < 8);
     ASSERT (StartBit \<le> EndBit);
     r \<leftarrow> InternalBaseLibBitFieldReadUint (ucast Operand) StartBit EndBit;
     Some (ucast r)
   }"

definition BitFieldOr8 :: "UINT8 \<Rightarrow> nat \<Rightarrow> nat \<Rightarrow> UINT8 \<Rightarrow> UINT8 option" where
  "BitFieldOr8 Operand StartBit EndBit OrData = do {
     ASSERT (EndBit < 8);
     ASSERT (StartBit \<le> EndBit);
     r \<leftarrow> InternalBaseLibBitFieldOrUint (ucast Operand) StartBit EndBit (ucast OrData);
     Some (ucast r)
   }"

definition BitFieldAnd8 :: "UINT8 \<Rightarrow> nat \<Rightarrow> nat \<Rightarrow> UINT8 \<Rightarrow> UINT8 option" where
  "BitFieldAnd8 Operand StartBit EndBit AndData = do {
     ASSERT (EndBit < 8);
     ASSERT (StartBit \<le> EndBit);
     r \<leftarrow> InternalBaseLibBitFieldAndUint (ucast Operand) StartBit EndBit (ucast AndData);
     Some (ucast r)
   }"

definition BitFieldAndThenOr8 :: "UINT8 \<Rightarrow> nat \<Rightarrow> nat \<Rightarrow> UINT8 \<Rightarrow> UINT8 \<Rightarrow> UINT8 option" where
  "BitFieldAndThenOr8 Operand StartBit EndBit AndData OrData = do {
     ASSERT (EndBit < 8);
     ASSERT (StartBit \<le> EndBit);
     r \<leftarrow> BitFieldAnd8 Operand StartBit EndBit AndData;
     BitFieldOr8 r StartBit EndBit OrData
   }"

definition BitFieldWrite8 :: "UINT8 \<Rightarrow> nat \<Rightarrow> nat \<Rightarrow> UINT8 \<Rightarrow> UINT8 option" where
  "BitFieldWrite8 Operand StartBit EndBit Value = do {
     ASSERT (EndBit < 8);
     ASSERT (StartBit \<le> EndBit);
     BitFieldAndThenOr8 Operand StartBit EndBit 0 Value
   }"

definition BitFieldRead16 :: "UINT16 \<Rightarrow> nat \<Rightarrow> nat \<Rightarrow> UINT16 option" where
  "BitFieldRead16 Operand StartBit EndBit = do {
     ASSERT (EndBit < 16);
     ASSERT (StartBit \<le> EndBit);
     r \<leftarrow> InternalBaseLibBitFieldReadUint (ucast Operand) StartBit EndBit;
     Some (ucast r)
   }"

definition BitFieldOr16 :: "UINT16 \<Rightarrow> nat \<Rightarrow> nat \<Rightarrow> UINT16 \<Rightarrow> UINT16 option" where
  "BitFieldOr16 Operand StartBit EndBit OrData = do {
     ASSERT (EndBit < 16);
     ASSERT (StartBit \<le> EndBit);
     r \<leftarrow> InternalBaseLibBitFieldOrUint (ucast Operand) StartBit EndBit (ucast OrData);
     Some (ucast r)
   }"

definition BitFieldAnd16 :: "UINT16 \<Rightarrow> nat \<Rightarrow> nat \<Rightarrow> UINT16 \<Rightarrow> UINT16 option" where
  "BitFieldAnd16 Operand StartBit EndBit AndData = do {
     ASSERT (EndBit < 16);
     ASSERT (StartBit \<le> EndBit);
     r \<leftarrow> InternalBaseLibBitFieldAndUint (ucast Operand) StartBit EndBit (ucast AndData);
     Some (ucast r)
   }"

definition BitFieldAndThenOr16 :: "UINT16 \<Rightarrow> nat \<Rightarrow> nat \<Rightarrow> UINT16 \<Rightarrow> UINT16 \<Rightarrow> UINT16 option" where
  "BitFieldAndThenOr16 Operand StartBit EndBit AndData OrData = do {
     ASSERT (EndBit < 16);
     ASSERT (StartBit \<le> EndBit);
     r \<leftarrow> BitFieldAnd16 Operand StartBit EndBit AndData;
     BitFieldOr16 r StartBit EndBit OrData
   }"

definition BitFieldWrite16 :: "UINT16 \<Rightarrow> nat \<Rightarrow> nat \<Rightarrow> UINT16 \<Rightarrow> UINT16 option" where
  "BitFieldWrite16 Operand StartBit EndBit Value = do {
     ASSERT (EndBit < 16);
     ASSERT (StartBit \<le> EndBit);
     BitFieldAndThenOr16 Operand StartBit EndBit 0 Value
   }"

definition BitFieldRead32 :: "UINT32 \<Rightarrow> nat \<Rightarrow> nat \<Rightarrow> UINT32 option" where
  "BitFieldRead32 Operand StartBit EndBit = do {
     ASSERT (EndBit < 32);
     ASSERT (StartBit \<le> EndBit);
     r \<leftarrow> InternalBaseLibBitFieldReadUint (ucast Operand) StartBit EndBit;
     Some (ucast r)
   }"

definition BitFieldOr32 :: "UINT32 \<Rightarrow> nat \<Rightarrow> nat \<Rightarrow> UINT32 \<Rightarrow> UINT32 option" where
  "BitFieldOr32 Operand StartBit EndBit OrData = do {
     ASSERT (EndBit < 32);
     ASSERT (StartBit \<le> EndBit);
     r \<leftarrow> InternalBaseLibBitFieldOrUint (ucast Operand) StartBit EndBit (ucast OrData);
     Some (ucast r)
   }"

definition BitFieldAnd32 :: "UINT32 \<Rightarrow> nat \<Rightarrow> nat \<Rightarrow> UINT32 \<Rightarrow> UINT32 option" where
  "BitFieldAnd32 Operand StartBit EndBit AndData = do {
     ASSERT (EndBit < 32);
     ASSERT (StartBit \<le> EndBit);
     r \<leftarrow> InternalBaseLibBitFieldAndUint (ucast Operand) StartBit EndBit (ucast AndData);
     Some (ucast r)
   }"

definition BitFieldAndThenOr32 :: "UINT32 \<Rightarrow> nat \<Rightarrow> nat \<Rightarrow> UINT32 \<Rightarrow> UINT32 \<Rightarrow> UINT32 option" where
  "BitFieldAndThenOr32 Operand StartBit EndBit AndData OrData = do {
     ASSERT (EndBit < 32);
     ASSERT (StartBit \<le> EndBit);
     r \<leftarrow> BitFieldAnd32 Operand StartBit EndBit AndData;
     BitFieldOr32 r StartBit EndBit OrData
   }"

definition BitFieldWrite32 :: "UINT32 \<Rightarrow> nat \<Rightarrow> nat \<Rightarrow> UINT32 \<Rightarrow> UINT32 option" where
  "BitFieldWrite32 Operand StartBit EndBit Value = do {
     ASSERT (EndBit < 32);
     ASSERT (StartBit \<le> EndBit);
     BitFieldAndThenOr32 Operand StartBit EndBit 0 Value
   }"

definition BitFieldRead64 :: "UINT64 \<Rightarrow> nat \<Rightarrow> nat \<Rightarrow> UINT64 option" where
  "BitFieldRead64 Operand StartBit EndBit = do {
     ASSERT (EndBit < 64);
     ASSERT (StartBit \<le> EndBit);
     High \<leftarrow> LShiftU64 (- 2) EndBit;
     RShiftU64 (Operand AND NOT High) StartBit
   }"

definition BitFieldOr64 :: "UINT64 \<Rightarrow> nat \<Rightarrow> nat \<Rightarrow> UINT64 \<Rightarrow> UINT64 option" where
  "BitFieldOr64 Operand StartBit EndBit OrData = do {
     ASSERT (EndBit < 64);
     ASSERT (StartBit \<le> EndBit);
     Top \<leftarrow> RShiftU64 OrData (UintnSub EndBit StartBit);
     ASSERT (Top = Top AND 1);
     Value1 \<leftarrow> LShiftU64 OrData StartBit;
     Value2 \<leftarrow> LShiftU64 (- 2) EndBit;
     Some (Operand OR (Value1 AND NOT Value2))
   }"

definition BitFieldAnd64 :: "UINT64 \<Rightarrow> nat \<Rightarrow> nat \<Rightarrow> UINT64 \<Rightarrow> UINT64 option" where
  "BitFieldAnd64 Operand StartBit EndBit AndData = do {
     ASSERT (EndBit < 64);
     ASSERT (StartBit \<le> EndBit);
     Top \<leftarrow> RShiftU64 AndData (UintnSub EndBit StartBit);
     ASSERT (Top = Top AND 1);
     Value1 \<leftarrow> LShiftU64 (NOT AndData) StartBit;
     Value2 \<leftarrow> LShiftU64 (- 2) EndBit;
     Some (Operand AND NOT (Value1 AND NOT Value2))
   }"

definition BitFieldAndThenOr64 :: "UINT64 \<Rightarrow> nat \<Rightarrow> nat \<Rightarrow> UINT64 \<Rightarrow> UINT64 \<Rightarrow> UINT64 option" where
  "BitFieldAndThenOr64 Operand StartBit EndBit AndData OrData = do {
     ASSERT (EndBit < 64);
     ASSERT (StartBit \<le> EndBit);
     r \<leftarrow> BitFieldAnd64 Operand StartBit EndBit AndData;
     BitFieldOr64 r StartBit EndBit OrData
   }"

definition BitFieldWrite64 :: "UINT64 \<Rightarrow> nat \<Rightarrow> nat \<Rightarrow> UINT64 \<Rightarrow> UINT64 option" where
  "BitFieldWrite64 Operand StartBit EndBit Value = do {
     ASSERT (EndBit < 64);
     ASSERT (StartBit \<le> EndBit);
     BitFieldAndThenOr64 Operand StartBit EndBit 0 Value
   }"

definition BitFieldCountOnes32 :: "UINT32 \<Rightarrow> nat \<Rightarrow> nat \<Rightarrow> UINT8 option" where
  "BitFieldCountOnes32 Operand StartBit EndBit = do {
     ASSERT (EndBit < 32);
     ASSERT (StartBit \<le> EndBit);
     Count \<leftarrow> BitFieldRead32 Operand StartBit EndBit;
     let Count = Count - (drop_bit 1 Count AND 0x55555555);
     let Count = (Count AND 0x33333333) + (drop_bit 2 Count AND 0x33333333);
     let Count = Count + drop_bit 4 Count;
     let Count = Count AND 0x0F0F0F0F;
     let Count = Count + drop_bit 8 Count;
     let Count = Count + drop_bit 16 Count;
     Some (ucast Count AND 0x3F)
   }"

definition BitFieldCountOnes64 :: "UINT64 \<Rightarrow> nat \<Rightarrow> nat \<Rightarrow> UINT8 option" where
  "BitFieldCountOnes64 Operand StartBit EndBit = do {
     ASSERT (EndBit < 64);
     ASSERT (StartBit \<le> EndBit);
     BitField \<leftarrow> BitFieldRead64 Operand StartBit EndBit;
     Count \<leftarrow> BitFieldCountOnes32 (ucast BitField) 0 31;
     High \<leftarrow> RShiftU64 BitField 32;
     Count2 \<leftarrow> BitFieldCountOnes32 (ucast High) 0 31;
     Some (Count + Count2)
   }"

section \<open>Fields as sequences of bits\<close>

text \<open>The field of bits \<open>S\<close> to \<open>E\<close>, the operations on it, and the values that fit into it.\<close>

definition field :: "nat \<Rightarrow> nat \<Rightarrow> 'w::len word \<Rightarrow> 'w word" where
  "field S E x = take_bit (Suc E - S) (drop_bit S x)"

definition set_field :: "nat \<Rightarrow> nat \<Rightarrow> 'w::len word \<Rightarrow> 'w word \<Rightarrow> 'w word" where
  "set_field S E v x = (x AND NOT (push_bit S (mask (Suc E - S)))) OR push_bit S (take_bit (Suc E - S) v)"

definition fits_field :: "nat \<Rightarrow> nat \<Rightarrow> 'w::len word \<Rightarrow> bool" where
  "fits_field S E v \<longleftrightarrow> unat v < 2 ^ (Suc E - S)"

lemma word_bits_iff: "x = y \<longleftrightarrow> (\<forall>n. bit x n = bit y n)" for x y :: "'w::len word"
  by (auto intro: bit_word_eqI)

lemma bit_field: "bit (field S E x) n \<longleftrightarrow> S + n \<le> E \<and> bit x (S + n)" if "S \<le> E"
  using that by (auto simp: field_def bit_simps)

lemma bit_set_field:
  "bit (set_field S E v x) n \<longleftrightarrow> (if S \<le> n \<and> n \<le> E then n < LENGTH('w) \<and> bit v (n - S) else bit x n)"
  if "S \<le> E" for x v :: "'w::len word"
  using that by (auto simp: set_field_def bit_simps dest: bit_imp_le_length)

lemma fits_field_bits: "fits_field S E v \<longleftrightarrow> (\<forall>n>E - S. \<not> bit v n)" if "S \<le> E" for v :: "'w::len word"
proof -
  have "fits_field S E v \<longleftrightarrow> take_bit (Suc (E - S)) (unat v) = unat v"
    using that by (simp add: fits_field_def take_bit_nat_eq_self_iff Suc_diff_le)
  also have "\<dots> \<longleftrightarrow> (\<forall>n>E - S. \<not> bit (unat v) n)"
    by (auto simp: bit_eq_iff bit_take_bit_iff less_Suc_eq_le) (metis not_le)+
  finally show ?thesis by (auto simp: bit_simps)
qed

section \<open>The 64-bit workers\<close>

lemma bit_minus_2: "bit (push_bit E (- 2 :: UINT64)) n \<longleftrightarrow> E < n \<and> n < 64" if "E < 64"
proof -
  have "(- 2 :: UINT64) = NOT 1" by simp
  then show ?thesis using that by (auto simp: bit_simps bit_1_iff)
qed

lemma top_bits:
  "drop_bit k v = drop_bit k v AND 1 \<longleftrightarrow> (\<forall>n>k. \<not> bit v n)" for v :: UINT64
proof -
  have "drop_bit k v = drop_bit k v AND 1 \<longleftrightarrow> (\<forall>n. bit v (k + n) \<longrightarrow> n = 0)"
    by (auto simp: word_bits_iff bit_simps bit_1_iff dest: bit_imp_le_length)
  also have "\<dots> \<longleftrightarrow> (\<forall>n>k. \<not> bit v n)" by (metis add.right_neutral less_add_same_cancel1 less_imp_add_positive not_gr_zero)
  finally show ?thesis .
qed

text \<open>The bits of the three worker expressions.\<close>

lemma read_bits:
  fixes x :: UINT64
  assumes "S \<le> E" and "E < 64"
  shows "drop_bit S (x AND NOT (push_bit E (- 2))) = field S E x"
proof (rule bit_word_eqI)
  fix n assume "n < LENGTH(64)"
  then show "bit (drop_bit S (x AND NOT (push_bit E (- 2)))) n = bit (field S E x) n"
    using bit_minus_2 [OF assms(2), of "S + n"] bit_imp_le_length [of x "S + n"]
    by (auto simp: bit_field [OF assms(1)] bit_drop_bit_eq bit_and_iff bit_not_iff simp del: bit_push_bit_iff)
qed

lemma or_bits:
  fixes x v :: UINT64
  assumes "S \<le> E" and "E < 64" and "fits_field S E v"
  shows "x OR (push_bit S v AND NOT (push_bit E (- 2))) = set_field S E (field S E x OR v) x"
proof (rule bit_word_eqI)
  fix n assume "n < LENGTH(64)"
  then show "bit (x OR (push_bit S v AND NOT (push_bit E (- 2)))) n = bit (set_field S E (field S E x OR v) x) n"
    using bit_minus_2 [OF assms(2), of n]
    by (auto simp: bit_field [OF assms(1)] bit_set_field [OF assms(1)] bit_or_iff bit_and_iff bit_not_iff bit_push_bit_iff [of S])
qed

lemma and_bits:
  fixes x v :: UINT64
  assumes "S \<le> E" and "E < 64" and "fits_field S E v"
  shows "x AND NOT (push_bit S (NOT v) AND NOT (push_bit E (- 2))) = set_field S E (field S E x AND v) x"
proof (rule bit_word_eqI)
  fix n assume "n < LENGTH(64)"
  then show "bit (x AND NOT (push_bit S (NOT v) AND NOT (push_bit E (- 2)))) n = bit (set_field S E (field S E x AND v) x) n"
    using bit_minus_2 [OF assms(2), of n]
    by (auto simp: bit_field [OF assms(1)] bit_set_field [OF assms(1)] bit_or_iff bit_and_iff bit_not_iff bit_push_bit_iff [of S])
qed

lemma field_workers:
  assumes "S \<le> E" and "E < 64"
  shows "InternalBaseLibBitFieldReadUint x S E = Some (field S E x)"
    "InternalBaseLibBitFieldOrUint x S E v = (if fits_field S E v then Some (set_field S E (field S E x OR v) x) else None)"
    "InternalBaseLibBitFieldAndUint x S E v = (if fits_field S E v then Some (set_field S E (field S E x AND v) x) else None)"
proof -
  have sub: "UintnSub E S = E - S" "E - S < 64" "S < 64" using assms by (simp_all add: UintnSub_def)
  show "InternalBaseLibBitFieldReadUint x S E = Some (field S E x)"
    using assms sub read_bits [OF assms] by (simp add: InternalBaseLibBitFieldReadUint_def c_shl_def c_shr_def)
  have fit: "drop_bit (E - S) v = drop_bit (E - S) v AND 1 \<longleftrightarrow> fits_field S E v"
    by (simp only: top_bits fits_field_bits [OF assms(1)])
  show "InternalBaseLibBitFieldOrUint x S E v = (if fits_field S E v then Some (set_field S E (field S E x OR v) x) else None)"
    unfolding InternalBaseLibBitFieldOrUint_def c_shl_def c_shr_def ASSERT_def sub(1)
    using assms sub(2,3) or_bits [OF assms] fit by simp
  show "InternalBaseLibBitFieldAndUint x S E v = (if fits_field S E v then Some (set_field S E (field S E x AND v) x) else None)"
    unfolding InternalBaseLibBitFieldAndUint_def c_shl_def c_shr_def ASSERT_def sub(1)
    using assms sub(2,3) and_bits [OF assms] fit by simp
qed

section \<open>Narrower operands\<close>

lemma field_ucast:
  fixes x :: "'w::len word"
  assumes "S \<le> E" and "E < LENGTH('w)" and "LENGTH('w) \<le> 64"
  shows "ucast (field S E (ucast x :: UINT64)) = field S E x"
proof (rule bit_word_eqI)
  fix n assume "n < LENGTH('w)"
  then show "bit (ucast (field S E (ucast x :: UINT64)) :: 'w word) n = bit (field S E x) n"
    using assms by (auto simp: bit_unsigned_iff bit_field [OF assms(1)] dest: bit_imp_le_length)
qed

lemma set_field_ucast:
  fixes x v :: "'w::len word"
  assumes "S \<le> E" and "E < LENGTH('w)" and "LENGTH('w) \<le> 64"
  shows "ucast (set_field S E (field S E (ucast x) OR ucast v) (ucast x :: UINT64)) = set_field S E (field S E x OR v) x"
    "ucast (set_field S E (field S E (ucast x) AND ucast v) (ucast x :: UINT64)) = set_field S E (field S E x AND v) x"
proof -
  show "ucast (set_field S E (field S E (ucast x) OR ucast v) (ucast x :: UINT64)) = set_field S E (field S E x OR v) x"
  proof (rule bit_word_eqI)
    fix n assume "n < LENGTH('w)"
    then show "bit (ucast (set_field S E (field S E (ucast x) OR ucast v) (ucast x :: UINT64)) :: 'w word) n
        = bit (set_field S E (field S E x OR v) x) n"
      using assms by (auto simp: bit_unsigned_iff bit_field [OF assms(1)] bit_set_field [OF assms(1)] bit_or_iff)
  qed
  show "ucast (set_field S E (field S E (ucast x) AND ucast v) (ucast x :: UINT64)) = set_field S E (field S E x AND v) x"
  proof (rule bit_word_eqI)
    fix n assume "n < LENGTH('w)"
    then show "bit (ucast (set_field S E (field S E (ucast x) AND ucast v) (ucast x :: UINT64)) :: 'w word) n
        = bit (set_field S E (field S E x AND v) x) n"
      using assms by (auto simp: bit_unsigned_iff bit_field [OF assms(1)] bit_set_field [OF assms(1)] bit_and_iff)
  qed
qed

lemma fits_field_ucast:
  fixes v :: "'w::len word"
  assumes "LENGTH('w) \<le> 64"
  shows "fits_field S E (ucast v :: UINT64) = fits_field S E v"
proof -
  have "unat v < 2 ^ 64" by (rule order_less_le_trans [OF unsigned_less]) (rule power_increasing [OF assms], simp)
  then show ?thesis by (simp add: fits_field_def unsigned_ucast_eq take_bit_nat_eq_self)
qed

text \<open>A field that was set is read back, and setting it again overwrites it.\<close>

lemma field_set_field:
  fixes x v :: "'w::len word"
  assumes "S \<le> E" and "E < LENGTH('w)" and "fits_field S E v"
  shows "field S E (set_field S E v x) = v"
proof (rule bit_word_eqI)
  fix n assume "n < LENGTH('w)"
  have "\<not> bit v n" if "\<not> S + n \<le> E" using assms that by (simp add: fits_field_bits [OF assms(1)])
  then show "bit (field S E (set_field S E v x)) n = bit v n"
    using assms(2) by (auto simp: bit_field [OF assms(1)] bit_set_field [OF assms(1)])
qed

lemma set_field_set_field: "S \<le> E \<Longrightarrow> set_field S E v (set_field S E u x) = set_field S E v x" for x :: "'w::len word"
  by (rule bit_word_eqI) (simp add: bit_set_field)

lemma fits_field_simps: "S \<le> E \<Longrightarrow> fits_field S E 0" "S \<le> E \<Longrightarrow> fits_field S E a \<Longrightarrow> fits_field S E (field S E x AND a)"
  by (auto simp: fits_field_bits bit_and_iff)

section \<open>The operations of each width\<close>

lemma BitField8_eqs:
  "BitFieldRead8 x8 S E = (if S \<le> E \<and> E < 8 then Some (field S E x8) else None)"
  "BitFieldOr8 x8 S E v8 = (if S \<le> E \<and> E < 8 \<and> fits_field S E v8 then Some (set_field S E (field S E x8 OR v8) x8) else None)"
  "BitFieldAnd8 x8 S E a8 = (if S \<le> E \<and> E < 8 \<and> fits_field S E a8 then Some (set_field S E (field S E x8 AND a8) x8) else None)"
  "BitFieldAndThenOr8 x8 S E a8 v8
       = (if S \<le> E \<and> E < 8 \<and> fits_field S E a8 \<and> fits_field S E v8 then Some (set_field S E (field S E x8 AND a8 OR v8) x8) else None)"
  "BitFieldWrite8 x8 S E v8 = (if S \<le> E \<and> E < 8 \<and> fits_field S E v8 then Some (set_field S E v8 x8) else None)"
proof -
  show r: "BitFieldRead8 x8 S E = (if S \<le> E \<and> E < 8 then Some (field S E x8) else None)"
    by (auto simp: BitFieldRead8_def ASSERT_def field_workers field_ucast)
  show o: "BitFieldOr8 x8 S E v8 = (if S \<le> E \<and> E < 8 \<and> fits_field S E v8 then Some (set_field S E (field S E x8 OR v8) x8) else None)" for x8
    by (auto simp: BitFieldOr8_def ASSERT_def field_workers fits_field_ucast set_field_ucast)
  show a: "BitFieldAnd8 x8 S E a8 = (if S \<le> E \<and> E < 8 \<and> fits_field S E a8 then Some (set_field S E (field S E x8 AND a8) x8) else None)" for a8
    by (auto simp: BitFieldAnd8_def ASSERT_def field_workers fits_field_ucast set_field_ucast)
  show ao: "BitFieldAndThenOr8 x8 S E a8 v8
       = (if S \<le> E \<and> E < 8 \<and> fits_field S E a8 \<and> fits_field S E v8 then Some (set_field S E (field S E x8 AND a8 OR v8) x8) else None)" for a8
    by (auto simp: BitFieldAndThenOr8_def ASSERT_def o a field_set_field fits_field_simps set_field_set_field)
  show "BitFieldWrite8 x8 S E v8 = (if S \<le> E \<and> E < 8 \<and> fits_field S E v8 then Some (set_field S E v8 x8) else None)"
    by (auto simp: BitFieldWrite8_def ASSERT_def ao fits_field_simps)
qed

lemma BitField16_eqs:
  "BitFieldRead16 x16 S E = (if S \<le> E \<and> E < 16 then Some (field S E x16) else None)"
  "BitFieldOr16 x16 S E v16 = (if S \<le> E \<and> E < 16 \<and> fits_field S E v16 then Some (set_field S E (field S E x16 OR v16) x16) else None)"
  "BitFieldAnd16 x16 S E a16 = (if S \<le> E \<and> E < 16 \<and> fits_field S E a16 then Some (set_field S E (field S E x16 AND a16) x16) else None)"
  "BitFieldAndThenOr16 x16 S E a16 v16
       = (if S \<le> E \<and> E < 16 \<and> fits_field S E a16 \<and> fits_field S E v16 then Some (set_field S E (field S E x16 AND a16 OR v16) x16) else None)"
  "BitFieldWrite16 x16 S E v16 = (if S \<le> E \<and> E < 16 \<and> fits_field S E v16 then Some (set_field S E v16 x16) else None)"
proof -
  show r: "BitFieldRead16 x16 S E = (if S \<le> E \<and> E < 16 then Some (field S E x16) else None)"
    by (auto simp: BitFieldRead16_def ASSERT_def field_workers field_ucast)
  show o: "BitFieldOr16 x16 S E v16 = (if S \<le> E \<and> E < 16 \<and> fits_field S E v16 then Some (set_field S E (field S E x16 OR v16) x16) else None)" for x16
    by (auto simp: BitFieldOr16_def ASSERT_def field_workers fits_field_ucast set_field_ucast)
  show a: "BitFieldAnd16 x16 S E a16 = (if S \<le> E \<and> E < 16 \<and> fits_field S E a16 then Some (set_field S E (field S E x16 AND a16) x16) else None)" for a16
    by (auto simp: BitFieldAnd16_def ASSERT_def field_workers fits_field_ucast set_field_ucast)
  show ao: "BitFieldAndThenOr16 x16 S E a16 v16
       = (if S \<le> E \<and> E < 16 \<and> fits_field S E a16 \<and> fits_field S E v16 then Some (set_field S E (field S E x16 AND a16 OR v16) x16) else None)" for a16
    by (auto simp: BitFieldAndThenOr16_def ASSERT_def o a field_set_field fits_field_simps set_field_set_field)
  show "BitFieldWrite16 x16 S E v16 = (if S \<le> E \<and> E < 16 \<and> fits_field S E v16 then Some (set_field S E v16 x16) else None)"
    by (auto simp: BitFieldWrite16_def ASSERT_def ao fits_field_simps)
qed

lemma BitField32_eqs:
  "BitFieldRead32 x32 S E = (if S \<le> E \<and> E < 32 then Some (field S E x32) else None)"
  "BitFieldOr32 x32 S E v32 = (if S \<le> E \<and> E < 32 \<and> fits_field S E v32 then Some (set_field S E (field S E x32 OR v32) x32) else None)"
  "BitFieldAnd32 x32 S E a32 = (if S \<le> E \<and> E < 32 \<and> fits_field S E a32 then Some (set_field S E (field S E x32 AND a32) x32) else None)"
  "BitFieldAndThenOr32 x32 S E a32 v32
       = (if S \<le> E \<and> E < 32 \<and> fits_field S E a32 \<and> fits_field S E v32 then Some (set_field S E (field S E x32 AND a32 OR v32) x32) else None)"
  "BitFieldWrite32 x32 S E v32 = (if S \<le> E \<and> E < 32 \<and> fits_field S E v32 then Some (set_field S E v32 x32) else None)"
proof -
  show r: "BitFieldRead32 x32 S E = (if S \<le> E \<and> E < 32 then Some (field S E x32) else None)"
    by (auto simp: BitFieldRead32_def ASSERT_def field_workers field_ucast)
  show o: "BitFieldOr32 x32 S E v32 = (if S \<le> E \<and> E < 32 \<and> fits_field S E v32 then Some (set_field S E (field S E x32 OR v32) x32) else None)" for x32
    by (auto simp: BitFieldOr32_def ASSERT_def field_workers fits_field_ucast set_field_ucast)
  show a: "BitFieldAnd32 x32 S E a32 = (if S \<le> E \<and> E < 32 \<and> fits_field S E a32 then Some (set_field S E (field S E x32 AND a32) x32) else None)" for a32
    by (auto simp: BitFieldAnd32_def ASSERT_def field_workers fits_field_ucast set_field_ucast)
  show ao: "BitFieldAndThenOr32 x32 S E a32 v32
       = (if S \<le> E \<and> E < 32 \<and> fits_field S E a32 \<and> fits_field S E v32 then Some (set_field S E (field S E x32 AND a32 OR v32) x32) else None)" for a32
    by (auto simp: BitFieldAndThenOr32_def ASSERT_def o a field_set_field fits_field_simps set_field_set_field)
  show "BitFieldWrite32 x32 S E v32 = (if S \<le> E \<and> E < 32 \<and> fits_field S E v32 then Some (set_field S E v32 x32) else None)"
    by (auto simp: BitFieldWrite32_def ASSERT_def ao fits_field_simps)
qed

lemma BitField64_eqs:
  "BitFieldRead64 x64 S E = (if S \<le> E \<and> E < 64 then Some (field S E x64) else None)"
  "BitFieldOr64 x64 S E v64 = (if S \<le> E \<and> E < 64 \<and> fits_field S E v64 then Some (set_field S E (field S E x64 OR v64) x64) else None)"
  "BitFieldAnd64 x64 S E a64 = (if S \<le> E \<and> E < 64 \<and> fits_field S E a64 then Some (set_field S E (field S E x64 AND a64) x64) else None)"
  "BitFieldAndThenOr64 x64 S E a64 v64
       = (if S \<le> E \<and> E < 64 \<and> fits_field S E a64 \<and> fits_field S E v64 then Some (set_field S E (field S E x64 AND a64 OR v64) x64) else None)"
  "BitFieldWrite64 x64 S E v64 = (if S \<le> E \<and> E < 64 \<and> fits_field S E v64 then Some (set_field S E v64 x64) else None)"
proof -
  show r: "BitFieldRead64 x64 S E = (if S \<le> E \<and> E < 64 then Some (field S E x64) else None)"
    using read_bits [of S E x64]
    by (auto simp: BitFieldRead64_def LShiftU64_def RShiftU64_def InternalMathLShiftU64_def InternalMathRShiftU64_def c_shl_def c_shr_def
        ASSERT_def)
  show o: "BitFieldOr64 x64 S E v64 = (if S \<le> E \<and> E < 64 \<and> fits_field S E v64 then Some (set_field S E (field S E x64 OR v64) x64) else None)" for x64
    using or_bits [of S E v64 x64] top_bits [of "E - S" v64] fits_field_bits [of S E v64]
    by (auto simp: BitFieldOr64_def LShiftU64_def RShiftU64_def InternalMathLShiftU64_def InternalMathRShiftU64_def c_shl_def c_shr_def
        ASSERT_def UintnSub_def)
  show a: "BitFieldAnd64 x64 S E a64 = (if S \<le> E \<and> E < 64 \<and> fits_field S E a64 then Some (set_field S E (field S E x64 AND a64) x64) else None)" for a64
    using and_bits [of S E a64 x64] top_bits [of "E - S" a64] fits_field_bits [of S E a64]
    by (auto simp: BitFieldAnd64_def LShiftU64_def RShiftU64_def InternalMathLShiftU64_def InternalMathRShiftU64_def c_shl_def c_shr_def
        ASSERT_def UintnSub_def)
  show ao: "BitFieldAndThenOr64 x64 S E a64 v64
       = (if S \<le> E \<and> E < 64 \<and> fits_field S E a64 \<and> fits_field S E v64 then Some (set_field S E (field S E x64 AND a64 OR v64) x64) else None)" for a64
    by (auto simp: BitFieldAndThenOr64_def ASSERT_def o a field_set_field fits_field_simps set_field_set_field)
  show "BitFieldWrite64 x64 S E v64 = (if S \<le> E \<and> E < 64 \<and> fits_field S E v64 then Some (set_field S E v64 x64) else None)"
    by (auto simp: BitFieldWrite64_def ASSERT_def ao fits_field_simps)
qed

end
