(* ===== verification/Bit_Count.thy ===== *)
theory Bit_Count
  imports Bit_Field
begin

unbundle bit_operations_syntax

text \<open>
  The population count of \<open>BitFieldCountOnes32\<close>, which adds up neighbouring bits in parallel, against the number of set bits,
  and the properties of the bit-field functions.
\<close>

section \<open>A word as four bytes\<close>

definition cat4 :: "UINT8 \<Rightarrow> UINT8 \<Rightarrow> UINT8 \<Rightarrow> UINT8 \<Rightarrow> UINT32" where
  "cat4 a b c d = ucast a OR push_bit 8 (ucast b) OR push_bit 16 (ucast c) OR push_bit 24 (ucast d)"

lemma bit_cat4:
  "bit (cat4 a b c d) n \<longleftrightarrow>
     (if n < 8 then bit a n else if n < 16 then bit b (n - 8) else if n < 24 then bit c (n - 16) else n < 32 \<and> bit d (n - 24))"
  by (auto simp: cat4_def bit_simps dest: bit_imp_le_length)

lemma cat4_bytes: "cat4 (ucast x) (ucast (drop_bit 8 x)) (ucast (drop_bit 16 x)) (ucast (drop_bit 24 x)) = x" for x :: UINT32
  by (rule bit_word_eqI) (auto simp: bit_cat4 bit_simps)

lemma cat4_add_form: "cat4 a b c d = ucast a + push_bit 8 (ucast b) + push_bit 16 (ucast c) + push_bit 24 (ucast d)"
proof -
  have "ucast a AND push_bit 8 (ucast b :: UINT32) = 0" "(ucast a OR push_bit 8 (ucast b)) AND push_bit 16 (ucast c :: UINT32) = 0"
    "((ucast a OR push_bit 8 (ucast b)) OR push_bit 16 (ucast c)) AND push_bit 24 (ucast d :: UINT32) = 0"
    by (auto simp: word_bits_iff bit_simps dest: bit_imp_le_length)
  then show ?thesis by (simp add: disjunctive_add_eq_or) (simp add: cat4_def or.assoc)
qed

lemma ucast_add_byte: "unat a + unat b < 256 \<Longrightarrow> (ucast (a + b) :: UINT32) = ucast a + ucast b" for a b :: UINT8
proof -
  assume a: "unat a + unat b < 256"
  then have "unat (a + b) = unat a + unat b" by (subst unat_add_lem [THEN iffD1]) simp_all
  then have "(word_of_nat (unat (a + b)) :: UINT32) = word_of_nat (unat a) + word_of_nat (unat b)" by (metis of_nat_add)
  then show ?thesis by simp
qed

lemma cat4_add:
  assumes "unat a + unat a' < 256" and "unat b + unat b' < 256" and "unat c + unat c' < 256" and "unat d + unat d' < 256"
  shows "cat4 a b c d + cat4 a' b' c' d' = cat4 (a + a') (b + b') (c + c') (d + d')"
  using assms by (simp add: cat4_add_form ucast_add_byte push_bit_add)

lemma cat4_diff:
  assumes "a' \<le> a" and "b' \<le> b" and "c' \<le> c" and "d' \<le> d"
  shows "cat4 a b c d - cat4 a' b' c' d' = cat4 (a - a') (b - b') (c - c') (d - d')"
proof -
  have "unat (x - y) + unat y < 256" if "y \<le> x" for x y :: UINT8
    using that order_less_le_trans [OF unsigned_less [of x, where 'a = nat], of 256] by (simp add: unat_sub word_le_nat_alt)
  then have "cat4 (a - a') (b - b') (c - c') (d - d') + cat4 a' b' c' d' = cat4 a b c d"
    using assms by (subst cat4_add) simp_all
  then show ?thesis by (metis add_diff_cancel_right')
qed

lemma cat4_and: "cat4 a b c d AND cat4 a' b' c' d' = cat4 (a AND a') (b AND b') (c AND c') (d AND d')"
  by (rule bit_word_eqI) (auto simp: bit_cat4 bit_and_iff)

lemma cat4_drop_and:
  assumes "take_bit (8 - k) m = m" and "k \<le> 8"
  shows "drop_bit k (cat4 a b c d) AND cat4 m m m m = cat4 (drop_bit k a AND m) (drop_bit k b AND m) (drop_bit k c AND m) (drop_bit k d AND m)"
proof -
  have m: "bit m n \<Longrightarrow> n + k < 8" for n using assms by (metis bit_take_bit_iff less_diff_conv)
  show ?thesis
  proof (rule bit_word_eqI)
    fix n assume "n < LENGTH(32)"
    then show "bit (drop_bit k (cat4 a b c d) AND cat4 m m m m) n
      = bit (cat4 (drop_bit k a AND m) (drop_bit k b AND m) (drop_bit k c AND m) (drop_bit k d AND m)) n"
      using m [of n] m [of "n - 8"] m [of "n - 16"] m [of "n - 24"] by (auto simp: bit_cat4 bit_and_iff bit_drop_bit_eq)
  qed
qed

lemma cat4_drop:
  "drop_bit 4 (cat4 a b c d) = cat4 (drop_bit 4 a OR push_bit 4 b) (drop_bit 4 b OR push_bit 4 c) (drop_bit 4 c OR push_bit 4 d) (drop_bit 4 d)"
  "drop_bit 8 (cat4 a b c d) = cat4 b c d 0" "drop_bit 16 (cat4 a b c d) = cat4 c d 0 0" "ucast (cat4 a b c d) = a"
  by (rule bit_word_eqI, auto simp: bit_cat4 bit_simps dest: bit_imp_le_length)+

section \<open>One byte\<close>

text \<open>The first three steps on a byte on its own; all bytes are checked by evaluation.\<close>

definition sum1 :: "UINT8 \<Rightarrow> UINT8" where
  "sum1 b = b - (drop_bit 1 b AND 0x55)"

definition sum2 :: "UINT8 \<Rightarrow> UINT8" where
  "sum2 b = (b AND 0x33) + (drop_bit 2 b AND 0x33)"

definition sum4 :: "UINT8 \<Rightarrow> UINT8" where
  "sum4 b = (b + drop_bit 4 b) AND 0x0F"

definition pop8 :: "UINT8 \<Rightarrow> UINT8" where
  "pop8 b = (b AND 1) + (drop_bit 1 b AND 1) + (drop_bit 2 b AND 1) + (drop_bit 3 b AND 1)
     + (drop_bit 4 b AND 1) + (drop_bit 5 b AND 1) + (drop_bit 6 b AND 1) + (drop_bit 7 b AND 1)"

definition byte_ok :: "UINT8 \<Rightarrow> bool" where
  "byte_ok b \<longleftrightarrow> drop_bit 1 b AND 0x55 \<le> b \<and> sum2 (sum1 b) AND 0x88 = 0 \<and> sum4 (sum2 (sum1 b)) = pop8 b"

fun bytes_ok :: "nat \<Rightarrow> UINT8 \<Rightarrow> bool" where
  "bytes_ok 0 b \<longleftrightarrow> True"
| "bytes_ok (Suc n) b \<longleftrightarrow> byte_ok b \<and> bytes_ok n (b + 1)"

lemma all_bytes_ok: "bytes_ok 256 0"
  by code_simp

lemma bytes_ok_nth: "bytes_ok n b \<Longrightarrow> k < n \<Longrightarrow> byte_ok (b + word_of_nat k)"
proof (induction n arbitrary: b k)
  case (Suc n)
  show ?case
  proof (cases k)
    case (Suc j)
    then show ?thesis using Suc.IH [of "b + 1" j] Suc.prems by (simp add: add.assoc)
  qed (use Suc.prems in simp)
qed simp

lemma byte_ok: "byte_ok b"
proof -
  have "unat b < 256" by (rule order_less_le_trans [OF unsigned_less]) simp
  from bytes_ok_nth [OF all_bytes_ok this] show ?thesis by simp
qed

section \<open>Counting\<close>

definition ones :: "'w::len word \<Rightarrow> nat" where
  "ones x = card {n. bit x n}"

lemma ones_filter: "ones x = length (filter (bit x) [0..<LENGTH('w)])" for x :: "'w::len word"
proof -
  have "{n. bit x n} = set (filter (bit x) [0..<LENGTH('w)])" by (auto dest: bit_imp_le_length)
  then have "ones x = card (set (filter (bit x) [0..<LENGTH('w)]))" by (simp only: ones_def)
  also have "\<dots> = length (filter (bit x) [0..<LENGTH('w)])" by (rule distinct_card) simp
  finally show ?thesis .
qed

lemma ones_le: "ones x \<le> LENGTH('w)" for x :: "'w::len word"
  unfolding ones_filter by (metis diff_zero length_filter_le length_upt)

lemma pop8_ones: "unat (pop8 b) = ones b"
proof -
  have one: "drop_bit k b AND 1 = of_bool (bit b k)" for k by (simp add: and_one_eq bit_iff_odd_drop_bit odd_iff_mod_2_eq_one of_bool_odd_eq_mod_2)
  have cons: "(word_of_nat (length (filter (bit b) (x # xs))) :: UINT8) = of_bool (bit b x) + word_of_nat (length (filter (bit b) xs))" for x xs
    by simp
  have "[0..<LENGTH(8)] = [0, 1, 2, 3, 4, 5, 6, 7]" by (simp add: upt_conv_Cons)
  then have p: "pop8 b = word_of_nat (ones b)"
    unfolding ones_filter pop8_def using one [of 0]
    by (simp only: cons one) (simp add: add.assoc bit_0 and_one_eq odd_iff_mod_2_eq_one even_iff_mod_2_eq_zero)
  have "ones b < 256" using ones_le [of b] by simp
  then show ?thesis by (simp add: p unsigned_of_nat take_bit_nat_eq_self)
qed

lemma ones_cat4: "ones (cat4 a b c d) = ones a + ones b + ones c + ones d"
proof -
  let ?x = "cat4 a b c d"
  have e1: "[0..<32] = [0..<8] @ [8..<16] @ [16..<24] @ [24..<(32 :: nat)]" 
    using upt_add_eq_append [of 0 8 24] upt_add_eq_append [of 8 16 16] upt_add_eq_append [of 16 24 8] by simp
  have e2: "[8..<16] = map (\<lambda>i. i + 8) [0..<(8 :: nat)]" "[16..<24] = map (\<lambda>i. i + 16) [0..<(8 :: nat)]"
    "[24..<32] = map (\<lambda>i. i + 24) [0..<(8 :: nat)]" by (simp_all add: map_add_upt)
  have e3: "filter (bit ?x) [0..<8] = filter (bit a) [0..<8]" "filter (\<lambda>i. bit ?x (i + 8)) [0..<8] = filter (bit b) [0..<8]"
    "filter (\<lambda>i. bit ?x (i + 16)) [0..<8] = filter (bit c) [0..<8]" "filter (\<lambda>i. bit ?x (i + 24)) [0..<8] = filter (bit d) [0..<8]"
    by (rule filter_cong [OF refl], simp add: bit_cat4)+
  have "ones ?x = length (filter (bit ?x) [0..<32])" "ones y = length (filter (bit y) [0..<8])" for y :: UINT8
    by (simp_all add: ones_filter)
  then show ?thesis by (simp only: e1 e2 e3 filter_append length_append filter_map length_map comp_def add.assoc)
qed

text \<open>The parallel additions of \<open>BitFieldCountOnes32\<close>.\<close>

definition count32 :: "UINT32 \<Rightarrow> UINT8" where
  "count32 x = (let c = x - (drop_bit 1 x AND 0x55555555);
     c = (c AND 0x33333333) + (drop_bit 2 c AND 0x33333333);
     c = c + drop_bit 4 c;
     c = c AND 0x0F0F0F0F;
     c = c + drop_bit 8 c;
     c = c + drop_bit 16 c
   in ucast c AND 0x3F)"

lemma byte_okD:
  "drop_bit 1 b AND 0x55 \<le> b" "\<not> bit (sum2 (sum1 b)) 3" "\<not> bit (sum2 (sum1 b)) 7" "sum4 (sum2 (sum1 b)) = pop8 b"
proof -
  have k: "sum2 (sum1 b) AND 0x88 = 0" "drop_bit 1 b AND 0x55 \<le> b" "sum4 (sum2 (sum1 b)) = pop8 b"
    using byte_ok [of b] by (simp_all add: byte_ok_def)
  then show "drop_bit 1 b AND 0x55 \<le> b" "sum4 (sum2 (sum1 b)) = pop8 b" by simp_all
  have "bit (0x88 :: UINT8) 3" "bit (0x88 :: UINT8) 7" by simp_all
  then show "\<not> bit (sum2 (sum1 b)) 3" "\<not> bit (sum2 (sum1 b)) 7" using k(1) by (metis bit_0_eq bit_and_iff bot_apply bot_bool_def)+
qed

lemma byte_less_128: "\<not> bit b 7 \<Longrightarrow> unat b < 128" for b :: UINT8
proof -
  assume "\<not> bit b 7"
  then have "take_bit 7 b = b" by (intro bit_word_eqI) (auto simp: bit_take_bit_iff less_Suc_eq numeral_eq_Suc)
  then have "unat b = take_bit 7 (unat b)" by (metis unsigned_take_bit_eq)
  moreover have "take_bit 7 (unat b) < 2 ^ 7" by (rule take_bit_nat_less_exp)
  ultimately show ?thesis by simp
qed

lemma masks: "0x55555555 = cat4 0x55 0x55 0x55 0x55" "0x33333333 = cat4 0x33 0x33 0x33 0x33" "0x0F0F0F0F = cat4 0x0F 0x0F 0x0F 0x0F"
  by (simp_all add: cat4_def)

lemma sum1_cat4:
  "cat4 a b c d - (drop_bit 1 (cat4 a b c d) AND 0x55555555) = cat4 (sum1 a) (sum1 b) (sum1 c) (sum1 d)"
  unfolding masks by (subst cat4_drop_and) (simp_all add: cat4_diff byte_okD(1) [unfolded One_nat_def] sum1_def)

lemma sum2_cat4:
  "(cat4 a b c d AND 0x33333333) + (drop_bit 2 (cat4 a b c d) AND 0x33333333) = cat4 (sum2 a) (sum2 b) (sum2 c) (sum2 d)"
proof -
  have le: "unat (x AND 0x33) \<le> 51" for x :: UINT8 using word_and_le1 [of x "0x33"] by (simp add: word_le_nat_alt)
  then have "unat (x AND 0x33) + unat (y AND 0x33) < 256" for x y :: UINT8
    using le [of x] le [of y] by linarith
  then show ?thesis unfolding masks by (subst cat4_drop_and) (simp_all add: cat4_and cat4_add sum2_def)
qed

lemma take_bit_add_word: "take_bit n (take_bit n x + take_bit n y) = take_bit n (x + y)" for x y :: "'w::len word"
  by transfer (simp only: take_bit_add)

lemma sum4_cat4:
  assumes "\<not> bit a 7" "\<not> bit b 7" "\<not> bit c 7" "\<not> bit d 7" "\<not> bit b 3" "\<not> bit c 3" "\<not> bit d 3"
  shows "(cat4 a b c d + drop_bit 4 (cat4 a b c d)) AND 0x0F0F0F0F = cat4 (sum4 a) (sum4 b) (sum4 c) (sum4 d)"
proof -
  have n: "unat (drop_bit 4 x OR push_bit 4 y) < 128" if "\<not> bit y 3" for x y :: UINT8
    by (rule byte_less_128) (use that in \<open>auto simp: bit_simps dest: bit_imp_le_length\<close>)
  have m: "(x + (drop_bit 4 x OR push_bit 4 y)) AND 0x0F = sum4 x" for x y :: UINT8
  proof -
    have "(0x0F :: UINT8) = mask 4" by (simp add: mask_eq_exp_minus_1)
    moreover have "take_bit 4 (drop_bit 4 x OR push_bit 4 y) = take_bit 4 (drop_bit 4 x)"
      by (rule bit_word_eqI) (auto simp: bit_simps)
    then have "take_bit 4 (take_bit 4 x + take_bit 4 (drop_bit 4 x OR push_bit 4 y)) = take_bit 4 (take_bit 4 x + take_bit 4 (drop_bit 4 x))"
      by (simp only:)
    then have "take_bit 4 (x + (drop_bit 4 x OR push_bit 4 y)) = take_bit 4 (x + drop_bit 4 x)" by (simp only: take_bit_add_word)
    ultimately show ?thesis by (simp only: sum4_def flip: take_bit_eq_mask)
  qed
  have "unat (drop_bit 4 d) < 128" by (rule byte_less_128) (auto simp: bit_simps dest: bit_imp_le_length)
  moreover note n [OF assms(5), of a] n [OF assms(6), of b] n [OF assms(7), of c]
    byte_less_128 [OF assms(1)] byte_less_128 [OF assms(2)] byte_less_128 [OF assms(3)] byte_less_128 [OF assms(4)]
  ultimately have "cat4 a b c d + drop_bit 4 (cat4 a b c d) = cat4 (a + (drop_bit 4 a OR push_bit 4 b))
      (b + (drop_bit 4 b OR push_bit 4 c)) (c + (drop_bit 4 c OR push_bit 4 d)) (d + drop_bit 4 d)"
    unfolding cat4_drop(1) by (intro cat4_add) linarith+
  then show ?thesis by (simp only: masks cat4_and m sum4_def)
qed

lemma and_0x3F: "unat b < 64 \<Longrightarrow> b AND 0x3F = b" for b :: UINT8
proof -
  assume "unat b < 64"
  then have "take_bit 6 (unat b) = unat b" by (simp add: take_bit_nat_eq_self)
  then have "take_bit 6 b = b" by (metis unsigned_take_bit_eq unsigned_word_eqI)
  moreover have "(0x3F :: UINT8) = mask 6" by (simp add: mask_eq_exp_minus_1)
  ultimately show ?thesis by (simp only: flip: take_bit_eq_mask)
qed

lemma unat_add_byte: "unat a + unat b < 256 \<Longrightarrow> unat (a + b) = unat a + unat b" for a b :: UINT8
  by (subst unat_add_lem [THEN iffD1]) simp_all

lemma sum8_cat4:
  assumes "unat a \<le> 8" "unat b \<le> 8" "unat c \<le> 8" "unat d \<le> 8"
  shows "let x = cat4 a b c d + drop_bit 8 (cat4 a b c d) in unat (ucast (x + drop_bit 16 x) :: UINT8) = unat a + unat b + (unat c + unat d)"
proof -
  have x: "cat4 a b c d + drop_bit 8 (cat4 a b c d) = cat4 (a + b) (b + c) (c + d) d"
    unfolding cat4_drop(2) using assms by (subst cat4_add) simp_all
  have s: "unat (a + b) = unat a + unat b" "unat (b + c) = unat b + unat c" "unat (c + d) = unat c + unat d"
    using assms by (auto intro!: unat_add_byte)
  then have "cat4 (a + b) (b + c) (c + d) d + cat4 (c + d) d 0 0 = cat4 (a + b + (c + d)) (b + c + d) (c + d) d"
    using assms by (subst cat4_add) simp_all
  moreover have "unat (a + b + (c + d)) = unat (a + b) + unat (c + d)" using assms s by (intro unat_add_byte) simp
  ultimately show ?thesis by (simp only: x [unfolded cat4_drop] Let_def cat4_drop s)
qed

lemma count32_ones: "unat (count32 x) = ones x"
proof -
  obtain a b c d where x: "x = cat4 a b c d" using cat4_bytes [of x] by metis
  have p: "unat (pop8 y) \<le> 8" for y using ones_le [of y] by (simp add: pop8_ones)
  let ?p = "cat4 (pop8 a) (pop8 b) (pop8 c) (pop8 d)"
  let ?s = "?p + drop_bit 8 ?p"
  have "count32 x = ucast (?s + drop_bit 16 ?s) AND 0x3F"
    unfolding count32_def Let_def x sum1_cat4 sum2_cat4
    by (subst (1 2 3 4) sum4_cat4) (simp_all only: byte_okD not_False_eq_True)
  moreover have u: "unat (ucast (?s + drop_bit 16 ?s) :: UINT8) = ones x"
    using sum8_cat4 [OF p p p p, of a b c d] by (simp only: Let_def pop8_ones x ones_cat4 add.assoc)
  moreover have "ones x < 64" using ones_le [of x] by simp
  ultimately show ?thesis by (simp add: and_0x3F)
qed

section \<open>The contract of the operations, for every width\<close>

text \<open>
  What the five operations of one width promise, over the bits of the operand.
  \<open>field_update f S E x y\<close>: \<open>y\<close> is \<open>x\<close> with every bit of the field passed through \<open>f\<close>, which also gets its position in the field.
\<close>

definition field_update :: "(nat \<Rightarrow> bool \<Rightarrow> bool) \<Rightarrow> nat \<Rightarrow> nat \<Rightarrow> 'w::len word \<Rightarrow> 'w word \<Rightarrow> bool" where
  "field_update f S E x y \<longleftrightarrow> (\<forall>n. bit y n = (if S \<le> n \<and> n \<le> E then f (n - S) (bit x n) else bit x n))"

lemma field_update_set_field:
  fixes x y v :: "'w::len word"
  assumes "S \<le> E" and "E < LENGTH('w)" and "\<And>n. S + n \<le> E \<Longrightarrow> bit v n = f n (bit x (S + n))"
  shows "field_update f S E x y \<longleftrightarrow> y = set_field S E v x"
proof -
  have "bit (set_field S E v x) n = (if S \<le> n \<and> n \<le> E then f (n - S) (bit x n) else bit x n)" for n
    using assms(2) assms(3) [of "n - S"] by (auto simp: bit_set_field [OF assms(1)])
  then show ?thesis by (simp add: field_update_def word_bits_iff)
qed

locale field_ops =
  fixes Read :: "'w::len word \<Rightarrow> nat \<Rightarrow> nat \<Rightarrow> 'w word option"
    and Or And Write :: "'w word \<Rightarrow> nat \<Rightarrow> nat \<Rightarrow> 'w word \<Rightarrow> 'w word option"
    and AndThenOr :: "'w word \<Rightarrow> nat \<Rightarrow> nat \<Rightarrow> 'w word \<Rightarrow> 'w word \<Rightarrow> 'w word option"
  assumes Read: "Read x S E = (if S \<le> E \<and> E < LENGTH('w) then Some (field S E x) else None)"
    and Or: "Or x S E v = (if S \<le> E \<and> E < LENGTH('w) \<and> fits_field S E v then Some (set_field S E (field S E x OR v) x) else None)"
    and And: "And x S E a = (if S \<le> E \<and> E < LENGTH('w) \<and> fits_field S E a then Some (set_field S E (field S E x AND a) x) else None)"
    and AndThenOr: "AndThenOr x S E a v
       = (if S \<le> E \<and> E < LENGTH('w) \<and> fits_field S E a \<and> fits_field S E v then Some (set_field S E (field S E x AND a OR v) x) else None)"
    and Write: "Write x S E v = (if S \<le> E \<and> E < LENGTH('w) \<and> fits_field S E v then Some (set_field S E v x) else None)"
begin

lemma Read_bits: "Read x S E = Some y \<longleftrightarrow> S \<le> E \<and> E < LENGTH('w) \<and> (\<forall>n. bit y n = (S + n \<le> E \<and> bit x (S + n)))"
  by (auto simp: Read word_bits_iff bit_field)

lemma Or_bits: "Or x S E v = Some y \<longleftrightarrow> S \<le> E \<and> E < LENGTH('w) \<and> fits_field S E v \<and> field_update (\<lambda>n b. b \<or> bit v n) S E x y"
  by (auto simp: Or field_update_set_field [of S E "field S E x OR v"] bit_field bit_or_iff)

lemma And_bits: "And x S E a = Some y \<longleftrightarrow> S \<le> E \<and> E < LENGTH('w) \<and> fits_field S E a \<and> field_update (\<lambda>n b. b \<and> bit a n) S E x y"
  by (auto simp: And field_update_set_field [of S E "field S E x AND a"] bit_field bit_and_iff)

lemma AndThenOr_bits:
  "AndThenOr x S E a v = Some y \<longleftrightarrow> S \<le> E \<and> E < LENGTH('w) \<and> fits_field S E a \<and> fits_field S E v
     \<and> field_update (\<lambda>n b. b \<and> bit a n \<or> bit v n) S E x y"
  by (auto simp: AndThenOr field_update_set_field [of S E "field S E x AND a OR v"] bit_field bit_and_iff bit_or_iff)

lemma Write_bits: "Write x S E v = Some y \<longleftrightarrow> S \<le> E \<and> E < LENGTH('w) \<and> fits_field S E v \<and> field_update (\<lambda>n b. bit v n) S E x y"
  by (auto simp: Write field_update_set_field [of S E v])

lemmas bits = Read_bits Or_bits And_bits AndThenOr_bits Write_bits

lemma Write_Read: "Write x S E v = Some y \<Longrightarrow> Read y S E = Some v"
  by (auto simp: Write Read field_set_field split: if_splits)

lemma Write_own: "Read x S E = Some v \<Longrightarrow> Write x S E v = Some x"
proof -
  assume r: "Read x S E = Some v"
  then have "fits_field S E v" by (auto simp: Read fits_field_bits bit_field split: if_splits)
  then show "Write x S E v = Some x" using r by (auto simp: Write_bits Read_bits field_update_def)
qed

lemmas round_trip = Write_Read Write_own

end

interpretation f8: field_ops BitFieldRead8 BitFieldOr8 BitFieldAnd8 BitFieldWrite8 BitFieldAndThenOr8
  by unfold_locales (simp_all add: BitField8_eqs)

interpretation f16: field_ops BitFieldRead16 BitFieldOr16 BitFieldAnd16 BitFieldWrite16 BitFieldAndThenOr16
  by unfold_locales (simp_all add: BitField16_eqs)

interpretation f32: field_ops BitFieldRead32 BitFieldOr32 BitFieldAnd32 BitFieldWrite32 BitFieldAndThenOr32
  by unfold_locales (simp_all add: BitField32_eqs)

interpretation f64: field_ops BitFieldRead64 BitFieldOr64 BitFieldAnd64 BitFieldWrite64 BitFieldAndThenOr64
  by unfold_locales (simp_all add: BitField64_eqs)

text \<open>
  C27. What the bit-field functions of every width compute, bit by bit.  They return exactly when the field lies in the operand and
  every value to store fits into the field, and fail their ASSERT otherwise.  The read returns the bits of the field, shifted down;
  the others change every bit of the field by the or, the and, the and followed by the or, or the store their name says, and no
  bit outside it.
\<close>

theorem BitField_operations:
  "(BitFieldRead8 x8 S E = Some y8 \<longleftrightarrow> S \<le> E \<and> E < 8 \<and> (\<forall>n. bit y8 n = (S + n \<le> E \<and> bit x8 (S + n))))
    \<and> (BitFieldOr8 x8 S E v8 = Some y8 \<longleftrightarrow> S \<le> E \<and> E < 8 \<and> fits_field S E v8 \<and> field_update (\<lambda>n b. b \<or> bit v8 n) S E x8 y8)
    \<and> (BitFieldAnd8 x8 S E a8 = Some y8 \<longleftrightarrow> S \<le> E \<and> E < 8 \<and> fits_field S E a8 \<and> field_update (\<lambda>n b. b \<and> bit a8 n) S E x8 y8)
    \<and> (BitFieldAndThenOr8 x8 S E a8 v8 = Some y8 \<longleftrightarrow> S \<le> E \<and> E < 8 \<and> fits_field S E a8 \<and> fits_field S E v8
         \<and> field_update (\<lambda>n b. b \<and> bit a8 n \<or> bit v8 n) S E x8 y8)
    \<and> (BitFieldWrite8 x8 S E v8 = Some y8 \<longleftrightarrow> S \<le> E \<and> E < 8 \<and> fits_field S E v8 \<and> field_update (\<lambda>n b. bit v8 n) S E x8 y8)
    \<and> (BitFieldRead16 x16 S E = Some y16 \<longleftrightarrow> S \<le> E \<and> E < 16 \<and> (\<forall>n. bit y16 n = (S + n \<le> E \<and> bit x16 (S + n))))
    \<and> (BitFieldOr16 x16 S E v16 = Some y16 \<longleftrightarrow> S \<le> E \<and> E < 16 \<and> fits_field S E v16 \<and> field_update (\<lambda>n b. b \<or> bit v16 n) S E x16 y16)
    \<and> (BitFieldAnd16 x16 S E a16 = Some y16 \<longleftrightarrow> S \<le> E \<and> E < 16 \<and> fits_field S E a16 \<and> field_update (\<lambda>n b. b \<and> bit a16 n) S E x16 y16)
    \<and> (BitFieldAndThenOr16 x16 S E a16 v16 = Some y16 \<longleftrightarrow> S \<le> E \<and> E < 16 \<and> fits_field S E a16 \<and> fits_field S E v16
         \<and> field_update (\<lambda>n b. b \<and> bit a16 n \<or> bit v16 n) S E x16 y16)
    \<and> (BitFieldWrite16 x16 S E v16 = Some y16 \<longleftrightarrow> S \<le> E \<and> E < 16 \<and> fits_field S E v16 \<and> field_update (\<lambda>n b. bit v16 n) S E x16 y16)
    \<and> (BitFieldRead32 x32 S E = Some y32 \<longleftrightarrow> S \<le> E \<and> E < 32 \<and> (\<forall>n. bit y32 n = (S + n \<le> E \<and> bit x32 (S + n))))
    \<and> (BitFieldOr32 x32 S E v32 = Some y32 \<longleftrightarrow> S \<le> E \<and> E < 32 \<and> fits_field S E v32 \<and> field_update (\<lambda>n b. b \<or> bit v32 n) S E x32 y32)
    \<and> (BitFieldAnd32 x32 S E a32 = Some y32 \<longleftrightarrow> S \<le> E \<and> E < 32 \<and> fits_field S E a32 \<and> field_update (\<lambda>n b. b \<and> bit a32 n) S E x32 y32)
    \<and> (BitFieldAndThenOr32 x32 S E a32 v32 = Some y32 \<longleftrightarrow> S \<le> E \<and> E < 32 \<and> fits_field S E a32 \<and> fits_field S E v32
         \<and> field_update (\<lambda>n b. b \<and> bit a32 n \<or> bit v32 n) S E x32 y32)
    \<and> (BitFieldWrite32 x32 S E v32 = Some y32 \<longleftrightarrow> S \<le> E \<and> E < 32 \<and> fits_field S E v32 \<and> field_update (\<lambda>n b. bit v32 n) S E x32 y32)
    \<and> (BitFieldRead64 x64 S E = Some y64 \<longleftrightarrow> S \<le> E \<and> E < 64 \<and> (\<forall>n. bit y64 n = (S + n \<le> E \<and> bit x64 (S + n))))
    \<and> (BitFieldOr64 x64 S E v64 = Some y64 \<longleftrightarrow> S \<le> E \<and> E < 64 \<and> fits_field S E v64 \<and> field_update (\<lambda>n b. b \<or> bit v64 n) S E x64 y64)
    \<and> (BitFieldAnd64 x64 S E a64 = Some y64 \<longleftrightarrow> S \<le> E \<and> E < 64 \<and> fits_field S E a64 \<and> field_update (\<lambda>n b. b \<and> bit a64 n) S E x64 y64)
    \<and> (BitFieldAndThenOr64 x64 S E a64 v64 = Some y64 \<longleftrightarrow> S \<le> E \<and> E < 64 \<and> fits_field S E a64 \<and> fits_field S E v64
         \<and> field_update (\<lambda>n b. b \<and> bit a64 n \<or> bit v64 n) S E x64 y64)
    \<and> (BitFieldWrite64 x64 S E v64 = Some y64 \<longleftrightarrow> S \<le> E \<and> E < 64 \<and> fits_field S E v64 \<and> field_update (\<lambda>n b. bit v64 n) S E x64 y64)"
  by (simp add: f8.bits f16.bits f32.bits f64.bits)

text \<open>
  C36. Round trips of the bit-field functions, for every width: a value written to a field is the value read back from it, and writing
  back what was read leaves the operand as it was.
\<close>

theorem BitField_round_trip:
  "(BitFieldWrite8 x8 S E v8 = Some y8 \<longrightarrow> BitFieldRead8 y8 S E = Some v8) \<and> (BitFieldRead8 x8 S E = Some v8 \<longrightarrow> BitFieldWrite8 x8 S E v8 = Some x8)
    \<and> (BitFieldWrite16 x16 S E v16 = Some y16 \<longrightarrow> BitFieldRead16 y16 S E = Some v16) \<and> (BitFieldRead16 x16 S E = Some v16 \<longrightarrow> BitFieldWrite16 x16 S E v16 = Some x16)
    \<and> (BitFieldWrite32 x32 S E v32 = Some y32 \<longrightarrow> BitFieldRead32 y32 S E = Some v32) \<and> (BitFieldRead32 x32 S E = Some v32 \<longrightarrow> BitFieldWrite32 x32 S E v32 = Some x32)
    \<and> (BitFieldWrite64 x64 S E v64 = Some y64 \<longrightarrow> BitFieldRead64 y64 S E = Some v64) \<and> (BitFieldRead64 x64 S E = Some v64 \<longrightarrow> BitFieldWrite64 x64 S E v64 = Some x64)"
  by (intro conjI impI; erule f8.round_trip f16.round_trip f32.round_trip f64.round_trip)

theorem BitField_round_trip_witness:
  "BitFieldWrite8 0xFF 2 5 9 = Some 0xE7 \<and> BitFieldRead8 0xE7 2 5 = Some 9 \<and> BitFieldRead64 0x1234 4 11 = Some 0x23
    \<and> BitFieldWrite64 0x1234 4 11 0x23 = Some 0x1234"
proof -
  have "BitFieldWrite8 0xFF 2 5 9 = Some 0xE7" "BitFieldRead64 0x1234 4 11 = Some 0x23" by code_simp+
  then show ?thesis
    using BitField_round_trip [where ?x8.0 = "0xFF" and S = 2 and E = 5 and ?v8.0 = 9 and ?y8.0 = "0xE7"]
      BitField_round_trip [where ?x64.0 = "0x1234" and S = 4 and E = 11 and ?v64.0 = "0x23"] by simp
qed

section \<open>The counting functions\<close>

lemma ones_field:
  assumes "S \<le> E"
  shows "ones (field S E x) = card {n. S \<le> n \<and> n \<le> E \<and> bit x n}"
proof -
  have "{n. S \<le> n \<and> n \<le> E \<and> bit x n} = (\<lambda>n. S + n) ` {n. bit (field S E x) n}"
    by (auto simp: bit_field [OF assms] image_iff) (metis le_add_diff_inverse)
  then show ?thesis by (simp add: ones_def card_image)
qed

lemma ones_halves: "ones x = ones (ucast x :: UINT32) + ones (ucast (drop_bit 32 x) :: UINT32)" for x :: UINT64
proof -
  have lo: "filter (bit (ucast x :: UINT32)) [0..<32] = filter (bit x) [0..<32]"
    by (rule filter_cong [OF refl]) (simp add: bit_unsigned_iff)
  have hi: "filter (bit (ucast (drop_bit 32 x) :: UINT32)) [0..<32] = filter (\<lambda>n. bit x (n + 32)) [0..<32]"
    by (rule filter_cong [OF refl]) (simp add: bit_unsigned_iff bit_drop_bit_eq add.commute)
  have "[0..<64] = [0..<32] @ map (\<lambda>i. i + 32) [0..<(32 :: nat)]"
    using upt_add_eq_append [of 0 32 32] by (simp add: map_add_upt)
  then have "length (filter (bit x) [0..<64]) = length (filter (bit x) [0..<32]) + length (filter (\<lambda>n. bit x (n + 32)) [0..<32])"
    by (simp only: filter_append length_append filter_map length_map comp_def)
  then show ?thesis by (simp add: ones_filter lo hi)
qed

lemma BitFieldCountOnes32_eq:
  "BitFieldCountOnes32 x S E = (if S \<le> E \<and> E < 32 then Some (word_of_nat (ones (field S E x))) else None)"
proof -
  have "count32 y = word_of_nat (ones y)" for y by (simp flip: count32_ones)
  moreover have "BitFieldCountOnes32 x S E
      = do { ASSERT (E < 32); ASSERT (S \<le> E); y \<leftarrow> BitFieldRead32 x S E; Some (count32 y) }"
    by (simp only: BitFieldCountOnes32_def count32_def Let_def)
  ultimately show ?thesis by (simp add: BitField32_eqs ASSERT_def)
qed

lemma field_all: "field 0 31 x = x" for x :: UINT32
  by (rule bit_word_eqI) (simp add: bit_field)

lemma BitFieldCountOnes64_eq:
  "BitFieldCountOnes64 x S E = (if S \<le> E \<and> E < 64 then Some (word_of_nat (ones (field S E x))) else None)"
  by (simp add: BitFieldCountOnes64_def BitField64_eqs ASSERT_def BitFieldCountOnes32_eq field_all RShiftU64_def InternalMathRShiftU64_def c_shr_def
      ones_halves [of "field S E x"])

text \<open>
  C26. \<open>BitFieldCountOnes32\<close> and \<open>BitFieldCountOnes64\<close>, which add up neighbouring bits in parallel with masks, return the number of bits of
  the field that are set, for every operand and every field inside it; a field outside the operand fails an ASSERT.
\<close>

theorem BitFieldCountOnes_counts:
  "map_option unat (BitFieldCountOnes32 x32 S E) = (if S \<le> E \<and> E < 32 then Some (card {n. S \<le> n \<and> n \<le> E \<and> bit x32 n}) else None)
    \<and> map_option unat (BitFieldCountOnes64 x64 S E) = (if S \<le> E \<and> E < 64 then Some (card {n. S \<le> n \<and> n \<le> E \<and> bit x64 n}) else None)"
proof -
  have "ones (field S E x32) < 2 ^ 8" "ones (field S E x64) < 2 ^ 8"
    using ones_le [of "field S E x32"] ones_le [of "field S E x64"] by simp_all
  then have "unat (word_of_nat (ones (field S E x32)) :: UINT8) = ones (field S E x32)"
    "unat (word_of_nat (ones (field S E x64)) :: UINT8) = ones (field S E x64)"
    by (simp_all add: unsigned_of_nat take_bit_nat_eq_self)
  then show ?thesis by (simp add: BitFieldCountOnes32_eq BitFieldCountOnes64_eq flip: ones_field)
qed

end
