(* ===== verification/Safe_Int.thy ===== *)
theory Safe_Int
  imports Base_Math
begin

text \<open>
  Checked integer conversions (\<open>src/MdePkg/Library/BaseSafeIntLib\<close>: the conversions of \<open>SafeIntLib.c\<close> and, for a 64-bit \<open>UINTN\<close>, of
  \<open>SafeIntLib64.c\<close>).  A signed C integer is a word read by \<open>sint\<close>, an unsigned one is read by \<open>uint\<close>; a comparison of two C
  integers of these types compares their values.  A function returns its status and the value stored to \<open>*Result\<close>, if any.
\<close>

section \<open>Types and limits\<close>

type_synonym INT8 = "8 word"
type_synonym INT16 = "16 word"
type_synonym INT32 = "32 word"
type_synonym INT64 = "64 word"
type_synonym INTN = "64 word"
type_synonym UINTN = "64 word"
type_synonym CHAR8 = "8 word"
type_synonym 'a RESULT = "EFI_STATUS \<times> 'a option"

abbreviation RETURN_SUCCESS :: EFI_STATUS where "RETURN_SUCCESS \<equiv> EFI_SUCCESS"
abbreviation RETURN_INVALID_PARAMETER :: EFI_STATUS where "RETURN_INVALID_PARAMETER \<equiv> EFI_INVALID_PARAMETER"
abbreviation RETURN_BUFFER_TOO_SMALL :: EFI_STATUS where "RETURN_BUFFER_TOO_SMALL \<equiv> EFI_BUFFER_TOO_SMALL"
abbreviation RETURN_ERROR :: "EFI_STATUS \<Rightarrow> bool" where "RETURN_ERROR \<equiv> EFI_ERROR"

definition MAX_INT8 :: INT8 where "MAX_INT8 = 0x7F"
definition MAX_UINT8 :: UINT8 where "MAX_UINT8 = 0xFF"
definition MIN_INT8 :: INT8 where "MIN_INT8 = - 127 - 1"
definition INT8_ERROR :: INT8 where "INT8_ERROR = - 1"
definition UINT8_ERROR :: UINT8 where "UINT8_ERROR = MAX_UINT8"
definition MAX_INT16 :: INT16 where "MAX_INT16 = 0x7FFF"
definition MAX_UINT16 :: UINT16 where "MAX_UINT16 = 0xFFFF"
definition MIN_INT16 :: INT16 where "MIN_INT16 = - 32767 - 1"
definition INT16_ERROR :: INT16 where "INT16_ERROR = - 1"
definition UINT16_ERROR :: UINT16 where "UINT16_ERROR = MAX_UINT16"
definition MAX_INT32 :: INT32 where "MAX_INT32 = 0x7FFFFFFF"
definition MAX_UINT32 :: UINT32 where "MAX_UINT32 = 0xFFFFFFFF"
definition MIN_INT32 :: INT32 where "MIN_INT32 = - 2147483647 - 1"
definition INT32_ERROR :: INT32 where "INT32_ERROR = - 1"
definition UINT32_ERROR :: UINT32 where "UINT32_ERROR = MAX_UINT32"
definition MAX_INT64 :: INT64 where "MAX_INT64 = 0x7FFFFFFFFFFFFFFF"
definition MAX_UINT64 :: UINT64 where "MAX_UINT64 = 0xFFFFFFFFFFFFFFFF"
definition MIN_INT64 :: INT64 where "MIN_INT64 = - 9223372036854775807 - 1"
definition INT64_ERROR :: INT64 where "INT64_ERROR = - 1"
definition UINT64_ERROR :: UINT64 where "UINT64_ERROR = MAX_UINT64"
definition CHAR8_ERROR :: CHAR8 where "CHAR8_ERROR = MAX_INT8"
definition MAX_INTN :: INTN where "MAX_INTN = 0x7FFFFFFFFFFFFFFF"
definition MAX_UINTN :: UINTN where "MAX_UINTN = 0xFFFFFFFFFFFFFFFF"
definition INTN_ERROR :: INTN where "INTN_ERROR = - 1"
definition UINTN_ERROR :: UINTN where "UINTN_ERROR = MAX_UINTN"

section \<open>The conversions\<close>

definition SafeInt8ToUint8 :: "INT8 \<Rightarrow> ptr \<Rightarrow> UINT8 RESULT" where
  "SafeInt8ToUint8 Operand Result = (
     if Result = NULL then (RETURN_INVALID_PARAMETER, None)
     else if 0 \<le> sint Operand then (RETURN_SUCCESS, Some (scast Operand))
     else (RETURN_BUFFER_TOO_SMALL, Some UINT8_ERROR))"

definition SafeInt8ToChar8 :: "INT8 \<Rightarrow> ptr \<Rightarrow> CHAR8 RESULT" where
  "SafeInt8ToChar8 Operand Result = (
     if Result = NULL then (RETURN_INVALID_PARAMETER, None)
     else if 0 \<le> sint Operand then (RETURN_SUCCESS, Some (scast Operand))
     else (RETURN_BUFFER_TOO_SMALL, Some CHAR8_ERROR))"

definition SafeInt8ToUint16 :: "INT8 \<Rightarrow> ptr \<Rightarrow> UINT16 RESULT" where
  "SafeInt8ToUint16 Operand Result = (
     if Result = NULL then (RETURN_INVALID_PARAMETER, None)
     else if 0 \<le> sint Operand then (RETURN_SUCCESS, Some (scast Operand))
     else (RETURN_BUFFER_TOO_SMALL, Some UINT16_ERROR))"

definition SafeInt8ToUint32 :: "INT8 \<Rightarrow> ptr \<Rightarrow> UINT32 RESULT" where
  "SafeInt8ToUint32 Operand Result = (
     if Result = NULL then (RETURN_INVALID_PARAMETER, None)
     else if 0 \<le> sint Operand then (RETURN_SUCCESS, Some (scast Operand))
     else (RETURN_BUFFER_TOO_SMALL, Some UINT32_ERROR))"

definition SafeInt8ToUintn :: "INT8 \<Rightarrow> ptr \<Rightarrow> UINTN RESULT" where
  "SafeInt8ToUintn Operand Result = (
     if Result = NULL then (RETURN_INVALID_PARAMETER, None)
     else if 0 \<le> sint Operand then (RETURN_SUCCESS, Some (scast Operand))
     else (RETURN_BUFFER_TOO_SMALL, Some UINTN_ERROR))"

definition SafeInt8ToUint64 :: "INT8 \<Rightarrow> ptr \<Rightarrow> UINT64 RESULT" where
  "SafeInt8ToUint64 Operand Result = (
     if Result = NULL then (RETURN_INVALID_PARAMETER, None)
     else if 0 \<le> sint Operand then (RETURN_SUCCESS, Some (scast Operand))
     else (RETURN_BUFFER_TOO_SMALL, Some UINT64_ERROR))"

definition SafeUint8ToInt8 :: "UINT8 \<Rightarrow> ptr \<Rightarrow> INT8 RESULT" where
  "SafeUint8ToInt8 Operand Result = (
     if Result = NULL then (RETURN_INVALID_PARAMETER, None)
     else if uint Operand \<le> sint MAX_INT8 then (RETURN_SUCCESS, Some (ucast Operand))
     else (RETURN_BUFFER_TOO_SMALL, Some INT8_ERROR))"

definition SafeUint8ToChar8 :: "UINT8 \<Rightarrow> ptr \<Rightarrow> CHAR8 RESULT" where
  "SafeUint8ToChar8 Operand Result = (
     if Result = NULL then (RETURN_INVALID_PARAMETER, None)
     else if uint Operand \<le> sint MAX_INT8 then (RETURN_SUCCESS, Some (ucast Operand))
     else (RETURN_BUFFER_TOO_SMALL, Some CHAR8_ERROR))"

definition SafeInt16ToInt8 :: "INT16 \<Rightarrow> ptr \<Rightarrow> INT8 RESULT" where
  "SafeInt16ToInt8 Operand Result = (
     if Result = NULL then (RETURN_INVALID_PARAMETER, None)
     else if sint MIN_INT8 \<le> sint Operand \<and> sint Operand \<le> sint MAX_INT8 then (RETURN_SUCCESS, Some (scast Operand))
     else (RETURN_BUFFER_TOO_SMALL, Some INT8_ERROR))"

definition SafeInt16ToChar8 :: "INT16 \<Rightarrow> ptr \<Rightarrow> CHAR8 RESULT" where
  "SafeInt16ToChar8 Operand Result = (
     if Result = NULL then (RETURN_INVALID_PARAMETER, None)
     else if 0 \<le> sint Operand \<and> sint Operand \<le> sint MAX_INT8 then (RETURN_SUCCESS, Some (scast Operand))
     else (RETURN_BUFFER_TOO_SMALL, Some CHAR8_ERROR))"

definition SafeInt16ToUint8 :: "INT16 \<Rightarrow> ptr \<Rightarrow> UINT8 RESULT" where
  "SafeInt16ToUint8 Operand Result = (
     if Result = NULL then (RETURN_INVALID_PARAMETER, None)
     else if 0 \<le> sint Operand \<and> sint Operand \<le> uint MAX_UINT8 then (RETURN_SUCCESS, Some (scast Operand))
     else (RETURN_BUFFER_TOO_SMALL, Some UINT8_ERROR))"

definition SafeInt16ToUint16 :: "INT16 \<Rightarrow> ptr \<Rightarrow> UINT16 RESULT" where
  "SafeInt16ToUint16 Operand Result = (
     if Result = NULL then (RETURN_INVALID_PARAMETER, None)
     else if 0 \<le> sint Operand then (RETURN_SUCCESS, Some (scast Operand))
     else (RETURN_BUFFER_TOO_SMALL, Some UINT16_ERROR))"

definition SafeInt16ToUint32 :: "INT16 \<Rightarrow> ptr \<Rightarrow> UINT32 RESULT" where
  "SafeInt16ToUint32 Operand Result = (
     if Result = NULL then (RETURN_INVALID_PARAMETER, None)
     else if 0 \<le> sint Operand then (RETURN_SUCCESS, Some (scast Operand))
     else (RETURN_BUFFER_TOO_SMALL, Some UINT32_ERROR))"

definition SafeInt16ToUintn :: "INT16 \<Rightarrow> ptr \<Rightarrow> UINTN RESULT" where
  "SafeInt16ToUintn Operand Result = (
     if Result = NULL then (RETURN_INVALID_PARAMETER, None)
     else if 0 \<le> sint Operand then (RETURN_SUCCESS, Some (scast Operand))
     else (RETURN_BUFFER_TOO_SMALL, Some UINTN_ERROR))"

definition SafeInt16ToUint64 :: "INT16 \<Rightarrow> ptr \<Rightarrow> UINT64 RESULT" where
  "SafeInt16ToUint64 Operand Result = (
     if Result = NULL then (RETURN_INVALID_PARAMETER, None)
     else if 0 \<le> sint Operand then (RETURN_SUCCESS, Some (scast Operand))
     else (RETURN_BUFFER_TOO_SMALL, Some UINT64_ERROR))"

definition SafeUint16ToInt8 :: "UINT16 \<Rightarrow> ptr \<Rightarrow> INT8 RESULT" where
  "SafeUint16ToInt8 Operand Result = (
     if Result = NULL then (RETURN_INVALID_PARAMETER, None)
     else if uint Operand \<le> sint MAX_INT8 then (RETURN_SUCCESS, Some (ucast Operand))
     else (RETURN_BUFFER_TOO_SMALL, Some INT8_ERROR))"

definition SafeUint16ToChar8 :: "UINT16 \<Rightarrow> ptr \<Rightarrow> CHAR8 RESULT" where
  "SafeUint16ToChar8 Operand Result = (
     if Result = NULL then (RETURN_INVALID_PARAMETER, None)
     else if uint Operand \<le> sint MAX_INT8 then (RETURN_SUCCESS, Some (ucast Operand))
     else (RETURN_BUFFER_TOO_SMALL, Some CHAR8_ERROR))"

definition SafeUint16ToUint8 :: "UINT16 \<Rightarrow> ptr \<Rightarrow> UINT8 RESULT" where
  "SafeUint16ToUint8 Operand Result = (
     if Result = NULL then (RETURN_INVALID_PARAMETER, None)
     else if uint Operand \<le> uint MAX_UINT8 then (RETURN_SUCCESS, Some (ucast Operand))
     else (RETURN_BUFFER_TOO_SMALL, Some UINT8_ERROR))"

definition SafeUint16ToInt16 :: "UINT16 \<Rightarrow> ptr \<Rightarrow> INT16 RESULT" where
  "SafeUint16ToInt16 Operand Result = (
     if Result = NULL then (RETURN_INVALID_PARAMETER, None)
     else if uint Operand \<le> sint MAX_INT16 then (RETURN_SUCCESS, Some (ucast Operand))
     else (RETURN_BUFFER_TOO_SMALL, Some INT16_ERROR))"

definition SafeInt32ToInt8 :: "INT32 \<Rightarrow> ptr \<Rightarrow> INT8 RESULT" where
  "SafeInt32ToInt8 Operand Result = (
     if Result = NULL then (RETURN_INVALID_PARAMETER, None)
     else if sint MIN_INT8 \<le> sint Operand \<and> sint Operand \<le> sint MAX_INT8 then (RETURN_SUCCESS, Some (scast Operand))
     else (RETURN_BUFFER_TOO_SMALL, Some INT8_ERROR))"

definition SafeInt32ToChar8 :: "INT32 \<Rightarrow> ptr \<Rightarrow> CHAR8 RESULT" where
  "SafeInt32ToChar8 Operand Result = (
     if Result = NULL then (RETURN_INVALID_PARAMETER, None)
     else if 0 \<le> sint Operand \<and> sint Operand \<le> sint MAX_INT8 then (RETURN_SUCCESS, Some (scast Operand))
     else (RETURN_BUFFER_TOO_SMALL, Some CHAR8_ERROR))"

definition SafeInt32ToUint8 :: "INT32 \<Rightarrow> ptr \<Rightarrow> UINT8 RESULT" where
  "SafeInt32ToUint8 Operand Result = (
     if Result = NULL then (RETURN_INVALID_PARAMETER, None)
     else if 0 \<le> sint Operand \<and> sint Operand \<le> uint MAX_UINT8 then (RETURN_SUCCESS, Some (scast Operand))
     else (RETURN_BUFFER_TOO_SMALL, Some UINT8_ERROR))"

definition SafeInt32ToInt16 :: "INT32 \<Rightarrow> ptr \<Rightarrow> INT16 RESULT" where
  "SafeInt32ToInt16 Operand Result = (
     if Result = NULL then (RETURN_INVALID_PARAMETER, None)
     else if sint MIN_INT16 \<le> sint Operand \<and> sint Operand \<le> sint MAX_INT16 then (RETURN_SUCCESS, Some (scast Operand))
     else (RETURN_BUFFER_TOO_SMALL, Some INT16_ERROR))"

definition SafeInt32ToUint16 :: "INT32 \<Rightarrow> ptr \<Rightarrow> UINT16 RESULT" where
  "SafeInt32ToUint16 Operand Result = (
     if Result = NULL then (RETURN_INVALID_PARAMETER, None)
     else if 0 \<le> sint Operand \<and> sint Operand \<le> uint MAX_UINT16 then (RETURN_SUCCESS, Some (scast Operand))
     else (RETURN_BUFFER_TOO_SMALL, Some UINT16_ERROR))"

definition SafeInt32ToUint32 :: "INT32 \<Rightarrow> ptr \<Rightarrow> UINT32 RESULT" where
  "SafeInt32ToUint32 Operand Result = (
     if Result = NULL then (RETURN_INVALID_PARAMETER, None)
     else if 0 \<le> sint Operand then (RETURN_SUCCESS, Some (scast Operand))
     else (RETURN_BUFFER_TOO_SMALL, Some UINT32_ERROR))"

definition SafeInt32ToUint64 :: "INT32 \<Rightarrow> ptr \<Rightarrow> UINT64 RESULT" where
  "SafeInt32ToUint64 Operand Result = (
     if Result = NULL then (RETURN_INVALID_PARAMETER, None)
     else if 0 \<le> sint Operand then (RETURN_SUCCESS, Some (scast Operand))
     else (RETURN_BUFFER_TOO_SMALL, Some UINT64_ERROR))"

definition SafeUint32ToInt8 :: "UINT32 \<Rightarrow> ptr \<Rightarrow> INT8 RESULT" where
  "SafeUint32ToInt8 Operand Result = (
     if Result = NULL then (RETURN_INVALID_PARAMETER, None)
     else if uint Operand \<le> sint MAX_INT8 then (RETURN_SUCCESS, Some (ucast Operand))
     else (RETURN_BUFFER_TOO_SMALL, Some INT8_ERROR))"

definition SafeUint32ToChar8 :: "UINT32 \<Rightarrow> ptr \<Rightarrow> CHAR8 RESULT" where
  "SafeUint32ToChar8 Operand Result = (
     if Result = NULL then (RETURN_INVALID_PARAMETER, None)
     else if uint Operand \<le> sint MAX_INT8 then (RETURN_SUCCESS, Some (ucast Operand))
     else (RETURN_BUFFER_TOO_SMALL, Some CHAR8_ERROR))"

definition SafeUint32ToUint8 :: "UINT32 \<Rightarrow> ptr \<Rightarrow> UINT8 RESULT" where
  "SafeUint32ToUint8 Operand Result = (
     if Result = NULL then (RETURN_INVALID_PARAMETER, None)
     else if uint Operand \<le> uint MAX_UINT8 then (RETURN_SUCCESS, Some (ucast Operand))
     else (RETURN_BUFFER_TOO_SMALL, Some UINT8_ERROR))"

definition SafeUint32ToInt16 :: "UINT32 \<Rightarrow> ptr \<Rightarrow> INT16 RESULT" where
  "SafeUint32ToInt16 Operand Result = (
     if Result = NULL then (RETURN_INVALID_PARAMETER, None)
     else if uint Operand \<le> sint MAX_INT16 then (RETURN_SUCCESS, Some (ucast Operand))
     else (RETURN_BUFFER_TOO_SMALL, Some INT16_ERROR))"

definition SafeUint32ToUint16 :: "UINT32 \<Rightarrow> ptr \<Rightarrow> UINT16 RESULT" where
  "SafeUint32ToUint16 Operand Result = (
     if Result = NULL then (RETURN_INVALID_PARAMETER, None)
     else if uint Operand \<le> uint MAX_UINT16 then (RETURN_SUCCESS, Some (ucast Operand))
     else (RETURN_BUFFER_TOO_SMALL, Some UINT16_ERROR))"

definition SafeUint32ToInt32 :: "UINT32 \<Rightarrow> ptr \<Rightarrow> INT32 RESULT" where
  "SafeUint32ToInt32 Operand Result = (
     if Result = NULL then (RETURN_INVALID_PARAMETER, None)
     else if uint Operand \<le> sint MAX_INT32 then (RETURN_SUCCESS, Some (ucast Operand))
     else (RETURN_BUFFER_TOO_SMALL, Some INT32_ERROR))"

definition SafeIntnToInt8 :: "INTN \<Rightarrow> ptr \<Rightarrow> INT8 RESULT" where
  "SafeIntnToInt8 Operand Result = (
     if Result = NULL then (RETURN_INVALID_PARAMETER, None)
     else if sint MIN_INT8 \<le> sint Operand \<and> sint Operand \<le> sint MAX_INT8 then (RETURN_SUCCESS, Some (scast Operand))
     else (RETURN_BUFFER_TOO_SMALL, Some INT8_ERROR))"

definition SafeIntnToChar8 :: "INTN \<Rightarrow> ptr \<Rightarrow> CHAR8 RESULT" where
  "SafeIntnToChar8 Operand Result = (
     if Result = NULL then (RETURN_INVALID_PARAMETER, None)
     else if 0 \<le> sint Operand \<and> sint Operand \<le> sint MAX_INT8 then (RETURN_SUCCESS, Some (scast Operand))
     else (RETURN_BUFFER_TOO_SMALL, Some CHAR8_ERROR))"

definition SafeIntnToUint8 :: "INTN \<Rightarrow> ptr \<Rightarrow> UINT8 RESULT" where
  "SafeIntnToUint8 Operand Result = (
     if Result = NULL then (RETURN_INVALID_PARAMETER, None)
     else if 0 \<le> sint Operand \<and> sint Operand \<le> uint MAX_UINT8 then (RETURN_SUCCESS, Some (scast Operand))
     else (RETURN_BUFFER_TOO_SMALL, Some UINT8_ERROR))"

definition SafeIntnToInt16 :: "INTN \<Rightarrow> ptr \<Rightarrow> INT16 RESULT" where
  "SafeIntnToInt16 Operand Result = (
     if Result = NULL then (RETURN_INVALID_PARAMETER, None)
     else if sint MIN_INT16 \<le> sint Operand \<and> sint Operand \<le> sint MAX_INT16 then (RETURN_SUCCESS, Some (scast Operand))
     else (RETURN_BUFFER_TOO_SMALL, Some INT16_ERROR))"

definition SafeIntnToUint16 :: "INTN \<Rightarrow> ptr \<Rightarrow> UINT16 RESULT" where
  "SafeIntnToUint16 Operand Result = (
     if Result = NULL then (RETURN_INVALID_PARAMETER, None)
     else if 0 \<le> sint Operand \<and> sint Operand \<le> uint MAX_UINT16 then (RETURN_SUCCESS, Some (scast Operand))
     else (RETURN_BUFFER_TOO_SMALL, Some UINT16_ERROR))"

definition SafeIntnToUintn :: "INTN \<Rightarrow> ptr \<Rightarrow> UINTN RESULT" where
  "SafeIntnToUintn Operand Result = (
     if Result = NULL then (RETURN_INVALID_PARAMETER, None)
     else if 0 \<le> sint Operand then (RETURN_SUCCESS, Some (scast Operand))
     else (RETURN_BUFFER_TOO_SMALL, Some UINTN_ERROR))"

definition SafeIntnToUint64 :: "INTN \<Rightarrow> ptr \<Rightarrow> UINT64 RESULT" where
  "SafeIntnToUint64 Operand Result = (
     if Result = NULL then (RETURN_INVALID_PARAMETER, None)
     else if 0 \<le> sint Operand then (RETURN_SUCCESS, Some (scast Operand))
     else (RETURN_BUFFER_TOO_SMALL, Some UINT64_ERROR))"

definition SafeUintnToInt8 :: "UINTN \<Rightarrow> ptr \<Rightarrow> INT8 RESULT" where
  "SafeUintnToInt8 Operand Result = (
     if Result = NULL then (RETURN_INVALID_PARAMETER, None)
     else if uint Operand \<le> sint MAX_INT8 then (RETURN_SUCCESS, Some (ucast Operand))
     else (RETURN_BUFFER_TOO_SMALL, Some INT8_ERROR))"

definition SafeUintnToChar8 :: "UINTN \<Rightarrow> ptr \<Rightarrow> CHAR8 RESULT" where
  "SafeUintnToChar8 Operand Result = (
     if Result = NULL then (RETURN_INVALID_PARAMETER, None)
     else if uint Operand \<le> sint MAX_INT8 then (RETURN_SUCCESS, Some (ucast Operand))
     else (RETURN_BUFFER_TOO_SMALL, Some CHAR8_ERROR))"

definition SafeUintnToUint8 :: "UINTN \<Rightarrow> ptr \<Rightarrow> UINT8 RESULT" where
  "SafeUintnToUint8 Operand Result = (
     if Result = NULL then (RETURN_INVALID_PARAMETER, None)
     else if uint Operand \<le> uint MAX_UINT8 then (RETURN_SUCCESS, Some (ucast Operand))
     else (RETURN_BUFFER_TOO_SMALL, Some UINT8_ERROR))"

definition SafeUintnToInt16 :: "UINTN \<Rightarrow> ptr \<Rightarrow> INT16 RESULT" where
  "SafeUintnToInt16 Operand Result = (
     if Result = NULL then (RETURN_INVALID_PARAMETER, None)
     else if uint Operand \<le> sint MAX_INT16 then (RETURN_SUCCESS, Some (ucast Operand))
     else (RETURN_BUFFER_TOO_SMALL, Some INT16_ERROR))"

definition SafeUintnToUint16 :: "UINTN \<Rightarrow> ptr \<Rightarrow> UINT16 RESULT" where
  "SafeUintnToUint16 Operand Result = (
     if Result = NULL then (RETURN_INVALID_PARAMETER, None)
     else if uint Operand \<le> uint MAX_UINT16 then (RETURN_SUCCESS, Some (ucast Operand))
     else (RETURN_BUFFER_TOO_SMALL, Some UINT16_ERROR))"

definition SafeUintnToInt32 :: "UINTN \<Rightarrow> ptr \<Rightarrow> INT32 RESULT" where
  "SafeUintnToInt32 Operand Result = (
     if Result = NULL then (RETURN_INVALID_PARAMETER, None)
     else if uint Operand \<le> sint MAX_INT32 then (RETURN_SUCCESS, Some (ucast Operand))
     else (RETURN_BUFFER_TOO_SMALL, Some INT32_ERROR))"

definition SafeUintnToIntn :: "UINTN \<Rightarrow> ptr \<Rightarrow> INTN RESULT" where
  "SafeUintnToIntn Operand Result = (
     if Result = NULL then (RETURN_INVALID_PARAMETER, None)
     else if uint Operand \<le> sint MAX_INTN then (RETURN_SUCCESS, Some (ucast Operand))
     else (RETURN_BUFFER_TOO_SMALL, Some INTN_ERROR))"

definition SafeInt64ToInt8 :: "INT64 \<Rightarrow> ptr \<Rightarrow> INT8 RESULT" where
  "SafeInt64ToInt8 Operand Result = (
     if Result = NULL then (RETURN_INVALID_PARAMETER, None)
     else if sint MIN_INT8 \<le> sint Operand \<and> sint Operand \<le> sint MAX_INT8 then (RETURN_SUCCESS, Some (scast Operand))
     else (RETURN_BUFFER_TOO_SMALL, Some INT8_ERROR))"

definition SafeInt64ToChar8 :: "INT64 \<Rightarrow> ptr \<Rightarrow> CHAR8 RESULT" where
  "SafeInt64ToChar8 Operand Result = (
     if Result = NULL then (RETURN_INVALID_PARAMETER, None)
     else if 0 \<le> sint Operand \<and> sint Operand \<le> sint MAX_INT8 then (RETURN_SUCCESS, Some (scast Operand))
     else (RETURN_BUFFER_TOO_SMALL, Some CHAR8_ERROR))"

definition SafeInt64ToUint8 :: "INT64 \<Rightarrow> ptr \<Rightarrow> UINT8 RESULT" where
  "SafeInt64ToUint8 Operand Result = (
     if Result = NULL then (RETURN_INVALID_PARAMETER, None)
     else if 0 \<le> sint Operand \<and> sint Operand \<le> uint MAX_UINT8 then (RETURN_SUCCESS, Some (scast Operand))
     else (RETURN_BUFFER_TOO_SMALL, Some UINT8_ERROR))"

definition SafeInt64ToInt16 :: "INT64 \<Rightarrow> ptr \<Rightarrow> INT16 RESULT" where
  "SafeInt64ToInt16 Operand Result = (
     if Result = NULL then (RETURN_INVALID_PARAMETER, None)
     else if sint MIN_INT16 \<le> sint Operand \<and> sint Operand \<le> sint MAX_INT16 then (RETURN_SUCCESS, Some (scast Operand))
     else (RETURN_BUFFER_TOO_SMALL, Some INT16_ERROR))"

definition SafeInt64ToUint16 :: "INT64 \<Rightarrow> ptr \<Rightarrow> UINT16 RESULT" where
  "SafeInt64ToUint16 Operand Result = (
     if Result = NULL then (RETURN_INVALID_PARAMETER, None)
     else if 0 \<le> sint Operand \<and> sint Operand \<le> uint MAX_UINT16 then (RETURN_SUCCESS, Some (scast Operand))
     else (RETURN_BUFFER_TOO_SMALL, Some UINT16_ERROR))"

definition SafeInt64ToInt32 :: "INT64 \<Rightarrow> ptr \<Rightarrow> INT32 RESULT" where
  "SafeInt64ToInt32 Operand Result = (
     if Result = NULL then (RETURN_INVALID_PARAMETER, None)
     else if sint MIN_INT32 \<le> sint Operand \<and> sint Operand \<le> sint MAX_INT32 then (RETURN_SUCCESS, Some (scast Operand))
     else (RETURN_BUFFER_TOO_SMALL, Some INT32_ERROR))"

definition SafeInt64ToUint32 :: "INT64 \<Rightarrow> ptr \<Rightarrow> UINT32 RESULT" where
  "SafeInt64ToUint32 Operand Result = (
     if Result = NULL then (RETURN_INVALID_PARAMETER, None)
     else if 0 \<le> sint Operand \<and> sint Operand \<le> uint MAX_UINT32 then (RETURN_SUCCESS, Some (scast Operand))
     else (RETURN_BUFFER_TOO_SMALL, Some UINT32_ERROR))"

definition SafeInt64ToUint64 :: "INT64 \<Rightarrow> ptr \<Rightarrow> UINT64 RESULT" where
  "SafeInt64ToUint64 Operand Result = (
     if Result = NULL then (RETURN_INVALID_PARAMETER, None)
     else if 0 \<le> sint Operand then (RETURN_SUCCESS, Some (scast Operand))
     else (RETURN_BUFFER_TOO_SMALL, Some UINT64_ERROR))"

definition SafeUint64ToInt8 :: "UINT64 \<Rightarrow> ptr \<Rightarrow> INT8 RESULT" where
  "SafeUint64ToInt8 Operand Result = (
     if Result = NULL then (RETURN_INVALID_PARAMETER, None)
     else if uint Operand \<le> sint MAX_INT8 then (RETURN_SUCCESS, Some (ucast Operand))
     else (RETURN_BUFFER_TOO_SMALL, Some INT8_ERROR))"

definition SafeUint64ToChar8 :: "UINT64 \<Rightarrow> ptr \<Rightarrow> CHAR8 RESULT" where
  "SafeUint64ToChar8 Operand Result = (
     if Result = NULL then (RETURN_INVALID_PARAMETER, None)
     else if uint Operand \<le> sint MAX_INT8 then (RETURN_SUCCESS, Some (ucast Operand))
     else (RETURN_BUFFER_TOO_SMALL, Some CHAR8_ERROR))"

definition SafeUint64ToUint8 :: "UINT64 \<Rightarrow> ptr \<Rightarrow> UINT8 RESULT" where
  "SafeUint64ToUint8 Operand Result = (
     if Result = NULL then (RETURN_INVALID_PARAMETER, None)
     else if uint Operand \<le> uint MAX_UINT8 then (RETURN_SUCCESS, Some (ucast Operand))
     else (RETURN_BUFFER_TOO_SMALL, Some UINT8_ERROR))"

definition SafeUint64ToInt16 :: "UINT64 \<Rightarrow> ptr \<Rightarrow> INT16 RESULT" where
  "SafeUint64ToInt16 Operand Result = (
     if Result = NULL then (RETURN_INVALID_PARAMETER, None)
     else if uint Operand \<le> sint MAX_INT16 then (RETURN_SUCCESS, Some (ucast Operand))
     else (RETURN_BUFFER_TOO_SMALL, Some INT16_ERROR))"

definition SafeUint64ToUint16 :: "UINT64 \<Rightarrow> ptr \<Rightarrow> UINT16 RESULT" where
  "SafeUint64ToUint16 Operand Result = (
     if Result = NULL then (RETURN_INVALID_PARAMETER, None)
     else if uint Operand \<le> uint MAX_UINT16 then (RETURN_SUCCESS, Some (ucast Operand))
     else (RETURN_BUFFER_TOO_SMALL, Some UINT16_ERROR))"

definition SafeUint64ToInt32 :: "UINT64 \<Rightarrow> ptr \<Rightarrow> INT32 RESULT" where
  "SafeUint64ToInt32 Operand Result = (
     if Result = NULL then (RETURN_INVALID_PARAMETER, None)
     else if uint Operand \<le> sint MAX_INT32 then (RETURN_SUCCESS, Some (ucast Operand))
     else (RETURN_BUFFER_TOO_SMALL, Some INT32_ERROR))"

definition SafeUint64ToUint32 :: "UINT64 \<Rightarrow> ptr \<Rightarrow> UINT32 RESULT" where
  "SafeUint64ToUint32 Operand Result = (
     if Result = NULL then (RETURN_INVALID_PARAMETER, None)
     else if uint Operand \<le> uint MAX_UINT32 then (RETURN_SUCCESS, Some (ucast Operand))
     else (RETURN_BUFFER_TOO_SMALL, Some UINT32_ERROR))"

definition SafeUint64ToIntn :: "UINT64 \<Rightarrow> ptr \<Rightarrow> INTN RESULT" where
  "SafeUint64ToIntn Operand Result = (
     if Result = NULL then (RETURN_INVALID_PARAMETER, None)
     else if uint Operand \<le> sint MAX_INTN then (RETURN_SUCCESS, Some (ucast Operand))
     else (RETURN_BUFFER_TOO_SMALL, Some INTN_ERROR))"

definition SafeUint64ToInt64 :: "UINT64 \<Rightarrow> ptr \<Rightarrow> INT64 RESULT" where
  "SafeUint64ToInt64 Operand Result = (
     if Result = NULL then (RETURN_INVALID_PARAMETER, None)
     else if uint Operand \<le> sint MAX_INT64 then (RETURN_SUCCESS, Some (ucast Operand))
     else (RETURN_BUFFER_TOO_SMALL, Some INT64_ERROR))"

definition SafeInt32ToUintn :: "INT32 \<Rightarrow> ptr \<Rightarrow> UINTN RESULT" where
  "SafeInt32ToUintn Operand Result = SafeInt32ToUint64 Operand Result"

definition SafeUint32ToIntn :: "UINT32 \<Rightarrow> ptr \<Rightarrow> INTN RESULT" where
  "SafeUint32ToIntn Operand Result = (
     if Result = NULL then (RETURN_INVALID_PARAMETER, None)
     else (RETURN_SUCCESS, Some (ucast Operand)))"

definition SafeIntnToInt32 :: "INTN \<Rightarrow> ptr \<Rightarrow> INT32 RESULT" where
  "SafeIntnToInt32 Operand Result = SafeInt64ToInt32 Operand Result"

definition SafeIntnToUint32 :: "INTN \<Rightarrow> ptr \<Rightarrow> UINT32 RESULT" where
  "SafeIntnToUint32 Operand Result = SafeInt64ToUint32 Operand Result"

definition SafeUintnToUint32 :: "UINTN \<Rightarrow> ptr \<Rightarrow> UINT32 RESULT" where
  "SafeUintnToUint32 Operand Result = SafeUint64ToUint32 Operand Result"

definition SafeUintnToInt64 :: "UINTN \<Rightarrow> ptr \<Rightarrow> INT64 RESULT" where
  "SafeUintnToInt64 Operand Result = SafeUint64ToInt64 Operand Result"

definition SafeInt64ToIntn :: "INT64 \<Rightarrow> ptr \<Rightarrow> INTN RESULT" where
  "SafeInt64ToIntn Operand Result = (
     if Result = NULL then (RETURN_INVALID_PARAMETER, None)
     else (RETURN_SUCCESS, Some (scast Operand)))"

definition SafeInt64ToUintn :: "INT64 \<Rightarrow> ptr \<Rightarrow> UINTN RESULT" where
  "SafeInt64ToUintn Operand Result = SafeInt64ToUint64 Operand Result"

definition SafeUint64ToUintn :: "UINT64 \<Rightarrow> ptr \<Rightarrow> UINTN RESULT" where
  "SafeUint64ToUintn Operand Result = (
     if Result = NULL then (RETURN_INVALID_PARAMETER, None)
     else (RETURN_SUCCESS, Some (ucast Operand)))"

section \<open>What a conversion promises\<close>

text \<open>
  \<open>signed_value y v\<close>, \<open>unsigned_value y v\<close> and \<open>char_value y v\<close>: the word \<open>y\<close> holds the number \<open>v\<close> as a signed integer, an unsigned
  integer, or a 7-bit character.  A conversion \<open>f\<close> from operands with the value \<open>num\<close> succeeds exactly when its result
  type has a word for that value, and then stores that word; otherwise it stores the error value of the type.
\<close>

definition signed_value :: "'b::len word \<Rightarrow> int \<Rightarrow> bool" where
  "signed_value y v \<longleftrightarrow> sint y = v"

definition unsigned_value :: "'b::len word \<Rightarrow> int \<Rightarrow> bool" where
  "unsigned_value y v \<longleftrightarrow> uint y = v"

definition char_value :: "CHAR8 \<Rightarrow> int \<Rightarrow> bool" where
  "char_value y v \<longleftrightarrow> uint y = v \<and> v \<le> 127"

definition delivers :: "'b RESULT \<Rightarrow> ('b \<Rightarrow> int \<Rightarrow> bool) \<Rightarrow> int \<Rightarrow> 'b \<Rightarrow> bool" where
  "delivers p holds v Error \<longleftrightarrow>
     (\<forall>y. p = (RETURN_SUCCESS, Some y) \<longleftrightarrow> holds y v) \<and> ((\<nexists>y. holds y v) \<longrightarrow> p = (RETURN_BUFFER_TOO_SMALL, Some Error))"

definition converts :: "('a \<Rightarrow> ptr \<Rightarrow> 'b RESULT) \<Rightarrow> ('a \<Rightarrow> int) \<Rightarrow> ('b \<Rightarrow> int \<Rightarrow> bool) \<Rightarrow> 'b \<Rightarrow> bool" where
  "converts f num holds Error \<longleftrightarrow>
     (\<forall>x. f x NULL = (RETURN_INVALID_PARAMETER, None)) \<and> (\<forall>x Result. Result \<noteq> NULL \<longrightarrow> delivers (f x Result) holds (num x) Error)"

definition checked :: "bool \<Rightarrow> 'b \<Rightarrow> 'b \<Rightarrow> ptr \<Rightarrow> 'b RESULT" where
  "checked fits y Error Result = (
     if Result = NULL then (RETURN_INVALID_PARAMETER, None)
     else if fits then (RETURN_SUCCESS, Some y) else (RETURN_BUFFER_TOO_SMALL, Some Error))"

lemma word_ranges:
  "- (2 ^ (LENGTH('b) - 1)) \<le> sint y" "sint y < 2 ^ (LENGTH('b) - 1)" "0 \<le> uint y" "uint y < 2 ^ LENGTH('b)" for y :: "'b::len word"
  using sint_greater_eq [of y] sint_less [of y] by simp_all

lemma sint_of_int: "- (2 ^ (LENGTH('b) - 1)) \<le> v \<Longrightarrow> v < 2 ^ (LENGTH('b) - 1) \<Longrightarrow> sint (word_of_int v :: 'b::len word) = v"
  by (cases "LENGTH('b)") (simp_all add: signed_of_int signed_take_bit_int_eq_self)

lemma uint_of_int: "0 \<le> v \<Longrightarrow> v < 2 ^ LENGTH('b) \<Longrightarrow> uint (word_of_int v :: 'b::len word) = v"
  by (simp add: unsigned_of_int take_bit_int_eq_self)

lemma holds_iff:
  fixes y :: "'b::len word"
  shows "signed_value y v \<longleftrightarrow> - (2 ^ (LENGTH('b) - 1)) \<le> v \<and> v < 2 ^ (LENGTH('b) - 1) \<and> y = word_of_int v"
    "unsigned_value y v \<longleftrightarrow> 0 \<le> v \<and> v < 2 ^ LENGTH('b) \<and> y = word_of_int v"
    "char_value c v \<longleftrightarrow> 0 \<le> v \<and> v \<le> 127 \<and> c = word_of_int v"
proof -
  show "signed_value y v \<longleftrightarrow> - (2 ^ (LENGTH('b) - 1)) \<le> v \<and> v < 2 ^ (LENGTH('b) - 1) \<and> y = word_of_int v"
    using word_ranges(1,2) [of y] by (auto simp: signed_value_def sint_of_int)
  show "unsigned_value y v \<longleftrightarrow> 0 \<le> v \<and> v < 2 ^ LENGTH('b) \<and> y = word_of_int v"
    using word_ranges(3,4) [of y] by (auto simp: unsigned_value_def uint_of_int)
  show "char_value c v \<longleftrightarrow> 0 \<le> v \<and> v \<le> 127 \<and> c = word_of_int v"
    using word_ranges(3,4) [of c] by (auto simp: char_value_def uint_of_int)
qed

lemma checked_delivers:
  assumes "Result \<noteq> NULL" and "\<And>y. holds y v \<longleftrightarrow> fits \<and> y = z"
  shows "delivers (checked fits z Error Result) holds v Error"
  using assms by (auto simp: delivers_def checked_def)

lemma converts_checked:
  assumes "\<And>x Result. f x Result = checked (fits x) (g x) Error Result" and "\<And>x y. holds y (num x) \<longleftrightarrow> fits x \<and> y = g x"
  shows "converts f num holds Error"
  using assms by (auto simp: converts_def checked_def delivers_def)

lemma casts: "scast x = word_of_int (sint x)" "ucast x = word_of_int (uint x)" for x :: "'a::len word"
  by simp_all

lemma limits:
  "sint MAX_INT8 = 127" "uint MAX_UINT8 = 255" "sint MIN_INT8 = - 128" "sint MAX_INT16 = 32767" "uint MAX_UINT16 = 65535"
  "sint MIN_INT16 = - 32768" "sint MAX_INT32 = 2147483647" "uint MAX_UINT32 = 4294967295" "sint MIN_INT32 = - 2147483648"
  "sint MAX_INT64 = 9223372036854775807" "uint MAX_UINT64 = 18446744073709551615" "sint MIN_INT64 = - 9223372036854775808"
  "sint MAX_INTN = 9223372036854775807"
  by code_simp+

lemma native_errors: "UINTN_ERROR = UINT64_ERROR" "INTN_ERROR = INT64_ERROR"
  by code_simp+

lemma converts_signed:
  fixes f :: "'a::len word \<Rightarrow> ptr \<Rightarrow> 'b::len word RESULT"
  assumes "\<And>x Result. f x Result = checked (fits (sint x)) (scast x) Error Result"
  shows "(\<And>v. - (2 ^ (LENGTH('a) - 1)) \<le> v \<Longrightarrow> v < 2 ^ (LENGTH('a) - 1) \<Longrightarrow> fits v = (- (2 ^ (LENGTH('b) - 1)) \<le> v \<and> v < 2 ^ (LENGTH('b) - 1)))
      \<Longrightarrow> converts f sint signed_value Error"
    "(\<And>v. - (2 ^ (LENGTH('a) - 1)) \<le> v \<Longrightarrow> v < 2 ^ (LENGTH('a) - 1) \<Longrightarrow> fits v = (0 \<le> v \<and> v < 2 ^ LENGTH('b)))
      \<Longrightarrow> converts f sint unsigned_value Error"
  by (rule converts_checked [OF assms]; simp only: holds_iff casts word_ranges conj_assoc)+

lemma converts_unsigned:
  fixes f :: "'a::len word \<Rightarrow> ptr \<Rightarrow> 'b::len word RESULT"
  assumes "\<And>x Result. f x Result = checked (fits (uint x)) (ucast x) Error Result"
  shows "(\<And>v. 0 \<le> v \<Longrightarrow> v < 2 ^ LENGTH('a) \<Longrightarrow> fits v = (- (2 ^ (LENGTH('b) - 1)) \<le> v \<and> v < 2 ^ (LENGTH('b) - 1)))
      \<Longrightarrow> converts f uint signed_value Error"
    "(\<And>v. 0 \<le> v \<Longrightarrow> v < 2 ^ LENGTH('a) \<Longrightarrow> fits v = (0 \<le> v \<and> v < 2 ^ LENGTH('b)))
      \<Longrightarrow> converts f uint unsigned_value Error"
  by (rule converts_checked [OF assms]; simp only: holds_iff casts word_ranges conj_assoc)+

lemma converts_char:
  fixes f :: "'a::len word \<Rightarrow> ptr \<Rightarrow> CHAR8 RESULT"
  shows "(\<And>x Result. f x Result = checked (fits (sint x)) (scast x) Error Result)
      \<Longrightarrow> (\<And>v. - (2 ^ (LENGTH('a) - 1)) \<le> v \<Longrightarrow> v < 2 ^ (LENGTH('a) - 1) \<Longrightarrow> fits v = (0 \<le> v \<and> v \<le> 127))
      \<Longrightarrow> converts f sint char_value Error"
    "(\<And>x Result. f x Result = checked (fits (uint x)) (ucast x) Error Result)
      \<Longrightarrow> (\<And>v. 0 \<le> v \<Longrightarrow> v < 2 ^ LENGTH('a) \<Longrightarrow> fits v = (0 \<le> v \<and> v \<le> 127))
      \<Longrightarrow> converts f uint char_value Error"
  by (rule converts_checked, assumption, simp only: holds_iff casts word_ranges conj_assoc)+

lemma SafeInt8_converts:
  "converts SafeInt8ToUint8 sint unsigned_value UINT8_ERROR"
  "converts SafeInt8ToChar8 sint char_value CHAR8_ERROR"
  "converts SafeInt8ToUint16 sint unsigned_value UINT16_ERROR"
  "converts SafeInt8ToUint32 sint unsigned_value UINT32_ERROR"
  "converts SafeInt8ToUintn sint unsigned_value UINTN_ERROR"
  "converts SafeInt8ToUint64 sint unsigned_value UINT64_ERROR"
proof -
  show "converts SafeInt8ToUint8 sint unsigned_value UINT8_ERROR"
    by (rule converts_signed(2) [where fits = "\<lambda>v. 0 \<le> v"]) (auto simp: SafeInt8ToUint8_def checked_def limits native_errors)
  show "converts SafeInt8ToChar8 sint char_value CHAR8_ERROR"
    by (rule converts_char(1) [where fits = "\<lambda>v. 0 \<le> v"]) (auto simp: SafeInt8ToChar8_def checked_def limits native_errors)
  show "converts SafeInt8ToUint16 sint unsigned_value UINT16_ERROR"
    by (rule converts_signed(2) [where fits = "\<lambda>v. 0 \<le> v"]) (auto simp: SafeInt8ToUint16_def checked_def limits native_errors)
  show "converts SafeInt8ToUint32 sint unsigned_value UINT32_ERROR"
    by (rule converts_signed(2) [where fits = "\<lambda>v. 0 \<le> v"]) (auto simp: SafeInt8ToUint32_def checked_def limits native_errors)
  show "converts SafeInt8ToUintn sint unsigned_value UINTN_ERROR"
    by (rule converts_signed(2) [where fits = "\<lambda>v. 0 \<le> v"]) (auto simp: SafeInt8ToUintn_def checked_def limits native_errors)
  show "converts SafeInt8ToUint64 sint unsigned_value UINT64_ERROR"
    by (rule converts_signed(2) [where fits = "\<lambda>v. 0 \<le> v"]) (auto simp: SafeInt8ToUint64_def checked_def limits native_errors)
qed

lemma SafeUint8_converts:
  "converts SafeUint8ToInt8 uint signed_value INT8_ERROR"
  "converts SafeUint8ToChar8 uint char_value CHAR8_ERROR"
proof -
  show "converts SafeUint8ToInt8 uint signed_value INT8_ERROR"
    by (rule converts_unsigned(1) [where fits = "\<lambda>v. v \<le> sint MAX_INT8"]) (auto simp: SafeUint8ToInt8_def checked_def limits native_errors)
  show "converts SafeUint8ToChar8 uint char_value CHAR8_ERROR"
    by (rule converts_char(2) [where fits = "\<lambda>v. v \<le> sint MAX_INT8"]) (auto simp: SafeUint8ToChar8_def checked_def limits native_errors)
qed

lemma SafeInt16_converts:
  "converts SafeInt16ToInt8 sint signed_value INT8_ERROR"
  "converts SafeInt16ToChar8 sint char_value CHAR8_ERROR"
  "converts SafeInt16ToUint8 sint unsigned_value UINT8_ERROR"
  "converts SafeInt16ToUint16 sint unsigned_value UINT16_ERROR"
  "converts SafeInt16ToUint32 sint unsigned_value UINT32_ERROR"
  "converts SafeInt16ToUintn sint unsigned_value UINTN_ERROR"
  "converts SafeInt16ToUint64 sint unsigned_value UINT64_ERROR"
proof -
  show "converts SafeInt16ToInt8 sint signed_value INT8_ERROR"
    by (rule converts_signed(1) [where fits = "\<lambda>v. sint MIN_INT8 \<le> v \<and> v \<le> sint MAX_INT8"]) (auto simp: SafeInt16ToInt8_def checked_def limits native_errors)
  show "converts SafeInt16ToChar8 sint char_value CHAR8_ERROR"
    by (rule converts_char(1) [where fits = "\<lambda>v. 0 \<le> v \<and> v \<le> sint MAX_INT8"]) (auto simp: SafeInt16ToChar8_def checked_def limits native_errors)
  show "converts SafeInt16ToUint8 sint unsigned_value UINT8_ERROR"
    by (rule converts_signed(2) [where fits = "\<lambda>v. 0 \<le> v \<and> v \<le> uint MAX_UINT8"]) (auto simp: SafeInt16ToUint8_def checked_def limits native_errors)
  show "converts SafeInt16ToUint16 sint unsigned_value UINT16_ERROR"
    by (rule converts_signed(2) [where fits = "\<lambda>v. 0 \<le> v"]) (auto simp: SafeInt16ToUint16_def checked_def limits native_errors)
  show "converts SafeInt16ToUint32 sint unsigned_value UINT32_ERROR"
    by (rule converts_signed(2) [where fits = "\<lambda>v. 0 \<le> v"]) (auto simp: SafeInt16ToUint32_def checked_def limits native_errors)
  show "converts SafeInt16ToUintn sint unsigned_value UINTN_ERROR"
    by (rule converts_signed(2) [where fits = "\<lambda>v. 0 \<le> v"]) (auto simp: SafeInt16ToUintn_def checked_def limits native_errors)
  show "converts SafeInt16ToUint64 sint unsigned_value UINT64_ERROR"
    by (rule converts_signed(2) [where fits = "\<lambda>v. 0 \<le> v"]) (auto simp: SafeInt16ToUint64_def checked_def limits native_errors)
qed

lemma SafeUint16_converts:
  "converts SafeUint16ToInt8 uint signed_value INT8_ERROR"
  "converts SafeUint16ToChar8 uint char_value CHAR8_ERROR"
  "converts SafeUint16ToUint8 uint unsigned_value UINT8_ERROR"
  "converts SafeUint16ToInt16 uint signed_value INT16_ERROR"
proof -
  show "converts SafeUint16ToInt8 uint signed_value INT8_ERROR"
    by (rule converts_unsigned(1) [where fits = "\<lambda>v. v \<le> sint MAX_INT8"]) (auto simp: SafeUint16ToInt8_def checked_def limits native_errors)
  show "converts SafeUint16ToChar8 uint char_value CHAR8_ERROR"
    by (rule converts_char(2) [where fits = "\<lambda>v. v \<le> sint MAX_INT8"]) (auto simp: SafeUint16ToChar8_def checked_def limits native_errors)
  show "converts SafeUint16ToUint8 uint unsigned_value UINT8_ERROR"
    by (rule converts_unsigned(2) [where fits = "\<lambda>v. v \<le> uint MAX_UINT8"]) (auto simp: SafeUint16ToUint8_def checked_def limits native_errors)
  show "converts SafeUint16ToInt16 uint signed_value INT16_ERROR"
    by (rule converts_unsigned(1) [where fits = "\<lambda>v. v \<le> sint MAX_INT16"]) (auto simp: SafeUint16ToInt16_def checked_def limits native_errors)
qed

lemma SafeInt32_converts:
  "converts SafeInt32ToInt8 sint signed_value INT8_ERROR"
  "converts SafeInt32ToChar8 sint char_value CHAR8_ERROR"
  "converts SafeInt32ToUint8 sint unsigned_value UINT8_ERROR"
  "converts SafeInt32ToInt16 sint signed_value INT16_ERROR"
  "converts SafeInt32ToUint16 sint unsigned_value UINT16_ERROR"
  "converts SafeInt32ToUint32 sint unsigned_value UINT32_ERROR"
  "converts SafeInt32ToUint64 sint unsigned_value UINT64_ERROR"
  "converts SafeInt32ToUintn sint unsigned_value UINTN_ERROR"
proof -
  show "converts SafeInt32ToInt8 sint signed_value INT8_ERROR"
    by (rule converts_signed(1) [where fits = "\<lambda>v. sint MIN_INT8 \<le> v \<and> v \<le> sint MAX_INT8"]) (auto simp: SafeInt32ToInt8_def checked_def limits native_errors)
  show "converts SafeInt32ToChar8 sint char_value CHAR8_ERROR"
    by (rule converts_char(1) [where fits = "\<lambda>v. 0 \<le> v \<and> v \<le> sint MAX_INT8"]) (auto simp: SafeInt32ToChar8_def checked_def limits native_errors)
  show "converts SafeInt32ToUint8 sint unsigned_value UINT8_ERROR"
    by (rule converts_signed(2) [where fits = "\<lambda>v. 0 \<le> v \<and> v \<le> uint MAX_UINT8"]) (auto simp: SafeInt32ToUint8_def checked_def limits native_errors)
  show "converts SafeInt32ToInt16 sint signed_value INT16_ERROR"
    by (rule converts_signed(1) [where fits = "\<lambda>v. sint MIN_INT16 \<le> v \<and> v \<le> sint MAX_INT16"]) (auto simp: SafeInt32ToInt16_def checked_def limits native_errors)
  show "converts SafeInt32ToUint16 sint unsigned_value UINT16_ERROR"
    by (rule converts_signed(2) [where fits = "\<lambda>v. 0 \<le> v \<and> v \<le> uint MAX_UINT16"]) (auto simp: SafeInt32ToUint16_def checked_def limits native_errors)
  show "converts SafeInt32ToUint32 sint unsigned_value UINT32_ERROR"
    by (rule converts_signed(2) [where fits = "\<lambda>v. 0 \<le> v"]) (auto simp: SafeInt32ToUint32_def checked_def limits native_errors)
  show "converts SafeInt32ToUint64 sint unsigned_value UINT64_ERROR"
    by (rule converts_signed(2) [where fits = "\<lambda>v. 0 \<le> v"]) (auto simp: SafeInt32ToUint64_def checked_def limits native_errors)
  show "converts SafeInt32ToUintn sint unsigned_value UINTN_ERROR"
    by (rule converts_signed(2) [where fits = "\<lambda>v. 0 \<le> v"]) (auto simp: SafeInt32ToUintn_def SafeInt32ToUint64_def checked_def limits native_errors)
qed

lemma SafeUint32_converts:
  "converts SafeUint32ToInt8 uint signed_value INT8_ERROR"
  "converts SafeUint32ToChar8 uint char_value CHAR8_ERROR"
  "converts SafeUint32ToUint8 uint unsigned_value UINT8_ERROR"
  "converts SafeUint32ToInt16 uint signed_value INT16_ERROR"
  "converts SafeUint32ToUint16 uint unsigned_value UINT16_ERROR"
  "converts SafeUint32ToInt32 uint signed_value INT32_ERROR"
  "converts SafeUint32ToIntn uint signed_value INTN_ERROR"
proof -
  show "converts SafeUint32ToInt8 uint signed_value INT8_ERROR"
    by (rule converts_unsigned(1) [where fits = "\<lambda>v. v \<le> sint MAX_INT8"]) (auto simp: SafeUint32ToInt8_def checked_def limits native_errors)
  show "converts SafeUint32ToChar8 uint char_value CHAR8_ERROR"
    by (rule converts_char(2) [where fits = "\<lambda>v. v \<le> sint MAX_INT8"]) (auto simp: SafeUint32ToChar8_def checked_def limits native_errors)
  show "converts SafeUint32ToUint8 uint unsigned_value UINT8_ERROR"
    by (rule converts_unsigned(2) [where fits = "\<lambda>v. v \<le> uint MAX_UINT8"]) (auto simp: SafeUint32ToUint8_def checked_def limits native_errors)
  show "converts SafeUint32ToInt16 uint signed_value INT16_ERROR"
    by (rule converts_unsigned(1) [where fits = "\<lambda>v. v \<le> sint MAX_INT16"]) (auto simp: SafeUint32ToInt16_def checked_def limits native_errors)
  show "converts SafeUint32ToUint16 uint unsigned_value UINT16_ERROR"
    by (rule converts_unsigned(2) [where fits = "\<lambda>v. v \<le> uint MAX_UINT16"]) (auto simp: SafeUint32ToUint16_def checked_def limits native_errors)
  show "converts SafeUint32ToInt32 uint signed_value INT32_ERROR"
    by (rule converts_unsigned(1) [where fits = "\<lambda>v. v \<le> sint MAX_INT32"]) (auto simp: SafeUint32ToInt32_def checked_def limits native_errors)
  show "converts SafeUint32ToIntn uint signed_value INTN_ERROR"
    by (rule converts_unsigned(1) [where fits = "\<lambda>v. True"]) (auto simp: SafeUint32ToIntn_def checked_def limits native_errors)
qed

lemma SafeIntn_converts:
  "converts SafeIntnToInt8 sint signed_value INT8_ERROR"
  "converts SafeIntnToChar8 sint char_value CHAR8_ERROR"
  "converts SafeIntnToUint8 sint unsigned_value UINT8_ERROR"
  "converts SafeIntnToInt16 sint signed_value INT16_ERROR"
  "converts SafeIntnToUint16 sint unsigned_value UINT16_ERROR"
  "converts SafeIntnToUintn sint unsigned_value UINTN_ERROR"
  "converts SafeIntnToUint64 sint unsigned_value UINT64_ERROR"
  "converts SafeIntnToInt32 sint signed_value INT32_ERROR"
  "converts SafeIntnToUint32 sint unsigned_value UINT32_ERROR"
proof -
  show "converts SafeIntnToInt8 sint signed_value INT8_ERROR"
    by (rule converts_signed(1) [where fits = "\<lambda>v. sint MIN_INT8 \<le> v \<and> v \<le> sint MAX_INT8"]) (auto simp: SafeIntnToInt8_def checked_def limits native_errors)
  show "converts SafeIntnToChar8 sint char_value CHAR8_ERROR"
    by (rule converts_char(1) [where fits = "\<lambda>v. 0 \<le> v \<and> v \<le> sint MAX_INT8"]) (auto simp: SafeIntnToChar8_def checked_def limits native_errors)
  show "converts SafeIntnToUint8 sint unsigned_value UINT8_ERROR"
    by (rule converts_signed(2) [where fits = "\<lambda>v. 0 \<le> v \<and> v \<le> uint MAX_UINT8"]) (auto simp: SafeIntnToUint8_def checked_def limits native_errors)
  show "converts SafeIntnToInt16 sint signed_value INT16_ERROR"
    by (rule converts_signed(1) [where fits = "\<lambda>v. sint MIN_INT16 \<le> v \<and> v \<le> sint MAX_INT16"]) (auto simp: SafeIntnToInt16_def checked_def limits native_errors)
  show "converts SafeIntnToUint16 sint unsigned_value UINT16_ERROR"
    by (rule converts_signed(2) [where fits = "\<lambda>v. 0 \<le> v \<and> v \<le> uint MAX_UINT16"]) (auto simp: SafeIntnToUint16_def checked_def limits native_errors)
  show "converts SafeIntnToUintn sint unsigned_value UINTN_ERROR"
    by (rule converts_signed(2) [where fits = "\<lambda>v. 0 \<le> v"]) (auto simp: SafeIntnToUintn_def checked_def limits native_errors)
  show "converts SafeIntnToUint64 sint unsigned_value UINT64_ERROR"
    by (rule converts_signed(2) [where fits = "\<lambda>v. 0 \<le> v"]) (auto simp: SafeIntnToUint64_def checked_def limits native_errors)
  show "converts SafeIntnToInt32 sint signed_value INT32_ERROR"
    by (rule converts_signed(1) [where fits = "\<lambda>v. sint MIN_INT32 \<le> v \<and> v \<le> sint MAX_INT32"]) (auto simp: SafeIntnToInt32_def SafeInt64ToInt32_def checked_def limits native_errors)
  show "converts SafeIntnToUint32 sint unsigned_value UINT32_ERROR"
    by (rule converts_signed(2) [where fits = "\<lambda>v. 0 \<le> v \<and> v \<le> uint MAX_UINT32"]) (auto simp: SafeIntnToUint32_def SafeInt64ToUint32_def checked_def limits native_errors)
qed

lemma SafeUintn_converts:
  "converts SafeUintnToInt8 uint signed_value INT8_ERROR"
  "converts SafeUintnToChar8 uint char_value CHAR8_ERROR"
  "converts SafeUintnToUint8 uint unsigned_value UINT8_ERROR"
  "converts SafeUintnToInt16 uint signed_value INT16_ERROR"
  "converts SafeUintnToUint16 uint unsigned_value UINT16_ERROR"
  "converts SafeUintnToInt32 uint signed_value INT32_ERROR"
  "converts SafeUintnToIntn uint signed_value INTN_ERROR"
  "converts SafeUintnToUint32 uint unsigned_value UINT32_ERROR"
  "converts SafeUintnToInt64 uint signed_value INT64_ERROR"
proof -
  show "converts SafeUintnToInt8 uint signed_value INT8_ERROR"
    by (rule converts_unsigned(1) [where fits = "\<lambda>v. v \<le> sint MAX_INT8"]) (auto simp: SafeUintnToInt8_def checked_def limits native_errors)
  show "converts SafeUintnToChar8 uint char_value CHAR8_ERROR"
    by (rule converts_char(2) [where fits = "\<lambda>v. v \<le> sint MAX_INT8"]) (auto simp: SafeUintnToChar8_def checked_def limits native_errors)
  show "converts SafeUintnToUint8 uint unsigned_value UINT8_ERROR"
    by (rule converts_unsigned(2) [where fits = "\<lambda>v. v \<le> uint MAX_UINT8"]) (auto simp: SafeUintnToUint8_def checked_def limits native_errors)
  show "converts SafeUintnToInt16 uint signed_value INT16_ERROR"
    by (rule converts_unsigned(1) [where fits = "\<lambda>v. v \<le> sint MAX_INT16"]) (auto simp: SafeUintnToInt16_def checked_def limits native_errors)
  show "converts SafeUintnToUint16 uint unsigned_value UINT16_ERROR"
    by (rule converts_unsigned(2) [where fits = "\<lambda>v. v \<le> uint MAX_UINT16"]) (auto simp: SafeUintnToUint16_def checked_def limits native_errors)
  show "converts SafeUintnToInt32 uint signed_value INT32_ERROR"
    by (rule converts_unsigned(1) [where fits = "\<lambda>v. v \<le> sint MAX_INT32"]) (auto simp: SafeUintnToInt32_def checked_def limits native_errors)
  show "converts SafeUintnToIntn uint signed_value INTN_ERROR"
    by (rule converts_unsigned(1) [where fits = "\<lambda>v. v \<le> sint MAX_INTN"]) (auto simp: SafeUintnToIntn_def checked_def limits native_errors)
  show "converts SafeUintnToUint32 uint unsigned_value UINT32_ERROR"
    by (rule converts_unsigned(2) [where fits = "\<lambda>v. v \<le> uint MAX_UINT32"]) (auto simp: SafeUintnToUint32_def SafeUint64ToUint32_def checked_def limits native_errors)
  show "converts SafeUintnToInt64 uint signed_value INT64_ERROR"
    by (rule converts_unsigned(1) [where fits = "\<lambda>v. v \<le> sint MAX_INT64"]) (auto simp: SafeUintnToInt64_def SafeUint64ToInt64_def checked_def limits native_errors)
qed

lemma SafeInt64_converts:
  "converts SafeInt64ToInt8 sint signed_value INT8_ERROR"
  "converts SafeInt64ToChar8 sint char_value CHAR8_ERROR"
  "converts SafeInt64ToUint8 sint unsigned_value UINT8_ERROR"
  "converts SafeInt64ToInt16 sint signed_value INT16_ERROR"
  "converts SafeInt64ToUint16 sint unsigned_value UINT16_ERROR"
  "converts SafeInt64ToInt32 sint signed_value INT32_ERROR"
  "converts SafeInt64ToUint32 sint unsigned_value UINT32_ERROR"
  "converts SafeInt64ToUint64 sint unsigned_value UINT64_ERROR"
  "converts SafeInt64ToIntn sint signed_value INTN_ERROR"
  "converts SafeInt64ToUintn sint unsigned_value UINTN_ERROR"
proof -
  show "converts SafeInt64ToInt8 sint signed_value INT8_ERROR"
    by (rule converts_signed(1) [where fits = "\<lambda>v. sint MIN_INT8 \<le> v \<and> v \<le> sint MAX_INT8"]) (auto simp: SafeInt64ToInt8_def checked_def limits native_errors)
  show "converts SafeInt64ToChar8 sint char_value CHAR8_ERROR"
    by (rule converts_char(1) [where fits = "\<lambda>v. 0 \<le> v \<and> v \<le> sint MAX_INT8"]) (auto simp: SafeInt64ToChar8_def checked_def limits native_errors)
  show "converts SafeInt64ToUint8 sint unsigned_value UINT8_ERROR"
    by (rule converts_signed(2) [where fits = "\<lambda>v. 0 \<le> v \<and> v \<le> uint MAX_UINT8"]) (auto simp: SafeInt64ToUint8_def checked_def limits native_errors)
  show "converts SafeInt64ToInt16 sint signed_value INT16_ERROR"
    by (rule converts_signed(1) [where fits = "\<lambda>v. sint MIN_INT16 \<le> v \<and> v \<le> sint MAX_INT16"]) (auto simp: SafeInt64ToInt16_def checked_def limits native_errors)
  show "converts SafeInt64ToUint16 sint unsigned_value UINT16_ERROR"
    by (rule converts_signed(2) [where fits = "\<lambda>v. 0 \<le> v \<and> v \<le> uint MAX_UINT16"]) (auto simp: SafeInt64ToUint16_def checked_def limits native_errors)
  show "converts SafeInt64ToInt32 sint signed_value INT32_ERROR"
    by (rule converts_signed(1) [where fits = "\<lambda>v. sint MIN_INT32 \<le> v \<and> v \<le> sint MAX_INT32"]) (auto simp: SafeInt64ToInt32_def checked_def limits native_errors)
  show "converts SafeInt64ToUint32 sint unsigned_value UINT32_ERROR"
    by (rule converts_signed(2) [where fits = "\<lambda>v. 0 \<le> v \<and> v \<le> uint MAX_UINT32"]) (auto simp: SafeInt64ToUint32_def checked_def limits native_errors)
  show "converts SafeInt64ToUint64 sint unsigned_value UINT64_ERROR"
    by (rule converts_signed(2) [where fits = "\<lambda>v. 0 \<le> v"]) (auto simp: SafeInt64ToUint64_def checked_def limits native_errors)
  show "converts SafeInt64ToIntn sint signed_value INTN_ERROR"
    by (rule converts_signed(1) [where fits = "\<lambda>v. True"]) (auto simp: SafeInt64ToIntn_def checked_def limits native_errors)
  show "converts SafeInt64ToUintn sint unsigned_value UINTN_ERROR"
    by (rule converts_signed(2) [where fits = "\<lambda>v. 0 \<le> v"]) (auto simp: SafeInt64ToUintn_def SafeInt64ToUint64_def checked_def limits native_errors)
qed

lemma SafeUint64_converts:
  "converts SafeUint64ToInt8 uint signed_value INT8_ERROR"
  "converts SafeUint64ToChar8 uint char_value CHAR8_ERROR"
  "converts SafeUint64ToUint8 uint unsigned_value UINT8_ERROR"
  "converts SafeUint64ToInt16 uint signed_value INT16_ERROR"
  "converts SafeUint64ToUint16 uint unsigned_value UINT16_ERROR"
  "converts SafeUint64ToInt32 uint signed_value INT32_ERROR"
  "converts SafeUint64ToUint32 uint unsigned_value UINT32_ERROR"
  "converts SafeUint64ToIntn uint signed_value INTN_ERROR"
  "converts SafeUint64ToInt64 uint signed_value INT64_ERROR"
  "converts SafeUint64ToUintn uint unsigned_value UINTN_ERROR"
proof -
  show "converts SafeUint64ToInt8 uint signed_value INT8_ERROR"
    by (rule converts_unsigned(1) [where fits = "\<lambda>v. v \<le> sint MAX_INT8"]) (auto simp: SafeUint64ToInt8_def checked_def limits native_errors)
  show "converts SafeUint64ToChar8 uint char_value CHAR8_ERROR"
    by (rule converts_char(2) [where fits = "\<lambda>v. v \<le> sint MAX_INT8"]) (auto simp: SafeUint64ToChar8_def checked_def limits native_errors)
  show "converts SafeUint64ToUint8 uint unsigned_value UINT8_ERROR"
    by (rule converts_unsigned(2) [where fits = "\<lambda>v. v \<le> uint MAX_UINT8"]) (auto simp: SafeUint64ToUint8_def checked_def limits native_errors)
  show "converts SafeUint64ToInt16 uint signed_value INT16_ERROR"
    by (rule converts_unsigned(1) [where fits = "\<lambda>v. v \<le> sint MAX_INT16"]) (auto simp: SafeUint64ToInt16_def checked_def limits native_errors)
  show "converts SafeUint64ToUint16 uint unsigned_value UINT16_ERROR"
    by (rule converts_unsigned(2) [where fits = "\<lambda>v. v \<le> uint MAX_UINT16"]) (auto simp: SafeUint64ToUint16_def checked_def limits native_errors)
  show "converts SafeUint64ToInt32 uint signed_value INT32_ERROR"
    by (rule converts_unsigned(1) [where fits = "\<lambda>v. v \<le> sint MAX_INT32"]) (auto simp: SafeUint64ToInt32_def checked_def limits native_errors)
  show "converts SafeUint64ToUint32 uint unsigned_value UINT32_ERROR"
    by (rule converts_unsigned(2) [where fits = "\<lambda>v. v \<le> uint MAX_UINT32"]) (auto simp: SafeUint64ToUint32_def checked_def limits native_errors)
  show "converts SafeUint64ToIntn uint signed_value INTN_ERROR"
    by (rule converts_unsigned(1) [where fits = "\<lambda>v. v \<le> sint MAX_INTN"]) (auto simp: SafeUint64ToIntn_def checked_def limits native_errors)
  show "converts SafeUint64ToInt64 uint signed_value INT64_ERROR"
    by (rule converts_unsigned(1) [where fits = "\<lambda>v. v \<le> sint MAX_INT64"]) (auto simp: SafeUint64ToInt64_def checked_def limits native_errors)
  show "converts SafeUint64ToUintn uint unsigned_value UINTN_ERROR"
    by (rule converts_unsigned(2) [where fits = "\<lambda>v. True"]) (auto simp: SafeUint64ToUintn_def checked_def limits native_errors)
qed

text \<open>
  C28. The checked conversions are exact: for every operand a conversion succeeds exactly when the result type can hold its
  value, and then stores a word with that value; otherwise it stores the error value of the type and returns
  \<open>RETURN_BUFFER_TOO_SMALL\<close>, and \<open>RETURN_INVALID_PARAMETER\<close> for a null pointer.
\<close>

theorem SafeInt_conversions_exact:
  "converts SafeInt8ToUint8 sint unsigned_value UINT8_ERROR
    \<and> converts SafeInt8ToChar8 sint char_value CHAR8_ERROR
    \<and> converts SafeInt8ToUint16 sint unsigned_value UINT16_ERROR
    \<and> converts SafeInt8ToUint32 sint unsigned_value UINT32_ERROR
    \<and> converts SafeInt8ToUintn sint unsigned_value UINTN_ERROR
    \<and> converts SafeInt8ToUint64 sint unsigned_value UINT64_ERROR
    \<and> converts SafeUint8ToInt8 uint signed_value INT8_ERROR
    \<and> converts SafeUint8ToChar8 uint char_value CHAR8_ERROR
    \<and> converts SafeInt16ToInt8 sint signed_value INT8_ERROR
    \<and> converts SafeInt16ToChar8 sint char_value CHAR8_ERROR
    \<and> converts SafeInt16ToUint8 sint unsigned_value UINT8_ERROR
    \<and> converts SafeInt16ToUint16 sint unsigned_value UINT16_ERROR
    \<and> converts SafeInt16ToUint32 sint unsigned_value UINT32_ERROR
    \<and> converts SafeInt16ToUintn sint unsigned_value UINTN_ERROR
    \<and> converts SafeInt16ToUint64 sint unsigned_value UINT64_ERROR
    \<and> converts SafeUint16ToInt8 uint signed_value INT8_ERROR
    \<and> converts SafeUint16ToChar8 uint char_value CHAR8_ERROR
    \<and> converts SafeUint16ToUint8 uint unsigned_value UINT8_ERROR
    \<and> converts SafeUint16ToInt16 uint signed_value INT16_ERROR
    \<and> converts SafeInt32ToInt8 sint signed_value INT8_ERROR
    \<and> converts SafeInt32ToChar8 sint char_value CHAR8_ERROR
    \<and> converts SafeInt32ToUint8 sint unsigned_value UINT8_ERROR
    \<and> converts SafeInt32ToInt16 sint signed_value INT16_ERROR
    \<and> converts SafeInt32ToUint16 sint unsigned_value UINT16_ERROR
    \<and> converts SafeInt32ToUint32 sint unsigned_value UINT32_ERROR
    \<and> converts SafeInt32ToUint64 sint unsigned_value UINT64_ERROR
    \<and> converts SafeUint32ToInt8 uint signed_value INT8_ERROR
    \<and> converts SafeUint32ToChar8 uint char_value CHAR8_ERROR
    \<and> converts SafeUint32ToUint8 uint unsigned_value UINT8_ERROR
    \<and> converts SafeUint32ToInt16 uint signed_value INT16_ERROR
    \<and> converts SafeUint32ToUint16 uint unsigned_value UINT16_ERROR
    \<and> converts SafeUint32ToInt32 uint signed_value INT32_ERROR
    \<and> converts SafeIntnToInt8 sint signed_value INT8_ERROR
    \<and> converts SafeIntnToChar8 sint char_value CHAR8_ERROR
    \<and> converts SafeIntnToUint8 sint unsigned_value UINT8_ERROR
    \<and> converts SafeIntnToInt16 sint signed_value INT16_ERROR
    \<and> converts SafeIntnToUint16 sint unsigned_value UINT16_ERROR
    \<and> converts SafeIntnToUintn sint unsigned_value UINTN_ERROR
    \<and> converts SafeIntnToUint64 sint unsigned_value UINT64_ERROR
    \<and> converts SafeUintnToInt8 uint signed_value INT8_ERROR
    \<and> converts SafeUintnToChar8 uint char_value CHAR8_ERROR
    \<and> converts SafeUintnToUint8 uint unsigned_value UINT8_ERROR
    \<and> converts SafeUintnToInt16 uint signed_value INT16_ERROR
    \<and> converts SafeUintnToUint16 uint unsigned_value UINT16_ERROR
    \<and> converts SafeUintnToInt32 uint signed_value INT32_ERROR
    \<and> converts SafeUintnToIntn uint signed_value INTN_ERROR
    \<and> converts SafeInt64ToInt8 sint signed_value INT8_ERROR
    \<and> converts SafeInt64ToChar8 sint char_value CHAR8_ERROR
    \<and> converts SafeInt64ToUint8 sint unsigned_value UINT8_ERROR
    \<and> converts SafeInt64ToInt16 sint signed_value INT16_ERROR
    \<and> converts SafeInt64ToUint16 sint unsigned_value UINT16_ERROR
    \<and> converts SafeInt64ToInt32 sint signed_value INT32_ERROR
    \<and> converts SafeInt64ToUint32 sint unsigned_value UINT32_ERROR
    \<and> converts SafeInt64ToUint64 sint unsigned_value UINT64_ERROR
    \<and> converts SafeUint64ToInt8 uint signed_value INT8_ERROR
    \<and> converts SafeUint64ToChar8 uint char_value CHAR8_ERROR
    \<and> converts SafeUint64ToUint8 uint unsigned_value UINT8_ERROR
    \<and> converts SafeUint64ToInt16 uint signed_value INT16_ERROR
    \<and> converts SafeUint64ToUint16 uint unsigned_value UINT16_ERROR
    \<and> converts SafeUint64ToInt32 uint signed_value INT32_ERROR
    \<and> converts SafeUint64ToUint32 uint unsigned_value UINT32_ERROR
    \<and> converts SafeUint64ToIntn uint signed_value INTN_ERROR
    \<and> converts SafeUint64ToInt64 uint signed_value INT64_ERROR
    \<and> converts SafeInt32ToUintn sint unsigned_value UINTN_ERROR
    \<and> converts SafeUint32ToIntn uint signed_value INTN_ERROR
    \<and> converts SafeIntnToInt32 sint signed_value INT32_ERROR
    \<and> converts SafeIntnToUint32 sint unsigned_value UINT32_ERROR
    \<and> converts SafeUintnToUint32 uint unsigned_value UINT32_ERROR
    \<and> converts SafeUintnToInt64 uint signed_value INT64_ERROR
    \<and> converts SafeInt64ToIntn sint signed_value INTN_ERROR
    \<and> converts SafeInt64ToUintn sint unsigned_value UINTN_ERROR
    \<and> converts SafeUint64ToUintn uint unsigned_value UINTN_ERROR"
  by (simp add: SafeInt8_converts SafeUint8_converts SafeInt16_converts SafeUint16_converts SafeInt32_converts
      SafeUint32_converts SafeIntn_converts SafeUintn_converts SafeInt64_converts SafeUint64_converts)

end
