(* ===== verification/Safe_Arith.thy ===== *)
theory Safe_Arith
  imports Safe_Int Bit_Field
begin

unbundle bit_operations_syntax

text \<open>
  Checked addition, subtraction and multiplication (\<open>src/MdePkg/Library/BaseSafeIntLib\<close>) on top of the conversions of
  \<open>Safe_Int\<close>.  An operation on signed C integers that overflows is undefined behaviour and has the value \<open>None\<close>.  Whether \<open>CHAR8\<close>
  is a signed type depends on the compiler and is the parameter \<open>char_num\<close>, which reads a character as a number.
\<close>

section \<open>Signed C arithmetic\<close>

definition c_signed :: "int \<Rightarrow> 'a::len word option" where
  "c_signed v = (if - (2 ^ (LENGTH('a) - 1)) \<le> v \<and> v < 2 ^ (LENGTH('a) - 1) then Some (word_of_int v) else None)"

definition c_add :: "'a::len word \<Rightarrow> 'a word \<Rightarrow> 'a word option" where
  "c_add x y = c_signed (sint x + sint y)"

definition c_sub :: "'a::len word \<Rightarrow> 'a word \<Rightarrow> 'a word option" where
  "c_sub x y = c_signed (sint x - sint y)"

definition c_mult :: "'a::len word \<Rightarrow> 'a word \<Rightarrow> 'a word option" where
  "c_mult x y = c_signed (sint x * sint y)"

definition c_neg :: "'a::len word \<Rightarrow> 'a word option" where
  "c_neg x = c_signed (- sint x)"

text \<open>The address of a local variable, and its value after a call that may have stored to it.\<close>

definition LOCAL :: ptr where
  "LOCAL = 1"

definition stored :: "'a \<Rightarrow> 'a option \<Rightarrow> 'a" where
  "stored Old Store = (case Store of None \<Rightarrow> Old | Some New \<Rightarrow> New)"

section \<open>Unsigned operations\<close>

definition InternalMathMultU64x64 :: "UINT64 \<Rightarrow> UINT64 \<Rightarrow> UINT64" where
  "InternalMathMultU64x64 Multiplicand Multiplier = Multiplicand * Multiplier"

definition MultU64x64 :: "UINT64 \<Rightarrow> UINT64 \<Rightarrow> UINT64" where
  "MultU64x64 Multiplicand Multiplier = InternalMathMultU64x64 Multiplicand Multiplier"

definition MultS64x64 :: "INT64 \<Rightarrow> INT64 \<Rightarrow> INT64" where
  "MultS64x64 Multiplicand Multiplier = MultU64x64 Multiplicand Multiplier"

definition SafeUint8Add :: "UINT8 \<Rightarrow> UINT8 \<Rightarrow> ptr \<Rightarrow> UINT8 RESULT" where
  "SafeUint8Add Augend Addend Result = (
     if Result = NULL then (RETURN_INVALID_PARAMETER, None)
     else if Augend + Addend \<ge> Augend then (RETURN_SUCCESS, Some (Augend + Addend))
     else (RETURN_BUFFER_TOO_SMALL, Some UINT8_ERROR))"

definition SafeUint16Add :: "UINT16 \<Rightarrow> UINT16 \<Rightarrow> ptr \<Rightarrow> UINT16 RESULT" where
  "SafeUint16Add Augend Addend Result = (
     if Result = NULL then (RETURN_INVALID_PARAMETER, None)
     else if Augend + Addend \<ge> Augend then (RETURN_SUCCESS, Some (Augend + Addend))
     else (RETURN_BUFFER_TOO_SMALL, Some UINT16_ERROR))"

definition SafeUint32Add :: "UINT32 \<Rightarrow> UINT32 \<Rightarrow> ptr \<Rightarrow> UINT32 RESULT" where
  "SafeUint32Add Augend Addend Result = (
     if Result = NULL then (RETURN_INVALID_PARAMETER, None)
     else if Augend + Addend \<ge> Augend then (RETURN_SUCCESS, Some (Augend + Addend))
     else (RETURN_BUFFER_TOO_SMALL, Some UINT32_ERROR))"

definition SafeUint64Add :: "UINT64 \<Rightarrow> UINT64 \<Rightarrow> ptr \<Rightarrow> UINT64 RESULT" where
  "SafeUint64Add Augend Addend Result = (
     if Result = NULL then (RETURN_INVALID_PARAMETER, None)
     else if Augend + Addend \<ge> Augend then (RETURN_SUCCESS, Some (Augend + Addend))
     else (RETURN_BUFFER_TOO_SMALL, Some UINT64_ERROR))"

definition SafeUint8Sub :: "UINT8 \<Rightarrow> UINT8 \<Rightarrow> ptr \<Rightarrow> UINT8 RESULT" where
  "SafeUint8Sub Minuend Subtrahend Result = (
     if Result = NULL then (RETURN_INVALID_PARAMETER, None)
     else if Minuend \<ge> Subtrahend then (RETURN_SUCCESS, Some (Minuend - Subtrahend))
     else (RETURN_BUFFER_TOO_SMALL, Some UINT8_ERROR))"

definition SafeUint16Sub :: "UINT16 \<Rightarrow> UINT16 \<Rightarrow> ptr \<Rightarrow> UINT16 RESULT" where
  "SafeUint16Sub Minuend Subtrahend Result = (
     if Result = NULL then (RETURN_INVALID_PARAMETER, None)
     else if Minuend \<ge> Subtrahend then (RETURN_SUCCESS, Some (Minuend - Subtrahend))
     else (RETURN_BUFFER_TOO_SMALL, Some UINT16_ERROR))"

definition SafeUint32Sub :: "UINT32 \<Rightarrow> UINT32 \<Rightarrow> ptr \<Rightarrow> UINT32 RESULT" where
  "SafeUint32Sub Minuend Subtrahend Result = (
     if Result = NULL then (RETURN_INVALID_PARAMETER, None)
     else if Minuend \<ge> Subtrahend then (RETURN_SUCCESS, Some (Minuend - Subtrahend))
     else (RETURN_BUFFER_TOO_SMALL, Some UINT32_ERROR))"

definition SafeUint64Sub :: "UINT64 \<Rightarrow> UINT64 \<Rightarrow> ptr \<Rightarrow> UINT64 RESULT" where
  "SafeUint64Sub Minuend Subtrahend Result = (
     if Result = NULL then (RETURN_INVALID_PARAMETER, None)
     else if Minuend \<ge> Subtrahend then (RETURN_SUCCESS, Some (Minuend - Subtrahend))
     else (RETURN_BUFFER_TOO_SMALL, Some UINT64_ERROR))"

definition SafeUint8Mult :: "UINT8 \<Rightarrow> UINT8 \<Rightarrow> ptr \<Rightarrow> UINT8 RESULT" where
  "SafeUint8Mult Multiplicand Multiplier Result = (
     let IntermediateResult = (ucast Multiplicand :: UINT32) * ucast Multiplier
     in SafeUint32ToUint8 IntermediateResult Result)"

definition SafeUint16Mult :: "UINT16 \<Rightarrow> UINT16 \<Rightarrow> ptr \<Rightarrow> UINT16 RESULT" where
  "SafeUint16Mult Multiplicand Multiplier Result = (
     let IntermediateResult = (ucast Multiplicand :: UINT32) * ucast Multiplier
     in SafeUint32ToUint16 IntermediateResult Result)"

definition SafeUint32Mult :: "UINT32 \<Rightarrow> UINT32 \<Rightarrow> ptr \<Rightarrow> UINT32 RESULT" where
  "SafeUint32Mult Multiplicand Multiplier Result = (
     let IntermediateResult = (ucast Multiplicand :: UINT64) * ucast Multiplier
     in SafeUint64ToUint32 IntermediateResult Result)"

definition SafeUint64Mult :: "UINT64 \<Rightarrow> UINT64 \<Rightarrow> ptr \<Rightarrow> UINT64 RESULT option" where
  "SafeUint64Mult Multiplicand Multiplier Result = (
     if Result = NULL then Some (RETURN_INVALID_PARAMETER, None)
     else do {
       HighA \<leftarrow> RShiftU64 Multiplicand 32;
       let DwordA = (ucast HighA :: UINT32);
       HighC \<leftarrow> RShiftU64 Multiplier 32;
       let DwordC = (ucast HighC :: UINT32);
       let DwordB = (ucast Multiplicand :: UINT32);
       let DwordD = (ucast Multiplier :: UINT32);
       if DwordA = 0 \<and> DwordC = 0 then Some (RETURN_SUCCESS, Some (ucast DwordB * ucast DwordD))
       else if DwordA = 0 \<or> DwordC = 0 then do {
         let ProductAD = MultU64x64 (ucast DwordA) (ucast DwordD);
         if ProductAD AND 0xFFFFFFFF00000000 = 0 then do {
           let ProductBC = MultU64x64 (ucast DwordB) (ucast DwordC);
           if ProductBC AND 0xFFFFFFFF00000000 = 0 then do {
             ShiftedBC \<leftarrow> LShiftU64 ProductBC 32;
             ShiftedAD \<leftarrow> LShiftU64 ProductAD 32;
             let (Status, Store) = SafeUint64Add ShiftedBC ShiftedAD LOCAL;
             let UnsignedResult = stored 0 Store;
             if \<not> RETURN_ERROR Status then do {
               let ProductBD = MultU64x64 (ucast DwordB) (ucast DwordD);
               let (Status, Store) = SafeUint64Add UnsignedResult ProductBD LOCAL;
               let UnsignedResult = stored UnsignedResult Store;
               if \<not> RETURN_ERROR Status then Some (RETURN_SUCCESS, Some UnsignedResult)
               else Some (RETURN_BUFFER_TOO_SMALL, Some UINT64_ERROR)
             } else Some (RETURN_BUFFER_TOO_SMALL, Some UINT64_ERROR)
           } else Some (RETURN_BUFFER_TOO_SMALL, Some UINT64_ERROR)
         } else Some (RETURN_BUFFER_TOO_SMALL, Some UINT64_ERROR)
       } else Some (RETURN_BUFFER_TOO_SMALL, Some UINT64_ERROR)
     })"

section \<open>Signed operations\<close>

definition SafeInt8Add :: "INT8 \<Rightarrow> INT8 \<Rightarrow> ptr \<Rightarrow> INT8 RESULT option" where
  "SafeInt8Add Augend Addend Result = do {
     Value \<leftarrow> c_add (scast Augend :: INT32) (scast Addend);
     Some (SafeInt32ToInt8 Value Result)
   }"

definition SafeChar8Add :: "(CHAR8 \<Rightarrow> int) \<Rightarrow> CHAR8 \<Rightarrow> CHAR8 \<Rightarrow> ptr \<Rightarrow> CHAR8 RESULT option" where
  "SafeChar8Add char_num Augend Addend Result = (
     if Result = NULL then Some (RETURN_INVALID_PARAMETER, None)
     else let Augend32 = (word_of_int (char_num Augend) :: INT32); Addend32 = (word_of_int (char_num Addend) :: INT32) in
       if sint Augend32 < 0 \<or> sint Augend32 > sint MAX_INT8 then Some (RETURN_BUFFER_TOO_SMALL, Some CHAR8_ERROR)
       else if sint Addend32 < 0 \<or> sint Addend32 > sint MAX_INT8 then Some (RETURN_BUFFER_TOO_SMALL, Some CHAR8_ERROR)
       else do {
         Value \<leftarrow> c_add Augend32 Addend32;
         Some (SafeInt32ToChar8 Value Result)
       })"

definition SafeInt16Add :: "INT16 \<Rightarrow> INT16 \<Rightarrow> ptr \<Rightarrow> INT16 RESULT option" where
  "SafeInt16Add Augend Addend Result = do {
     Value \<leftarrow> c_add (scast Augend :: INT32) (scast Addend);
     Some (SafeInt32ToInt16 Value Result)
   }"

definition SafeInt32Add :: "INT32 \<Rightarrow> INT32 \<Rightarrow> ptr \<Rightarrow> INT32 RESULT option" where
  "SafeInt32Add Augend Addend Result = do {
     Value \<leftarrow> c_add (scast Augend :: INT64) (scast Addend);
     Some (SafeInt64ToInt32 Value Result)
   }"

definition SafeInt64Add :: "INT64 \<Rightarrow> INT64 \<Rightarrow> ptr \<Rightarrow> INT64 RESULT option" where
  "SafeInt64Add Augend Addend Result = (
     if Result = NULL then Some (RETURN_INVALID_PARAMETER, None)
     else do {
       Overflow \<leftarrow> (if sint Addend > 0 then do { Limit \<leftarrow> c_sub MAX_INT64 Addend; Some (sint Augend > sint Limit) } else Some False);
       Underflow \<leftarrow> (if Overflow then Some True
         else if sint Addend < 0 then do { Limit \<leftarrow> c_sub MIN_INT64 Addend; Some (sint Augend < sint Limit) } else Some False);
       if Underflow then Some (RETURN_BUFFER_TOO_SMALL, Some INT64_ERROR)
       else do { Value \<leftarrow> c_add Augend Addend; Some (RETURN_SUCCESS, Some Value) }
     })"

definition SafeInt8Sub :: "INT8 \<Rightarrow> INT8 \<Rightarrow> ptr \<Rightarrow> INT8 RESULT option" where
  "SafeInt8Sub Minuend Subtrahend Result = do {
     Value \<leftarrow> c_sub (scast Minuend :: INT32) (scast Subtrahend);
     Some (SafeInt32ToInt8 Value Result)
   }"

definition SafeChar8Sub :: "(CHAR8 \<Rightarrow> int) \<Rightarrow> CHAR8 \<Rightarrow> CHAR8 \<Rightarrow> ptr \<Rightarrow> CHAR8 RESULT option" where
  "SafeChar8Sub char_num Minuend Subtrahend Result = (
     if Result = NULL then Some (RETURN_INVALID_PARAMETER, None)
     else let Minuend32 = (word_of_int (char_num Minuend) :: INT32); Subtrahend32 = (word_of_int (char_num Subtrahend) :: INT32) in
       if sint Minuend32 < 0 \<or> sint Minuend32 > sint MAX_INT8 then Some (RETURN_BUFFER_TOO_SMALL, Some CHAR8_ERROR)
       else if sint Subtrahend32 < 0 \<or> sint Subtrahend32 > sint MAX_INT8 then Some (RETURN_BUFFER_TOO_SMALL, Some CHAR8_ERROR)
       else do {
         Value \<leftarrow> c_sub Minuend32 Subtrahend32;
         Some (SafeInt32ToChar8 Value Result)
       })"

definition SafeInt16Sub :: "INT16 \<Rightarrow> INT16 \<Rightarrow> ptr \<Rightarrow> INT16 RESULT option" where
  "SafeInt16Sub Minuend Subtrahend Result = do {
     Value \<leftarrow> c_sub (scast Minuend :: INT32) (scast Subtrahend);
     Some (SafeInt32ToInt16 Value Result)
   }"

definition SafeInt32Sub :: "INT32 \<Rightarrow> INT32 \<Rightarrow> ptr \<Rightarrow> INT32 RESULT option" where
  "SafeInt32Sub Minuend Subtrahend Result = do {
     Value \<leftarrow> c_sub (scast Minuend :: INT64) (scast Subtrahend);
     Some (SafeInt64ToInt32 Value Result)
   }"

definition SafeInt64Sub :: "INT64 \<Rightarrow> INT64 \<Rightarrow> ptr \<Rightarrow> INT64 RESULT option" where
  "SafeInt64Sub Minuend Subtrahend Result = (
     if Result = NULL then Some (RETURN_INVALID_PARAMETER, None)
     else do {
       Underflow \<leftarrow> (if sint Subtrahend > 0 then do { Limit \<leftarrow> c_add MIN_INT64 Subtrahend; Some (sint Minuend < sint Limit) } else Some False);
       Overflow \<leftarrow> (if Underflow then Some True
         else if sint Subtrahend < 0 then do { Limit \<leftarrow> c_add MAX_INT64 Subtrahend; Some (sint Minuend > sint Limit) } else Some False);
       if Overflow then Some (RETURN_BUFFER_TOO_SMALL, Some INT64_ERROR)
       else do { Value \<leftarrow> c_sub Minuend Subtrahend; Some (RETURN_SUCCESS, Some Value) }
     })"

definition SafeInt8Mult :: "INT8 \<Rightarrow> INT8 \<Rightarrow> ptr \<Rightarrow> INT8 RESULT option" where
  "SafeInt8Mult Multiplicand Multiplier Result = do {
     Value \<leftarrow> c_mult (scast Multiplier :: INT32) (scast Multiplicand);
     Some (SafeInt32ToInt8 Value Result)
   }"

definition SafeChar8Mult :: "(CHAR8 \<Rightarrow> int) \<Rightarrow> CHAR8 \<Rightarrow> CHAR8 \<Rightarrow> ptr \<Rightarrow> CHAR8 RESULT option" where
  "SafeChar8Mult char_num Multiplicand Multiplier Result = (
     if Result = NULL then Some (RETURN_INVALID_PARAMETER, None)
     else let Multiplicand32 = (word_of_int (char_num Multiplicand) :: INT32); Multiplier32 = (word_of_int (char_num Multiplier) :: INT32) in
       if sint Multiplicand32 < 0 \<or> sint Multiplicand32 > sint MAX_INT8 then Some (RETURN_BUFFER_TOO_SMALL, Some CHAR8_ERROR)
       else if sint Multiplier32 < 0 \<or> sint Multiplier32 > sint MAX_INT8 then Some (RETURN_BUFFER_TOO_SMALL, Some CHAR8_ERROR)
       else do {
         Value \<leftarrow> c_mult Multiplicand32 Multiplier32;
         Some (SafeInt32ToChar8 Value Result)
       })"

definition SafeInt16Mult :: "INT16 \<Rightarrow> INT16 \<Rightarrow> ptr \<Rightarrow> INT16 RESULT option" where
  "SafeInt16Mult Multiplicand Multiplier Result = do {
     Value \<leftarrow> c_mult (scast Multiplicand :: INT32) (scast Multiplier);
     Some (SafeInt32ToInt16 Value Result)
   }"

definition SafeInt32Mult :: "INT32 \<Rightarrow> INT32 \<Rightarrow> ptr \<Rightarrow> INT32 RESULT option" where
  "SafeInt32Mult Multiplicand Multiplier Result = Some (SafeInt64ToInt32 (MultS64x64 (scast Multiplicand) (scast Multiplier)) Result)"

definition MIN_INT64_MAGNITUDE :: UINT64 where
  "MIN_INT64_MAGNITUDE = word_of_int (- (sint MIN_INT64 + 1)) + 1"

definition Magnitude :: "INT64 \<Rightarrow> UINT64 option" where
  "Magnitude Value = (
     if sint Value < 0 then do { Next \<leftarrow> c_add Value 1; Negated \<leftarrow> c_neg Next; Some (Negated + 1) }
     else Some Value)"

definition SafeInt64Mult :: "INT64 \<Rightarrow> INT64 \<Rightarrow> ptr \<Rightarrow> INT64 RESULT option" where
  "SafeInt64Mult Multiplicand Multiplier Result = (
     if Result = NULL then Some (RETURN_INVALID_PARAMETER, None)
     else do {
       UnsignedMultiplicand \<leftarrow> Magnitude Multiplicand;
       UnsignedMultiplier \<leftarrow> Magnitude Multiplier;
       (Status, Store) \<leftarrow> SafeUint64Mult UnsignedMultiplicand UnsignedMultiplier LOCAL;
       let UnsignedResult = stored 0 Store;
       if \<not> RETURN_ERROR Status then
         if (sint Multiplicand < 0) \<noteq> (sint Multiplier < 0) then
           if UnsignedResult > MIN_INT64_MAGNITUDE then Some (RETURN_BUFFER_TOO_SMALL, Some INT64_ERROR)
           else if UnsignedResult = MIN_INT64_MAGNITUDE then Some (Status, Some MIN_INT64)
           else do { Value \<leftarrow> c_neg UnsignedResult; Some (Status, Some Value) }
         else
           if UnsignedResult > MAX_INT64 then Some (RETURN_BUFFER_TOO_SMALL, Some INT64_ERROR)
           else Some (Status, Some UnsignedResult)
       else Some (Status, Some INT64_ERROR)
     })"

section \<open>Native integers\<close>

definition SafeUintnAdd :: "UINTN \<Rightarrow> UINTN \<Rightarrow> ptr \<Rightarrow> UINTN RESULT" where
  "SafeUintnAdd Augend Addend Result = SafeUint64Add Augend Addend Result"

definition SafeUintnSub :: "UINTN \<Rightarrow> UINTN \<Rightarrow> ptr \<Rightarrow> UINTN RESULT" where
  "SafeUintnSub Minuend Subtrahend Result = SafeUint64Sub Minuend Subtrahend Result"

definition SafeUintnMult :: "UINTN \<Rightarrow> UINTN \<Rightarrow> ptr \<Rightarrow> UINTN RESULT option" where
  "SafeUintnMult Multiplicand Multiplier Result = SafeUint64Mult Multiplicand Multiplier Result"

definition SafeIntnAdd :: "INTN \<Rightarrow> INTN \<Rightarrow> ptr \<Rightarrow> INTN RESULT option" where
  "SafeIntnAdd Augend Addend Result = SafeInt64Add Augend Addend Result"

definition SafeIntnSub :: "INTN \<Rightarrow> INTN \<Rightarrow> ptr \<Rightarrow> INTN RESULT option" where
  "SafeIntnSub Minuend Subtrahend Result = SafeInt64Sub Minuend Subtrahend Result"

definition SafeIntnMult :: "INTN \<Rightarrow> INTN \<Rightarrow> ptr \<Rightarrow> INTN RESULT option" where
  "SafeIntnMult Multiplicand Multiplier Result = SafeInt64Mult Multiplicand Multiplier Result"

section \<open>What an operation promises\<close>

text \<open>
  An operation \<open>f\<close> that stands for the exact operation \<open>opr\<close> on numbers never runs into undefined behaviour, refuses a null
  \<open>Result\<close>, and for operands that are valid succeeds exactly when the exact result has a word, which it then stores.
\<close>

definition computes :: "('a \<Rightarrow> 'a \<Rightarrow> ptr \<Rightarrow> 'a RESULT option) \<Rightarrow> ('a \<Rightarrow> bool) \<Rightarrow> ('a \<Rightarrow> int) \<Rightarrow> ('a \<Rightarrow> int \<Rightarrow> bool) \<Rightarrow> 'a \<Rightarrow> (int \<Rightarrow> int \<Rightarrow> int) \<Rightarrow> bool" where
  "computes f valid num holds Error opr \<longleftrightarrow>
     (\<forall>x y. f x y NULL = Some (RETURN_INVALID_PARAMETER, None))
     \<and> (\<forall>x y Result. Result \<noteq> NULL \<longrightarrow>
         (\<exists>p. f x y Result = Some p \<and> delivers p (\<lambda>z v. valid x \<and> valid y \<and> holds z v) (opr (num x) (num y)) Error))"

definition always :: "('a \<Rightarrow> 'a \<Rightarrow> ptr \<Rightarrow> 'a RESULT) \<Rightarrow> 'a \<Rightarrow> 'a \<Rightarrow> ptr \<Rightarrow> 'a RESULT option" where
  "always f x y Result = Some (f x y Result)"

abbreviation any :: "'a \<Rightarrow> bool" where
  "any \<equiv> \<lambda>_. True"

abbreviation ascii :: "CHAR8 \<Rightarrow> bool" where
  "ascii c \<equiv> uint c \<le> 127"

lemma computes_checked:
  assumes "\<And>x y Result. f x y Result = Some (checked (fits x y) (g x y) Error Result)"
    and "\<And>x y z. holds z (opr (num x) (num y)) \<longleftrightarrow> fits x y \<and> z = g x y"
  shows "computes f any num holds Error opr"
  using assms by (auto simp: computes_def checked_def delivers_def)

lemma convertsD:
  "converts g num holds Error \<Longrightarrow> g x NULL = (RETURN_INVALID_PARAMETER, None)"
  "converts g num holds Error \<Longrightarrow> Result \<noteq> NULL \<Longrightarrow> delivers (g x Result) holds (num x) Error"
  by (auto simp: converts_def)

lemma computes_via:
  assumes g: "converts g num' holds Error" and f: "\<And>x y Result. f x y Result = Some (g (wide x y) Result)"
    and wide: "\<And>x y. num' (wide x y) = opr (num x) (num y)"
  shows "computes f any num holds Error opr"
  using convertsD [OF g] by (simp add: computes_def f flip: wide)

text \<open>Sums, differences and products of small operands in a wider type.\<close>

lemma abs_sint: "\<bar>sint x\<bar> \<le> 2 ^ (LENGTH('a) - 1)" for x :: "'a::len word"
  using word_ranges(1,2) [of x] by simp

lemma sint_scast_up: "LENGTH('a) \<le> LENGTH('b) \<Longrightarrow> sint (scast x :: 'b::len word) = sint x" for x :: "'a::len word"
proof -
  assume "LENGTH('a) \<le> LENGTH('b)"
  then have "(2 :: int) ^ (LENGTH('a) - 1) \<le> 2 ^ (LENGTH('b) - 1)" by (intro power_increasing diff_le_mono) simp_all
  then show ?thesis using word_ranges(1,2) [of x] unfolding casts by (intro sint_of_int) linarith+
qed

lemma c_signed_Some: "- (2 ^ (LENGTH('a) - 1)) \<le> v \<Longrightarrow> v < 2 ^ (LENGTH('a) - 1) \<Longrightarrow> c_signed v = Some (word_of_int v :: 'a::len word)"
  by (simp add: c_signed_def)

lemma wide_add:
  fixes x y :: "'a::len word"
  assumes "LENGTH('a) < LENGTH('b)"
  shows "- (2 ^ (LENGTH('b) - 1)) \<le> sint x + sint y" "sint x + sint y < 2 ^ (LENGTH('b) - 1)"
    "- (2 ^ (LENGTH('b) - 1)) \<le> sint x - sint y" "sint x - sint y < 2 ^ (LENGTH('b::len) - 1)"
proof -
  obtain n where n: "LENGTH('a) = Suc n" using len_gt_0 [where 'a = 'a] by (cases "LENGTH('a)") auto
  have "(2 :: int) ^ Suc n \<le> 2 ^ (LENGTH('b) - 1)" using assms n by (intro power_increasing) auto
  then show "- (2 ^ (LENGTH('b) - 1)) \<le> sint x + sint y" "sint x + sint y < 2 ^ (LENGTH('b) - 1)"
    "- (2 ^ (LENGTH('b) - 1)) \<le> sint x - sint y" "sint x - sint y < 2 ^ (LENGTH('b::len) - 1)"
    using word_ranges(1,2) [of x] word_ranges(1,2) [of y] by (simp_all add: n)
qed

lemma wide_mult:
  fixes x y :: "'a::len word"
  assumes "2 * LENGTH('a) \<le> LENGTH('b)"
  shows "- (2 ^ (LENGTH('b) - 1)) \<le> sint x * sint y" "sint x * sint y < 2 ^ (LENGTH('b::len) - 1)"
proof -
  obtain n where n: "LENGTH('a) = Suc n" using len_gt_0 [where 'a = 'a] by (cases "LENGTH('a)") auto
  have "\<bar>sint x * sint y\<bar> \<le> 2 ^ n * 2 ^ n" unfolding abs_mult using abs_sint [of x] abs_sint [of y] by (intro mult_mono) (simp_all add: n)
  also have "\<dots> = 2 ^ (n + n)" by (simp add: power_add)
  also have "\<dots> < 2 ^ Suc (n + n)" by simp
  also have "\<dots> \<le> 2 ^ (LENGTH('b) - 1)" using assms n by (intro power_increasing) auto
  finally show "- (2 ^ (LENGTH('b) - 1)) \<le> sint x * sint y" "sint x * sint y < 2 ^ (LENGTH('b::len) - 1)" by simp_all
qed

lemma computes_signed:
  fixes g :: "'b::len word \<Rightarrow> ptr \<Rightarrow> 'a RESULT"
  assumes g: "converts g sint holds Error" and f: "\<And>x y Result. f x y Result = do { v \<leftarrow> c_signed (opr (num x) (num y)); Some (g v Result) }"
    and r: "\<And>x y. - (2 ^ (LENGTH('b) - 1)) \<le> opr (num x) (num y)" "\<And>x y. opr (num x) (num y) < 2 ^ (LENGTH('b) - 1)"
  shows "computes f any num holds Error opr"
  by (rule computes_via [OF g, where wide = "\<lambda>x y. word_of_int (opr (num x) (num y))"]) (simp_all only: f c_signed_Some [OF r] sint_of_int [OF r] bind.bind_lunit)

lemma computes_wide:
  fixes g :: "'b::len word \<Rightarrow> ptr \<Rightarrow> 'a::len word RESULT"
  assumes g: "converts g sint holds Error"
  shows "LENGTH('a) < LENGTH('b) \<Longrightarrow> (\<And>x y Result. f x y Result = do { v \<leftarrow> c_add (scast x :: 'b word) (scast y); Some (g v Result) })
      \<Longrightarrow> computes f any sint holds Error (+)"
    "LENGTH('a) < LENGTH('b) \<Longrightarrow> (\<And>x y Result. f x y Result = do { v \<leftarrow> c_sub (scast x :: 'b word) (scast y); Some (g v Result) })
      \<Longrightarrow> computes f any sint holds Error (-)"
    "2 * LENGTH('a) \<le> LENGTH('b) \<Longrightarrow> (\<And>x y Result. f x y Result = do { v \<leftarrow> c_mult (scast x :: 'b word) (scast y); Some (g v Result) })
      \<Longrightarrow> computes f any sint holds Error (*)"
  by (rule computes_signed [OF g]; simp add: c_add_def c_sub_def c_mult_def sint_scast_up wide_add [unfolded One_nat_def] wide_mult [unfolded One_nat_def])+

lemma SafeInt_small:
  "computes SafeInt8Add any sint signed_value INT8_ERROR (+)" "computes SafeInt16Add any sint signed_value INT16_ERROR (+)"
  "computes SafeInt32Add any sint signed_value INT32_ERROR (+)" "computes SafeInt8Sub any sint signed_value INT8_ERROR (-)"
  "computes SafeInt16Sub any sint signed_value INT16_ERROR (-)" "computes SafeInt32Sub any sint signed_value INT32_ERROR (-)"
  "computes SafeInt8Mult any sint signed_value INT8_ERROR (*)" "computes SafeInt16Mult any sint signed_value INT16_ERROR (*)"
proof -
  note c = SafeInt32_converts(1) SafeInt32_converts(4) SafeInt64_converts(6)
  show "computes SafeInt8Add any sint signed_value INT8_ERROR (+)" by (rule computes_wide(1) [OF c(1)]) (simp_all add: SafeInt8Add_def)
  show "computes SafeInt16Add any sint signed_value INT16_ERROR (+)" by (rule computes_wide(1) [OF c(2)]) (simp_all add: SafeInt16Add_def)
  show "computes SafeInt32Add any sint signed_value INT32_ERROR (+)" by (rule computes_wide(1) [OF c(3)]) (simp_all add: SafeInt32Add_def)
  show "computes SafeInt8Sub any sint signed_value INT8_ERROR (-)" by (rule computes_wide(2) [OF c(1)]) (simp_all add: SafeInt8Sub_def)
  show "computes SafeInt16Sub any sint signed_value INT16_ERROR (-)" by (rule computes_wide(2) [OF c(2)]) (simp_all add: SafeInt16Sub_def)
  show "computes SafeInt32Sub any sint signed_value INT32_ERROR (-)" by (rule computes_wide(2) [OF c(3)]) (simp_all add: SafeInt32Sub_def)
  show "computes SafeInt8Mult any sint signed_value INT8_ERROR (*)"
    by (rule computes_wide(3) [OF c(1)]) (simp_all add: SafeInt8Mult_def c_mult_def mult.commute)
  show "computes SafeInt16Mult any sint signed_value INT16_ERROR (*)" by (rule computes_wide(3) [OF c(2)]) (simp_all add: SafeInt16Mult_def)
qed

lemma SafeInt32Mult_computes: "computes SafeInt32Mult any sint signed_value INT32_ERROR (*)"
proof (rule computes_via [OF SafeInt64_converts(6)])
  show "SafeInt32Mult x y Result = Some (SafeInt64ToInt32 (MultS64x64 (scast x) (scast y)) Result)" for x y Result by (simp add: SafeInt32Mult_def)
  show "sint (MultS64x64 (scast x) (scast y)) = sint x * sint y" for x y :: INT32
  proof -
    have "MultS64x64 (scast x) (scast y) = word_of_int (sint x * sint y)"
      by (simp add: MultS64x64_def MultU64x64_def InternalMathMultU64x64_def)
    moreover have "sint (word_of_int (sint x * sint y) :: INT64) = sint x * sint y" by (rule sint_of_int; rule wide_mult) simp_all
    ultimately show ?thesis by (simp only:)
  qed
qed

lemma uint_wide_mult: "2 * LENGTH('a) \<le> LENGTH('b) \<Longrightarrow> uint (ucast x * ucast y :: 'b::len word) = uint x * uint y" for x y :: "'a::len word"
proof -
  assume l: "2 * LENGTH('a) \<le> LENGTH('b)"
  have "uint x * uint y < 2 ^ LENGTH('a) * 2 ^ LENGTH('a)" by (rule mult_strict_mono') (simp_all add: word_ranges)
  also have "\<dots> = 2 ^ (2 * LENGTH('a))" by (simp add: mult_2 power_add)
  also have "\<dots> \<le> 2 ^ LENGTH('b)" using l by (intro power_increasing) simp_all
  finally have "uint (word_of_int (uint x * uint y) :: 'b word) = uint x * uint y" by (intro uint_of_int) simp_all
  then show ?thesis by simp
qed

lemma SafeUint_small_mult:
  "computes (always SafeUint8Mult) any uint unsigned_value UINT8_ERROR (*)"
  "computes (always SafeUint16Mult) any uint unsigned_value UINT16_ERROR (*)"
  "computes (always SafeUint32Mult) any uint unsigned_value UINT32_ERROR (*)"
proof -
  show "computes (always SafeUint8Mult) any uint unsigned_value UINT8_ERROR (*)"
    by (rule computes_via [OF SafeUint32_converts(3), where wide = "\<lambda>x y. ucast x * ucast y"]) (simp_all add: always_def SafeUint8Mult_def uint_wide_mult)
  show "computes (always SafeUint16Mult) any uint unsigned_value UINT16_ERROR (*)"
    by (rule computes_via [OF SafeUint32_converts(5), where wide = "\<lambda>x y. ucast x * ucast y"]) (simp_all add: always_def SafeUint16Mult_def uint_wide_mult)
  show "computes (always SafeUint32Mult) any uint unsigned_value UINT32_ERROR (*)"
    by (rule computes_via [OF SafeUint64_converts(7), where wide = "\<lambda>x y. ucast x * ucast y"]) (simp_all add: always_def SafeUint32Mult_def uint_wide_mult)
qed

lemma computes_unsigned:
  fixes f :: "'a::len word \<Rightarrow> 'a word \<Rightarrow> ptr \<Rightarrow> 'a word RESULT"
  shows "(\<And>x y Result. f x y Result = checked (x \<le> x + y) (x + y) Error Result) \<Longrightarrow> computes (always f) any uint unsigned_value Error (+)"
    "(\<And>x y Result. f x y Result = checked (y \<le> x) (x - y) Error Result) \<Longrightarrow> computes (always f) any uint unsigned_value Error (-)"
proof -
  show "(\<And>x y Result. f x y Result = checked (x \<le> x + y) (x + y) Error Result) \<Longrightarrow> computes (always f) any uint unsigned_value Error (+)"
    by (rule computes_checked) (auto simp: always_def holds_iff no_olen_add)
  show "(\<And>x y Result. f x y Result = checked (y \<le> x) (x - y) Error Result) \<Longrightarrow> computes (always f) any uint unsigned_value Error (-)"
    by (rule computes_checked) (auto simp: always_def holds_iff word_le_def intro: le_less_trans [OF _ word_ranges(4)])
qed

lemma SafeUint_add_sub:
  "computes (always SafeUint8Add) any uint unsigned_value UINT8_ERROR (+)" "computes (always SafeUint16Add) any uint unsigned_value UINT16_ERROR (+)"
  "computes (always SafeUint32Add) any uint unsigned_value UINT32_ERROR (+)" "computes (always SafeUint64Add) any uint unsigned_value UINT64_ERROR (+)"
  "computes (always SafeUint8Sub) any uint unsigned_value UINT8_ERROR (-)" "computes (always SafeUint16Sub) any uint unsigned_value UINT16_ERROR (-)"
  "computes (always SafeUint32Sub) any uint unsigned_value UINT32_ERROR (-)" "computes (always SafeUint64Sub) any uint unsigned_value UINT64_ERROR (-)"
  by (rule computes_unsigned, simp add: checked_def SafeUint8Add_def SafeUint16Add_def SafeUint32Add_def SafeUint64Add_def
      SafeUint8Sub_def SafeUint16Sub_def SafeUint32Sub_def SafeUint64Sub_def)+

section \<open>Characters\<close>

lemma char_reads:
  assumes "char_num = sint \<or> char_num = uint"
  shows "sint (word_of_int (char_num c) :: INT32) < 0 \<or> sint (word_of_int (char_num c) :: INT32) > sint MAX_INT8 \<longleftrightarrow> \<not> ascii c"
    "ascii c \<Longrightarrow> sint (word_of_int (char_num c) :: INT32) = uint c"
proof -
  have n: "sint (word_of_int (char_num c) :: INT32) = char_num c"
    using assms word_ranges [of c] by (intro sint_of_int) (auto intro: order_trans [of _ "0 :: int"])
  have "sint c = (uint c + 128) mod 256 - 128"
    using sint_uint [of c] by (simp add: signed_take_bit_eq_take_bit_shift take_bit_eq_mod)
  moreover have "0 \<le> u \<Longrightarrow> u < 256 \<Longrightarrow> (u + 128) mod 256 - 128 = (if u \<le> 127 then u else u - 256)" for u :: int
    using mod_pos_geq [of 256 "u + 128"] by (simp add: mod_pos_pos_trivial)
  ultimately have "sint c = (if uint c \<le> 127 then uint c else uint c - 256)"
    using word_ranges(3,4) [of c] by simp
  then show "sint (word_of_int (char_num c) :: INT32) < 0 \<or> sint (word_of_int (char_num c) :: INT32) > sint MAX_INT8 \<longleftrightarrow> \<not> ascii c"
    "ascii c \<Longrightarrow> sint (word_of_int (char_num c) :: INT32) = uint c"
    using assms word_ranges(3,4) [of c] unfolding n by (auto simp: limits)
qed

lemma computes_char:
  assumes f: "\<And>x y Result. f x y Result = (if Result = NULL then Some (RETURN_INVALID_PARAMETER, None)
      else if \<not> ascii x then Some (RETURN_BUFFER_TOO_SMALL, Some CHAR8_ERROR)
      else if \<not> ascii y then Some (RETURN_BUFFER_TOO_SMALL, Some CHAR8_ERROR)
      else do { v \<leftarrow> c_signed (opr (uint x) (uint y)); Some (SafeInt32ToChar8 v Result) })"
    and r: "\<And>x y. 0 \<le> x \<Longrightarrow> x \<le> 127 \<Longrightarrow> 0 \<le> y \<Longrightarrow> y \<le> 127 \<Longrightarrow> \<bar>opr x y\<bar> \<le> 16129"
  shows "computes f ascii uint char_value CHAR8_ERROR opr"
proof -
  have "\<exists>p. f x y Result = Some p \<and> delivers p (\<lambda>z v. ascii x \<and> ascii y \<and> char_value z v) (opr (uint x) (uint y)) CHAR8_ERROR"
    if n: "Result \<noteq> NULL" for x y Result
  proof (cases "ascii x \<and> ascii y")
    case True
    then have "\<bar>opr (uint x) (uint y)\<bar> \<le> 16129" by (intro r) simp_all
    then have c: "c_signed (opr (uint x) (uint y)) = Some (word_of_int (opr (uint x) (uint y)) :: INT32)"
      "sint (word_of_int (opr (uint x) (uint y)) :: INT32) = opr (uint x) (uint y)"
      by (intro c_signed_Some sint_of_int; simp)+
    show ?thesis
      using convertsD(2) [OF SafeInt32_converts(2) n, of "word_of_int (opr (uint x) (uint y))"] True n by (simp add: f c)
  next
    case False
    then show ?thesis using n by (auto simp: f delivers_def)
  qed
  then show ?thesis by (simp add: computes_def f)
qed

lemma SafeChar8_computes:
  assumes "char_num = sint \<or> char_num = uint"
  shows "computes (SafeChar8Add char_num) ascii uint char_value CHAR8_ERROR (+)"
    "computes (SafeChar8Sub char_num) ascii uint char_value CHAR8_ERROR (-)"
    "computes (SafeChar8Mult char_num) ascii uint char_value CHAR8_ERROR (*)"
proof -
  note r = char_reads [OF assms]
  have m: "\<bar>x * y\<bar> \<le> 16129" if "0 \<le> x" "x \<le> 127" "0 \<le> y" "y \<le> 127" for x y :: int
    using mult_mono [OF that(2) that(4)] that by simp
  show "computes (SafeChar8Add char_num) ascii uint char_value CHAR8_ERROR (+)"
    by (rule computes_char) (simp_all add: SafeChar8Add_def Let_def r c_add_def)
  show "computes (SafeChar8Sub char_num) ascii uint char_value CHAR8_ERROR (-)"
    by (rule computes_char) (simp_all add: SafeChar8Sub_def Let_def r c_sub_def)
  show "computes (SafeChar8Mult char_num) ascii uint char_value CHAR8_ERROR (*)"
    by (rule computes_char [OF _ m]) (simp_all add: SafeChar8Mult_def Let_def r c_mult_def)
qed

section \<open>64-bit sums and differences\<close>

lemma c_signed_test:
  "- (2 ^ (LENGTH('a) - 1)) \<le> v \<Longrightarrow> v < 2 ^ (LENGTH('a) - 1)
    \<Longrightarrow> do { Limit \<leftarrow> (c_signed v :: 'a::len word option); Some (P (sint Limit)) } = Some (P v)"
  by (simp only: c_signed_Some bind.bind_lunit sint_of_int)

lemma computes_signed64:
  assumes "\<And>x y Result. f x y Result = (if Result = NULL then Some (RETURN_INVALID_PARAMETER, None)
      else if opr (sint x) (sint y) < - (2 ^ 63) \<or> 2 ^ 63 \<le> opr (sint x) (sint y) then Some (RETURN_BUFFER_TOO_SMALL, Some Error)
      else do { Value \<leftarrow> c_signed (opr (sint x) (sint y)); Some (RETURN_SUCCESS, Some Value) })"
  shows "computes f any sint signed_value (Error :: INT64) opr"
  by (rule computes_checked [where fits = "\<lambda>x y. - (2 ^ 63) \<le> opr (sint x) (sint y) \<and> opr (sint x) (sint y) < 2 ^ 63"
        and g = "\<lambda>x y. word_of_int (opr (sint x) (sint y))"]) (auto simp: assms checked_def c_signed_def holds_iff)

lemma range64: "- (2 ^ 63) \<le> sint x" "sint x < 2 ^ 63" for x :: INT64
  using word_ranges(1,2) [of x] by simp_all

lemma SafeInt64Add_computes: "computes SafeInt64Add any sint signed_value INT64_ERROR (+)"
proof (rule computes_signed64)
  fix x y :: INT64 and Result
  consider "sint y > 0" | "sint y < 0" | "sint y = 0" by linarith
  then show "SafeInt64Add x y Result = (if Result = NULL then Some (RETURN_INVALID_PARAMETER, None)
      else if sint x + sint y < - (2 ^ 63) \<or> 2 ^ 63 \<le> sint x + sint y then Some (RETURN_BUFFER_TOO_SMALL, Some INT64_ERROR)
      else do { Value \<leftarrow> c_signed (sint x + sint y); Some (RETURN_SUCCESS, Some Value) })"
  proof cases
    case 1
    then have "do { Limit \<leftarrow> c_sub MAX_INT64 y; Some (sint x > sint Limit) } = Some (sint x > 9223372036854775807 - sint y)"
      using c_signed_test [where 'a = 64 and v = "9223372036854775807 - sint y" and P = "\<lambda>v. sint x > v"] range64 [of y]
      by (simp add: c_sub_def limits)
    then show ?thesis using 1 range64 [of x] by (auto simp: SafeInt64Add_def c_add_def)
  next
    case 2
    then have "do { Limit \<leftarrow> c_sub MIN_INT64 y; Some (sint x < sint Limit) } = Some (sint x < - 9223372036854775808 - sint y)"
      using c_signed_test [where 'a = 64 and v = "- 9223372036854775808 - sint y" and P = "\<lambda>v. sint x < v"] range64 [of y]
      by (simp add: c_sub_def limits)
    then show ?thesis using 2 range64 [of x] by (auto simp: SafeInt64Add_def c_add_def)
  next
    case 3
    then show ?thesis using range64 [of x] by (auto simp: SafeInt64Add_def c_add_def)
  qed
qed

lemma SafeInt64Sub_computes: "computes SafeInt64Sub any sint signed_value INT64_ERROR (-)"
proof (rule computes_signed64)
  fix x y :: INT64 and Result
  consider "sint y > 0" | "sint y < 0" | "sint y = 0" by linarith
  then show "SafeInt64Sub x y Result = (if Result = NULL then Some (RETURN_INVALID_PARAMETER, None)
      else if sint x - sint y < - (2 ^ 63) \<or> 2 ^ 63 \<le> sint x - sint y then Some (RETURN_BUFFER_TOO_SMALL, Some INT64_ERROR)
      else do { Value \<leftarrow> c_signed (sint x - sint y); Some (RETURN_SUCCESS, Some Value) })"
  proof cases
    case 1
    then have "do { Limit \<leftarrow> c_add MIN_INT64 y; Some (sint x < sint Limit) } = Some (sint x < - 9223372036854775808 + sint y)"
      using c_signed_test [where 'a = 64 and v = "- 9223372036854775808 + sint y" and P = "\<lambda>v. sint x < v"] range64 [of y]
      by (simp add: c_add_def limits)
    then show ?thesis using 1 range64 [of x] by (auto simp: SafeInt64Sub_def c_sub_def)
  next
    case 2
    then have "do { Limit \<leftarrow> c_add MAX_INT64 y; Some (sint x > sint Limit) } = Some (sint x > 9223372036854775807 + sint y)"
      using c_signed_test [where 'a = 64 and v = "9223372036854775807 + sint y" and P = "\<lambda>v. sint x > v"] range64 [of y]
      by (simp add: c_add_def limits)
    then show ?thesis using 2 range64 [of x] by (auto simp: SafeInt64Sub_def c_sub_def)
  next
    case 3
    then show ?thesis using range64 [of x] by (auto simp: SafeInt64Sub_def c_sub_def)
  qed
qed

section \<open>64-bit products\<close>

text \<open>The schoolbook product of the two halves of each operand.\<close>

lemma dwords: "uint x = uint (ucast (drop_bit 32 x) :: UINT32) * 2 ^ 32 + uint (ucast x :: UINT32)" for x :: UINT64
proof -
  have "uint x div 2 ^ 32 \<le> (2 ^ 64 - 1) div 2 ^ 32" using word_ranges(4) [of x] by (intro zdiv_mono1) simp_all
  then have "uint x div 2 ^ 32 < 2 ^ 32" by simp
  then have "take_bit 32 (uint x div 2 ^ 32) = uint x div 2 ^ 32" by (intro take_bit_int_eq_self) (simp_all add: pos_imp_zdiv_nonneg_iff)
  moreover have "drop_bit 32 (uint x) = uint x div 2 ^ 32" by (rule drop_bit_eq_div)
  moreover have "uint (ucast (drop_bit 32 x) :: UINT32) = take_bit 32 (drop_bit 32 (uint x))"
    using take_bit_int_eq_self [OF word_ranges(3,4), of x] by (simp add: unsigned_ucast_eq unsigned_drop_bit_eq)
  ultimately have "uint (ucast (drop_bit 32 x) :: UINT32) = uint x div 2 ^ 32" by simp
  moreover have "uint (ucast x :: UINT32) = uint x mod 2 ^ 32" by (simp add: unsigned_ucast_eq take_bit_eq_mod)
  ultimately show ?thesis by simp
qed

lemma high_dword: "P AND 0xFFFFFFFF00000000 = 0 \<longleftrightarrow> uint P < 2 ^ 32" for P :: UINT64
proof -
  have "(0xFFFFFFFF00000000 :: UINT64) = NOT (mask 32)" by (simp add: mask_eq_exp_minus_1)
  moreover have "P AND NOT (mask 32) = 0 \<longleftrightarrow> take_bit 32 P = P"
    using bit_imp_le_length [of P] by (auto simp: word_bits_iff bit_and_iff bit_not_iff bit_mask_iff bit_take_bit_iff)
  ultimately have "P AND 0xFFFFFFFF00000000 = 0 \<longleftrightarrow> take_bit 32 P = P" by (simp only:)
  also have "\<dots> \<longleftrightarrow> take_bit 32 (uint P) = uint P" by (metis unsigned_take_bit_eq unsigned_word_eqI)
  also have "\<dots> \<longleftrightarrow> uint P < 2 ^ 32" by (simp add: take_bit_int_eq_self_iff)
  finally show ?thesis .
qed

lemma SafeUint64Add_checked: "SafeUint64Add x y Result = checked (uint x + uint y < 2 ^ 64) (x + y) UINT64_ERROR Result"
  by (simp add: SafeUint64Add_def checked_def no_olen_add)

lemma uint_shifted: "uint P < 2 ^ 32 \<Longrightarrow> uint (push_bit 32 P) = uint P * 2 ^ 32" for P :: UINT64
proof -
  assume "uint P < 2 ^ 32"
  then have "take_bit 64 (uint P * 2 ^ 32) = uint P * 2 ^ 32" by (intro take_bit_int_eq_self) simp_all
  moreover have "push_bit 32 (uint P) = uint P * 2 ^ 32" by (rule push_bit_eq_mult)
  moreover have "uint (push_bit 32 P) = take_bit 64 (push_bit 32 (uint P))" by (simp add: unsigned_push_bit_eq)
  ultimately show ?thesis by (simp only:)
qed

lemma shift32: "RShiftU64 x 32 = Some (drop_bit 32 x)" "LShiftU64 x 32 = Some (push_bit 32 x)"
  by (simp_all add: RShiftU64_eq LShiftU64_eq)

lemma uint_MultU64x64: "uint (MultU64x64 (ucast A) (ucast B)) = uint A * uint B" for A B :: UINT32
  by (simp add: MultU64x64_def InternalMathMultU64x64_def uint_wide_mult)

lemma uint_dword: "uint (ucast A :: UINT64) = uint A" for A :: UINT32
  using word_ranges(3,4) [of A] unfolding casts by (intro uint_of_int) simp_all

lemma SafeUint64Mult_dwords:
  fixes x y :: UINT64 and A B C D :: UINT32
  assumes "Result \<noteq> NULL" and d: "A = ucast (drop_bit 32 x)" "B = ucast x" "C = ucast (drop_bit 32 y)" "D = ucast y"
    and m: "AD = MultU64x64 (ucast A) (ucast D)" "BC = MultU64x64 (ucast B) (ucast C)" "BD = MultU64x64 (ucast B) (ucast D)"
  shows "SafeUint64Mult x y Result =
      (if A = 0 \<and> C = 0 then Some (RETURN_SUCCESS, Some (ucast B * ucast D))
       else if (A = 0 \<or> C = 0) \<and> uint AD < 2 ^ 32 \<and> uint BC < 2 ^ 32 \<and> uint (push_bit 32 BC) + uint (push_bit 32 AD) < 2 ^ 64
           \<and> uint (push_bit 32 BC + push_bit 32 AD) + uint BD < 2 ^ 64
       then Some (RETURN_SUCCESS, Some (push_bit 32 BC + push_bit 32 AD + BD))
       else Some (RETURN_BUFFER_TOO_SMALL, Some UINT64_ERROR))"
  unfolding SafeUint64Mult_def shift32 bind.bind_lunit Let_def high_dword SafeUint64Add_checked d [symmetric] m [symmetric]
  using assms(1) by (simp add: checked_def LOCAL_def stored_def)

lemma SafeUint64Mult_checked:
  "SafeUint64Mult x y Result = Some (checked (uint x * uint y < 2 ^ 64) (x * y) UINT64_ERROR Result)"
proof (cases "Result = NULL")
  case False
  define A B where "A = (ucast (drop_bit 32 x) :: UINT32)" and "B = (ucast x :: UINT32)"
  define C D where "C = (ucast (drop_bit 32 y) :: UINT32)" and "D = (ucast y :: UINT32)"
  define AD BC BD where "AD = MultU64x64 (ucast A) (ucast D)" and "BC = MultU64x64 (ucast B) (ucast C)" and "BD = MultU64x64 (ucast B) (ucast D)"
  have m: "uint AD = uint A * uint D" "uint BC = uint B * uint C" "uint BD = uint B * uint D"
    by (simp_all only: AD_def BC_def BD_def uint_MultU64x64)
  have xy: "uint x = uint A * 2 ^ 32 + uint B" "uint y = uint C * 2 ^ 32 + uint D"
    unfolding A_def B_def C_def D_def by (rule dwords)+
  note eq = SafeUint64Mult_dwords [OF False A_def B_def C_def D_def AD_def BC_def BD_def]
  have p: "uint x * uint y = uint A * uint C * 2 ^ 64 + ((uint AD + uint BC) * 2 ^ 32 + uint BD)"
    by (simp add: xy m algebra_simps)
  consider "A = 0" "C = 0" | "A \<noteq> 0" "C \<noteq> 0" | "A = 0 \<or> C = 0" "A \<noteq> 0 \<or> C \<noteq> 0" by blast
  then show ?thesis
  proof cases
    case 1
    then have "x = ucast B" "y = ucast D" using xy by (simp_all add: word_uint_eq_iff uint_dword)
    then have "x * y = ucast B * ucast D" by simp
    moreover have "uint x * uint y < 2 ^ 64" using p 1 word_ranges(4) [of BD] by (simp add: m)
    ultimately show ?thesis using 1 False by (simp add: eq checked_def)
  next
    case 2
    then have "uint A \<noteq> 0" "uint C \<noteq> 0" by (simp_all add: uint_0_iff)
    then have "1 \<le> uint A" "1 \<le> uint C" using word_ranges(3) [of A] word_ranges(3) [of C] by linarith+
    then have "1 * 1 \<le> uint A * uint C" by (intro mult_mono) simp_all
    moreover have "1 * 1 \<le> k \<Longrightarrow> 0 \<le> a \<Longrightarrow> 0 \<le> b \<Longrightarrow> 0 \<le> c \<Longrightarrow> \<not> k * 2 ^ 64 + ((a + b) * 2 ^ 32 + c) < 2 ^ 64" for k a b c :: int
      by simp
    ultimately have "\<not> uint x * uint y < 2 ^ 64" unfolding p using word_ranges(3) by blast
    then show ?thesis using 2 False by (simp add: eq checked_def)
  next
    case 3
    let ?S = "push_bit 32 BC + push_bit 32 AD"
    have z: "uint AD = 0 \<or> uint BC = 0" "uint A * uint C = 0" using 3 by (auto simp: m)
    have s: "uint AD < 2 ^ 32 \<and> uint BC < 2 ^ 32 \<Longrightarrow> uint ?S = (uint AD + uint BC) * 2 ^ 32 \<and> uint (push_bit 32 BC) + uint (push_bit 32 AD) < 2 ^ 64"
      using z(1) by (auto simp: uint_shifted uint_plus_if_size word_size)
    have f: "uint x * uint y < 2 ^ 64 \<longleftrightarrow> uint AD < 2 ^ 32 \<and> uint BC < 2 ^ 32 \<and> uint ?S + uint BD < 2 ^ 64"
    proof (cases "uint AD < 2 ^ 32 \<and> uint BC < 2 ^ 32")
      case False
      moreover have "0 \<le> a \<Longrightarrow> 0 \<le> b \<Longrightarrow> 0 \<le> c \<Longrightarrow> \<not> (a < 2 ^ 32 \<and> b < 2 ^ 32) \<Longrightarrow> \<not> 0 * 2 ^ 64 + ((a + b) * 2 ^ 32 + c) < 2 ^ 64"
        for a b c :: int by auto
      ultimately show ?thesis unfolding p z(2) using word_ranges(3) by blast
    qed (use p z s in simp)
    have "uint (x * y) = uint (?S + BD)" if "uint x * uint y < 2 ^ 64"
      using that s f p z(2) uint_mult_lem [THEN iffD1, of x y] uint_add_lem [THEN iffD1, of ?S BD] by simp
    then have "uint x * uint y < 2 ^ 64 \<Longrightarrow> x * y = ?S + BD" by (simp add: word_uint_eq_iff)
    moreover have "SafeUint64Mult x y Result = (if uint x * uint y < 2 ^ 64 then Some (RETURN_SUCCESS, Some (?S + BD))
        else Some (RETURN_BUFFER_TOO_SMALL, Some UINT64_ERROR))"
      unfolding eq f using 3 s by auto
    ultimately show ?thesis using False by (simp add: checked_def)
  qed
qed (simp add: SafeUint64Mult_def checked_def)

lemma SafeUint64Mult_computes: "computes SafeUint64Mult any uint unsigned_value UINT64_ERROR (*)"
  by (rule computes_checked [OF SafeUint64Mult_checked]) (auto simp: holds_iff)

lemma Magnitude_abs: "\<exists>m. Magnitude x = Some m \<and> uint m = \<bar>sint x\<bar>"
proof (cases "sint x < 0")
  case True
  have r: "sint (1 :: INT64) = 1" by simp
  have n: "c_add x 1 = Some (word_of_int (sint x + 1))" "sint (word_of_int (sint x + 1) :: INT64) = sint x + 1"
    using True range64 [of x] unfolding c_add_def r by (intro c_signed_Some sint_of_int; simp)+
  have g: "c_neg (word_of_int (sint x + 1)) = Some (word_of_int (- (sint x + 1)) :: INT64)"
    using True range64 [of x] unfolding c_neg_def n(2) by (intro c_signed_Some; simp)
  have u: "uint (word_of_int (- sint x) :: UINT64) = - sint x"
    using True range64 [of x] by (intro uint_of_int) simp_all
  have "Magnitude x = Some (word_of_int (- (sint x + 1)) + 1)"
    using True by (simp only: Magnitude_def n(1) g bind.bind_lunit if_True)
  also have "word_of_int (- (sint x + 1)) + 1 = (word_of_int (- sint x) :: UINT64)" by simp
  finally show ?thesis using True u by auto
next
  case False
  then have "uint x = sint x" using word_ranges(2) [of x] uint_of_int [of "sint x", where 'b = 64] by simp
  then show ?thesis using False by (simp add: Magnitude_def)
qed

lemma uint_limits: "uint MIN_INT64_MAGNITUDE = 2 ^ 63" "uint MAX_INT64 = 2 ^ 63 - 1"
  by code_simp+

lemma signed_of_magnitude:
  fixes u :: UINT64
  assumes "uint u = \<bar>v\<bar>"
  shows "0 \<le> v \<Longrightarrow> v < 2 ^ 63 \<Longrightarrow> sint u = v" "v < 0 \<Longrightarrow> - (2 ^ 63) < v \<Longrightarrow> c_neg u = Some (word_of_int v)"
proof -
  have s: "sint u = \<bar>v\<bar>" if "\<bar>v\<bar> < 2 ^ 63" 
  proof -
    have "sint (word_of_int \<bar>v\<bar> :: UINT64) = \<bar>v\<bar>" using that by (intro sint_of_int) simp_all
    then show ?thesis by (simp flip: assms)
  qed
  then show "0 \<le> v \<Longrightarrow> v < 2 ^ 63 \<Longrightarrow> sint u = v" by simp
  assume "v < 0" "- (2 ^ 63) < v"
  then show "c_neg u = Some (word_of_int v)" using s by (simp add: c_neg_def c_signed_def)
qed

lemma apply_sign:
  fixes u :: UINT64
  assumes u: "uint u = \<bar>v\<bar>" and neg: "v < 0 \<Longrightarrow> neg" "v > 0 \<Longrightarrow> \<not> neg"
  shows "(if neg then
      if u > MIN_INT64_MAGNITUDE then Some (RETURN_BUFFER_TOO_SMALL, Some INT64_ERROR)
      else if u = MIN_INT64_MAGNITUDE then Some (RETURN_SUCCESS, Some MIN_INT64)
      else do { Value \<leftarrow> c_neg u; Some (RETURN_SUCCESS, Some Value) }
    else if u > MAX_INT64 then Some (RETURN_BUFFER_TOO_SMALL, Some INT64_ERROR)
    else Some (RETURN_SUCCESS, Some u))
    = Some (if - (2 ^ 63) \<le> v \<and> v < 2 ^ 63 then (RETURN_SUCCESS, Some (word_of_int v)) else (RETURN_BUFFER_TOO_SMALL, Some INT64_ERROR))"
proof -
  have c: "u > MIN_INT64_MAGNITUDE \<longleftrightarrow> \<bar>v\<bar> > 2 ^ 63" "u = MIN_INT64_MAGNITUDE \<longleftrightarrow> \<bar>v\<bar> = 2 ^ 63" "u > MAX_INT64 \<longleftrightarrow> \<bar>v\<bar> > 2 ^ 63 - 1"
    by (simp_all only: word_less_def word_uint_eq_iff u uint_limits)
  have "MIN_INT64 = word_of_int (- (2 ^ 63))" by (simp add: MIN_INT64_def)
  moreover have "u = word_of_int \<bar>v\<bar>" by (simp flip: u)
  moreover have "v = 0 \<Longrightarrow> c_neg u = Some (word_of_int v)" using u by (simp add: c_neg_def c_signed_def uint_0_iff)
  ultimately show ?thesis
    using neg signed_of_magnitude(2) [OF u] unfolding c by (cases "v = 0"; cases "v = - (2 ^ 63)") (auto simp: abs_if split: if_splits)
qed

lemma SafeInt64Mult_computes: "computes SafeInt64Mult any sint signed_value INT64_ERROR (*)"
proof (rule computes_checked [where fits = "\<lambda>x y. - (2 ^ 63) \<le> sint x * sint y \<and> sint x * sint y < 2 ^ 63" and g = "\<lambda>x y. word_of_int (sint x * sint y)"])
  fix x y :: INT64 and Result
  obtain m n where mn: "Magnitude x = Some m" "uint m = \<bar>sint x\<bar>" "Magnitude y = Some n" "uint n = \<bar>sint y\<bar>"
    using Magnitude_abs by blast
  let ?v = "sint x * sint y"
  have neg: "?v < 0 \<Longrightarrow> (sint x < 0) \<noteq> (sint y < 0)" "?v > 0 \<Longrightarrow> \<not> ((sint x < 0) \<noteq> (sint y < 0))"
    by (auto simp: mult_less_0_iff zero_less_mult_iff)
  have p: "uint m * uint n = \<bar>?v\<bar>" by (simp add: mn abs_mult)
  show "SafeInt64Mult x y Result
      = Some (checked (- (2 ^ 63) \<le> ?v \<and> ?v < 2 ^ 63) (word_of_int ?v) INT64_ERROR Result)"
  proof (cases "Result = NULL")
    case False
    show ?thesis
    proof (cases "\<bar>?v\<bar> < 2 ^ 64")
      case fits: True
      define u where "u = m * n"
      have u: "uint u = \<bar>?v\<bar>" unfolding u_def using uint_mult_lem [THEN iffD1, of m n] fits by (simp add: p)
      have "SafeUint64Mult m n LOCAL = Some (RETURN_SUCCESS, Some u)"
        using fits by (simp add: SafeUint64Mult_checked checked_def LOCAL_def p u_def)
      then have "SafeInt64Mult x y Result
          = Some (if - (2 ^ 63) \<le> ?v \<and> ?v < 2 ^ 63 then (RETURN_SUCCESS, Some (word_of_int ?v)) else (RETURN_BUFFER_TOO_SMALL, Some INT64_ERROR))"
        using False apply_sign [OF u neg] by (simp add: SafeInt64Mult_def mn stored_def)
      then show ?thesis using False by (simp add: checked_def)
    next
      case wide: False
      then have "SafeUint64Mult m n LOCAL = Some (RETURN_BUFFER_TOO_SMALL, Some UINT64_ERROR)"
        by (simp add: SafeUint64Mult_checked checked_def LOCAL_def p)
      moreover have "\<not> (- (2 ^ 63) \<le> ?v \<and> ?v < 2 ^ 63)" using wide by (auto simp: abs_if split: if_splits)
      ultimately show ?thesis using False by (simp only: SafeInt64Mult_def mn checked_def bind.bind_lunit Let_def) simp
    qed
  qed (simp add: SafeInt64Mult_def checked_def)
qed (auto simp: holds_iff)

section \<open>All operations\<close>

lemma native_operations:
  "SafeUintnAdd = SafeUint64Add" "SafeUintnSub = SafeUint64Sub" "SafeUintnMult = SafeUint64Mult"
  "SafeIntnAdd = SafeInt64Add" "SafeIntnSub = SafeInt64Sub" "SafeIntnMult = SafeInt64Mult"
  by (intro ext; simp add: SafeUintnAdd_def SafeUintnSub_def SafeUintnMult_def SafeIntnAdd_def SafeIntnSub_def SafeIntnMult_def)+

text \<open>
  C25. The checked arithmetic functions never run into undefined behaviour and are exact: for every pair of operands they
  succeed exactly when the mathematical sum, difference or product is a value of the type, and then store that value; otherwise they
  return \<open>RETURN_BUFFER_TOO_SMALL\<close> with the error value of the type, and \<open>RETURN_INVALID_PARAMETER\<close> for a null pointer.  The
  functions on characters also ask that both operands are 7-bit characters, whether or not \<open>CHAR8\<close> is a signed type.
\<close>

theorem SafeInt_arithmetic_exact:
  "computes (always SafeUint8Add) any uint unsigned_value UINT8_ERROR (+)
    \<and> computes (always SafeUint16Add) any uint unsigned_value UINT16_ERROR (+)
    \<and> computes (always SafeUint32Add) any uint unsigned_value UINT32_ERROR (+)
    \<and> computes (always SafeUint64Add) any uint unsigned_value UINT64_ERROR (+)
    \<and> computes (always SafeUint8Sub) any uint unsigned_value UINT8_ERROR (-)
    \<and> computes (always SafeUint16Sub) any uint unsigned_value UINT16_ERROR (-)
    \<and> computes (always SafeUint32Sub) any uint unsigned_value UINT32_ERROR (-)
    \<and> computes (always SafeUint64Sub) any uint unsigned_value UINT64_ERROR (-)
    \<and> computes (always SafeUint8Mult) any uint unsigned_value UINT8_ERROR (*)
    \<and> computes (always SafeUint16Mult) any uint unsigned_value UINT16_ERROR (*)
    \<and> computes (always SafeUint32Mult) any uint unsigned_value UINT32_ERROR (*)
    \<and> computes SafeUint64Mult any uint unsigned_value UINT64_ERROR (*)
    \<and> computes SafeInt8Add any sint signed_value INT8_ERROR (+)
    \<and> computes SafeInt16Add any sint signed_value INT16_ERROR (+)
    \<and> computes SafeInt32Add any sint signed_value INT32_ERROR (+)
    \<and> computes SafeInt64Add any sint signed_value INT64_ERROR (+)
    \<and> computes SafeInt8Sub any sint signed_value INT8_ERROR (-)
    \<and> computes SafeInt16Sub any sint signed_value INT16_ERROR (-)
    \<and> computes SafeInt32Sub any sint signed_value INT32_ERROR (-)
    \<and> computes SafeInt64Sub any sint signed_value INT64_ERROR (-)
    \<and> computes SafeInt8Mult any sint signed_value INT8_ERROR (*)
    \<and> computes SafeInt16Mult any sint signed_value INT16_ERROR (*)
    \<and> computes SafeInt32Mult any sint signed_value INT32_ERROR (*)
    \<and> computes SafeInt64Mult any sint signed_value INT64_ERROR (*)
    \<and> computes (SafeChar8Add sint) ascii uint char_value CHAR8_ERROR (+)
    \<and> computes (SafeChar8Sub sint) ascii uint char_value CHAR8_ERROR (-)
    \<and> computes (SafeChar8Mult sint) ascii uint char_value CHAR8_ERROR (*)
    \<and> computes (SafeChar8Add uint) ascii uint char_value CHAR8_ERROR (+)
    \<and> computes (SafeChar8Sub uint) ascii uint char_value CHAR8_ERROR (-)
    \<and> computes (SafeChar8Mult uint) ascii uint char_value CHAR8_ERROR (*)
    \<and> computes (always SafeUintnAdd) any uint unsigned_value UINTN_ERROR (+)
    \<and> computes (always SafeUintnSub) any uint unsigned_value UINTN_ERROR (-)
    \<and> computes SafeUintnMult any uint unsigned_value UINTN_ERROR (*)
    \<and> computes SafeIntnAdd any sint signed_value INTN_ERROR (+)
    \<and> computes SafeIntnSub any sint signed_value INTN_ERROR (-)
    \<and> computes SafeIntnMult any sint signed_value INTN_ERROR (*)"
  by (simp add: SafeUint_add_sub SafeUint_small_mult SafeUint64Mult_computes SafeInt_small SafeInt32Mult_computes SafeInt64Add_computes
      SafeInt64Sub_computes SafeInt64Mult_computes SafeChar8_computes native_operations native_errors)

end
