(* ===== verification/Linked_List.thy ===== *)
theory Linked_List
  imports Dxe_Prelude
begin

text \<open>
  The doubly linked lists of \<open>src/MdePkg/Library/BaseLib/LinkedList.c\<close> on an explicit heap.

  A heap maps the address of a \<open>LIST_ENTRY\<close> to its two links; an address that is not mapped
  faults when it is read or written. The two PCDs the functions consult,
  \<open>PcdMaximumLinkedListLength\<close> (\<open>0\<close>: no limit) and \<open>PcdVerifyNodeInList\<close>, are arguments, and
  every \<open>ASSERT\<close> is kept.

  A ring of nodes \<open>ns\<close> is \<open>ring h ns\<close>; a list with head node \<open>l\<close> and elements \<open>xs\<close> is the ring
  \<open>l # xs\<close>. The lemmas show that each function does on \<open>xs\<close> what the list operation of the same
  name does, leaves every other node alone and passes its assertions. The locale \<open>list_ops\<close> is the
  contract the other components rely on when they keep a list as a sequence of pointers.
\<close>

section \<open>Nodes and the heap\<close>

record LIST_ENTRY =
  ForwardLink :: ptr
  BackLink :: ptr

type_synonym list_heap = "ptr \<Rightarrow> LIST_ENTRY option"

definition GetForwardLink :: "list_heap \<Rightarrow> ptr \<Rightarrow> ptr option" where
  "GetForwardLink h p = map_option ForwardLink (h p)"

definition GetBackLink :: "list_heap \<Rightarrow> ptr \<Rightarrow> ptr option" where
  "GetBackLink h p = map_option BackLink (h p)"

definition SetForwardLink :: "list_heap \<Rightarrow> ptr \<Rightarrow> ptr \<Rightarrow> list_heap option" where
  "SetForwardLink h p v = map_option (\<lambda>n. h(p \<mapsto> n\<lparr>ForwardLink := v\<rparr>)) (h p)"

definition SetBackLink :: "list_heap \<Rightarrow> ptr \<Rightarrow> ptr \<Rightarrow> list_heap option" where
  "SetBackLink h p v = map_option (\<lambda>n. h(p \<mapsto> n\<lparr>BackLink := v\<rparr>)) (h p)"

section \<open>Validity checks\<close>

text \<open>The counting loop stops at the head or at the limit, whichever comes first.\<close>

function CountNodes :: "nat \<Rightarrow> list_heap \<Rightarrow> ptr \<Rightarrow> ptr \<Rightarrow> nat \<Rightarrow> nat option" where
  "CountNodes PcdMax h List Ptr Count =
     (case GetForwardLink h Ptr of
        None \<Rightarrow> None
      | Some Ptr' \<Rightarrow>
          if Ptr' \<noteq> List \<and> Count + 1 < PcdMax then CountNodes PcdMax h List Ptr' (Count + 1)
          else Some (Count + 1))"
  by pat_completeness auto
termination
  by (relation "measure (\<lambda>(m, h, l, p, c). m - c)") auto

declare CountNodes.simps [simp del]

definition InternalBaseLibIsListValid :: "nat \<Rightarrow> list_heap \<Rightarrow> ptr \<Rightarrow> bool option" where
  "InternalBaseLibIsListValid PcdMax h List = do {
     ASSERT (List \<noteq> NULL);
     F \<leftarrow> GetForwardLink h List;
     ASSERT (F \<noteq> NULL);
     B \<leftarrow> GetBackLink h List;
     ASSERT (B \<noteq> NULL);
     if PcdMax > 0 then do {
       Count \<leftarrow> CountNodes PcdMax h List List 0;
       Some (Count < PcdMax)
     }
     else Some True
   }"

text \<open>Without a limit the search does not end on a chain that never meets either node.\<close>

partial_function (option) SearchNode :: "nat \<Rightarrow> list_heap \<Rightarrow> ptr \<Rightarrow> ptr \<Rightarrow> ptr \<Rightarrow> nat \<Rightarrow> bool option" where
  "SearchNode PcdMax h FirstEntry SecondEntry Ptr Count =
     (case GetForwardLink h Ptr of
        None \<Rightarrow> None
      | Some Ptr' \<Rightarrow>
          if PcdMax > 0 \<and> Count + 1 = PcdMax then Some (Ptr' = SecondEntry)
          else if Ptr' = SecondEntry then Some True
          else if Ptr' \<noteq> FirstEntry then SearchNode PcdMax h FirstEntry SecondEntry Ptr' (Count + 1)
          else Some False)"

definition IsNodeInList :: "nat \<Rightarrow> list_heap \<Rightarrow> ptr \<Rightarrow> ptr \<Rightarrow> bool option" where
  "IsNodeInList PcdMax h FirstEntry SecondEntry = do {
     Valid \<leftarrow> InternalBaseLibIsListValid PcdMax h FirstEntry;
     ASSERT Valid;
     ASSERT (SecondEntry \<noteq> NULL);
     SearchNode PcdMax h FirstEntry SecondEntry FirstEntry 0
   }"

definition ASSERT_VERIFY_NODE_IN_VALID_LIST ::
  "bool \<Rightarrow> nat \<Rightarrow> list_heap \<Rightarrow> ptr \<Rightarrow> ptr \<Rightarrow> bool \<Rightarrow> unit option" where
  "ASSERT_VERIFY_NODE_IN_VALID_LIST PcdVerify PcdMax h FirstEntry SecondEntry InList =
     (if PcdVerify then do {
        Found \<leftarrow> IsNodeInList PcdMax h FirstEntry SecondEntry;
        ASSERT (InList = Found)
      }
      else do {
        Valid \<leftarrow> InternalBaseLibIsListValid PcdMax h FirstEntry;
        ASSERT Valid
      })"

section \<open>The list functions\<close>

definition InitializeListHead :: "list_heap \<Rightarrow> ptr \<Rightarrow> (ptr \<times> list_heap) option" where
  "InitializeListHead h ListHead = do {
     ASSERT (ListHead \<noteq> NULL);
     h \<leftarrow> SetForwardLink h ListHead ListHead;
     h \<leftarrow> SetBackLink h ListHead ListHead;
     Some (ListHead, h)
   }"

definition InsertHeadList :: "bool \<Rightarrow> nat \<Rightarrow> list_heap \<Rightarrow> ptr \<Rightarrow> ptr \<Rightarrow> (ptr \<times> list_heap) option" where
  "InsertHeadList PcdVerify PcdMax h ListHead Entry = do {
     ASSERT_VERIFY_NODE_IN_VALID_LIST PcdVerify PcdMax h ListHead Entry False;
     F \<leftarrow> GetForwardLink h ListHead;
     h \<leftarrow> SetForwardLink h Entry F;
     h \<leftarrow> SetBackLink h Entry ListHead;
     F \<leftarrow> GetForwardLink h Entry;
     h \<leftarrow> SetBackLink h F Entry;
     h \<leftarrow> SetForwardLink h ListHead Entry;
     Some (ListHead, h)
   }"

definition InsertTailList :: "bool \<Rightarrow> nat \<Rightarrow> list_heap \<Rightarrow> ptr \<Rightarrow> ptr \<Rightarrow> (ptr \<times> list_heap) option" where
  "InsertTailList PcdVerify PcdMax h ListHead Entry = do {
     ASSERT_VERIFY_NODE_IN_VALID_LIST PcdVerify PcdMax h ListHead Entry False;
     h \<leftarrow> SetForwardLink h Entry ListHead;
     B \<leftarrow> GetBackLink h ListHead;
     h \<leftarrow> SetBackLink h Entry B;
     B \<leftarrow> GetBackLink h Entry;
     h \<leftarrow> SetForwardLink h B Entry;
     h \<leftarrow> SetBackLink h ListHead Entry;
     Some (ListHead, h)
   }"

definition GetFirstNode :: "nat \<Rightarrow> list_heap \<Rightarrow> ptr \<Rightarrow> ptr option" where
  "GetFirstNode PcdMax h List = do {
     Valid \<leftarrow> InternalBaseLibIsListValid PcdMax h List;
     ASSERT Valid;
     GetForwardLink h List
   }"

definition GetNextNode :: "bool \<Rightarrow> nat \<Rightarrow> list_heap \<Rightarrow> ptr \<Rightarrow> ptr \<Rightarrow> ptr option" where
  "GetNextNode PcdVerify PcdMax h List Node = do {
     ASSERT_VERIFY_NODE_IN_VALID_LIST PcdVerify PcdMax h List Node True;
     GetForwardLink h Node
   }"

definition GetPreviousNode :: "bool \<Rightarrow> nat \<Rightarrow> list_heap \<Rightarrow> ptr \<Rightarrow> ptr \<Rightarrow> ptr option" where
  "GetPreviousNode PcdVerify PcdMax h List Node = do {
     ASSERT_VERIFY_NODE_IN_VALID_LIST PcdVerify PcdMax h List Node True;
     GetBackLink h Node
   }"

definition IsListEmpty :: "nat \<Rightarrow> list_heap \<Rightarrow> ptr \<Rightarrow> bool option" where
  "IsListEmpty PcdMax h ListHead = do {
     Valid \<leftarrow> InternalBaseLibIsListValid PcdMax h ListHead;
     ASSERT Valid;
     F \<leftarrow> GetForwardLink h ListHead;
     Some (F = ListHead)
   }"

definition IsNull :: "bool \<Rightarrow> nat \<Rightarrow> list_heap \<Rightarrow> ptr \<Rightarrow> ptr \<Rightarrow> bool option" where
  "IsNull PcdVerify PcdMax h List Node = do {
     ASSERT_VERIFY_NODE_IN_VALID_LIST PcdVerify PcdMax h List Node True;
     Some (Node = List)
   }"

definition IsNodeAtEnd :: "bool \<Rightarrow> nat \<Rightarrow> list_heap \<Rightarrow> ptr \<Rightarrow> ptr \<Rightarrow> bool option" where
  "IsNodeAtEnd PcdVerify PcdMax h List Node = do {
     ASSERT_VERIFY_NODE_IN_VALID_LIST PcdVerify PcdMax h List Node True;
     Null \<leftarrow> IsNull PcdVerify PcdMax h List Node;
     if Null then Some False
     else do {
       B \<leftarrow> GetBackLink h List;
       Some (B = Node)
     }
   }"

definition RemoveEntryList :: "nat \<Rightarrow> list_heap \<Rightarrow> ptr \<Rightarrow> (ptr \<times> list_heap) option" where
  "RemoveEntryList PcdMax h Entry = do {
     Empty \<leftarrow> IsListEmpty PcdMax h Entry;
     ASSERT (\<not> Empty);
     F \<leftarrow> GetForwardLink h Entry;
     B \<leftarrow> GetBackLink h Entry;
     h \<leftarrow> SetBackLink h F B;
     F \<leftarrow> GetForwardLink h Entry;
     B \<leftarrow> GetBackLink h Entry;
     h \<leftarrow> SetForwardLink h B F;
     F \<leftarrow> GetForwardLink h Entry;
     Some (F, h)
   }"

definition SwapListEntries :: "bool \<Rightarrow> nat \<Rightarrow> list_heap \<Rightarrow> ptr \<Rightarrow> ptr \<Rightarrow> (ptr \<times> list_heap) option" where
  "SwapListEntries PcdVerify PcdMax h FirstEntry SecondEntry =
     (if FirstEntry = SecondEntry then Some (SecondEntry, h)
      else do {
        ASSERT_VERIFY_NODE_IN_VALID_LIST PcdVerify PcdMax h FirstEntry SecondEntry True;
        (Ptr, h) \<leftarrow> RemoveEntryList PcdMax h FirstEntry;
        B \<leftarrow> GetBackLink h Ptr;
        if B = SecondEntry then InsertTailList PcdVerify PcdMax h SecondEntry FirstEntry
        else do {
          (Head, h) \<leftarrow> InsertHeadList PcdVerify PcdMax h SecondEntry FirstEntry;
          if Ptr = Head then Some (Ptr, h)
          else do {
            (_, h) \<leftarrow> RemoveEntryList PcdMax h SecondEntry;
            (_, h) \<leftarrow> InsertTailList PcdVerify PcdMax h Ptr SecondEntry;
            Some (SecondEntry, h)
          }
        }
      })"

section \<open>Rings\<close>

definition linked :: "list_heap \<Rightarrow> ptr \<Rightarrow> ptr \<Rightarrow> bool" where
  "linked h x y \<longleftrightarrow> GetForwardLink h x = Some y \<and> GetBackLink h y = Some x"

fun chain :: "list_heap \<Rightarrow> ptr list \<Rightarrow> bool" where
  "chain h (x # y # ys) = (linked h x y \<and> chain h (y # ys))"
| "chain h _ = True"

definition ring :: "list_heap \<Rightarrow> ptr list \<Rightarrow> bool" where
  "ring h ns \<longleftrightarrow> ns \<noteq> [] \<and> distinct ns \<and> NULL \<notin> set ns \<and> chain h (ns @ [hd ns])"

lemma chain_append: "chain h (xs @ y # ys) \<longleftrightarrow> chain h (xs @ [y]) \<and> chain h (y # ys)"
  by (induction xs rule: induct_list012) auto

lemma ring_rotate: "ring h (xs @ ys) \<longleftrightarrow> ring h (ys @ xs)"
proof -
  have one: "ring h (x # xs @ y # ys) \<Longrightarrow> ring h (y # ys @ x # xs)" for x y xs ys
    using chain_append [of h "x # xs" y "ys @ [x]"] chain_append [of h "y # ys" x "xs @ [y]"]
    by (auto simp: ring_def)
  show ?thesis by (cases xs; cases ys) (auto intro: one)
qed

lemma chain_frame:
  assumes "chain h zs"
    and "\<And>x. x \<in> set (butlast zs) \<Longrightarrow> GetForwardLink h' x = GetForwardLink h x"
    and "\<And>x. x \<in> set (tl zs) \<Longrightarrow> GetBackLink h' x = GetBackLink h x"
  shows "chain h' zs"
  using assms
proof (induction zs rule: induct_list012)
  case (3 x y zs)
  have "chain h' (y # zs)"
  proof (rule "3.IH"(2))
    show "chain h (y # zs)" using "3.prems"(1) by simp
    show "GetForwardLink h' z = GetForwardLink h z" if "z \<in> set (butlast (y # zs))" for z
      using "3.prems"(2) that by simp
    show "GetBackLink h' z = GetBackLink h z" if "z \<in> set (tl (y # zs))" for z
      using "3.prems"(3) that by simp
  qed
  moreover have "linked h' x y" using 3 by (simp add: linked_def)
  ultimately show ?case by simp
qed simp_all

lemma chain_linked: "chain h (us @ x # y # vs) \<Longrightarrow> linked h x y"
  using chain_append [of h us x "y # vs"] by simp

lemma ring_next: "ring h (xs @ x # ys) \<Longrightarrow> GetForwardLink h x = Some (hd (ys @ xs @ [x]))"
proof -
  assume "ring h (xs @ x # ys)"
  then have "ring h (x # ys @ xs)" using ring_rotate [of h xs "x # ys"] by simp
  then show ?thesis by (cases ys; cases xs) (auto simp: ring_def linked_def)
qed

lemma ring_prev: "ring h (xs @ x # ys) \<Longrightarrow> GetBackLink h x = Some (last (x # ys @ xs))"
proof -
  assume "ring h (xs @ x # ys)"
  then have r: "ring h (x # ys @ xs)" using ring_rotate [of h xs "x # ys"] by simp
  obtain us z where uz: "x # ys @ xs = us @ [z]" by (metis list.distinct(1) rev_exhaust)
  then have "hd (us @ [z]) = x" by (metis list.sel(1))
  with r uz have "chain h (us @ z # x # [])" by (simp add: ring_def)
  from chain_linked [OF this] uz show ?thesis by (metis last_snoc linked_def)
qed

lemma ring_mapped: "ring h ns \<Longrightarrow> x \<in> set ns \<Longrightarrow> h x \<noteq> None"
  using ring_next by (fastforce simp: GetForwardLink_def dest: split_list)

lemma ring_distinct [dest]: "ring h ns \<Longrightarrow> distinct ns"
  by (simp add: ring_def)

lemma ring_not_NULL: "ring h ns \<Longrightarrow> x \<in> set ns \<Longrightarrow> x \<noteq> NULL"
  by (metis ring_def)

text \<open>Splicing a node in after \<open>p\<close>, and taking a node out.\<close>

lemma ring_insert:
  assumes r: "ring h (p # xs)" and e: "e \<notin> set (p # xs)" "e \<noteq> NULL" and q: "q = hd (xs @ [p])"
    and F: "GetForwardLink h' = (GetForwardLink h)(e \<mapsto> q, p \<mapsto> e)"
    and B: "GetBackLink h' = (GetBackLink h)(e \<mapsto> p, q \<mapsto> e)"
  shows "ring h' (p # e # xs)"
proof -
  have d: "distinct (p # xs)" and c: "chain h (xs @ [p])"
    using r by (auto simp: ring_def) (cases xs; auto)
  have qe: "q \<noteq> e" using e q by (cases xs) auto
  have "q \<notin> set (tl (xs @ [p]))" using d q by (cases xs) auto
  moreover have "e \<notin> set (tl (xs @ [p]))" using e by (cases xs) auto
  ultimately have "chain h' (xs @ [p])"
    using e d by (intro chain_frame [OF c]) (auto simp: F B)
  moreover have "linked h' p e" "linked h' e q"
    using e qe by (auto simp: linked_def F B)
  ultimately show ?thesis
    using r e q by (cases xs) (auto simp: ring_def)
qed

lemma ring_delete:
  assumes r: "ring h (e # xs)" and ne: "xs \<noteq> []"
    and F: "GetForwardLink h' = (GetForwardLink h)(last xs \<mapsto> hd xs)"
    and B: "GetBackLink h' = (GetBackLink h)(hd xs \<mapsto> last xs)"
  shows "ring h' xs"
proof -
  have d: "distinct xs" using r by (auto simp: ring_def)
  obtain us z where uz: "xs = us @ [z]" using ne by (metis rev_exhaust)
  then have "chain h (e # xs)"
    using r chain_append [of h "e # us" z "[e]"] by (simp add: ring_def)
  then have c: "chain h xs" using ne by (cases xs) auto
  have "last xs \<notin> set (butlast xs)"
    using d ne by (metis append_butlast_last_id disjoint_iff distinct_append list.set_intros(1))
  moreover have "hd xs \<notin> set (tl xs)" using d ne by (cases xs) auto
  ultimately have "chain h' xs" by (intro chain_frame [OF c]) (auto simp: F B)
  moreover have "linked h' (last xs) (hd xs)" by (simp add: linked_def F B)
  ultimately have "chain h' (xs @ [hd xs])"
    using uz chain_append [of h' us z "[hd xs]"] by simp
  then show ?thesis using r ne by (auto simp: ring_def)
qed

section \<open>The checks on a ring\<close>

definition fits :: "nat \<Rightarrow> nat \<Rightarrow> bool" where
  "fits PcdMax n \<longleftrightarrow> PcdMax = 0 \<or> n < PcdMax"

lemma CountNodes_ring:
  assumes "ring h (l # xs @ ys)" and "length xs < m"
  shows "CountNodes m h l (last (l # xs)) (length xs) = Some (min (Suc (length xs + length ys)) m)"
  using assms
proof (induction ys arbitrary: xs)
  case Nil
  have "GetForwardLink h (last (l # xs)) = Some l"
    using Nil.prems(1) ring_next [of h "butlast (l # xs)" "last (l # xs)" "[]"]
    by (cases xs rule: rev_cases) auto
  then show ?case using Nil.prems(2) by (simp add: CountNodes.simps)
next
  case (Cons y ys)
  have "GetForwardLink h (last (l # xs)) = Some y"
    using Cons.prems(1) ring_next [of h "butlast (l # xs)" "last (l # xs)" "y # ys"]
    by (cases xs rule: rev_cases) auto
  moreover have "y \<noteq> l" using Cons.prems(1) by (auto simp: ring_def)
  moreover have "CountNodes m h l (last (l # xs @ [y])) (length (xs @ [y]))
      = Some (min (Suc (length (xs @ [y]) + length ys)) m)" if "Suc (length xs) < m"
    using Cons.prems(1) that by (intro Cons.IH) auto
  ultimately show ?case
    using Cons.prems(2) by (subst CountNodes.simps) (auto simp: min_def)
qed

lemma InternalBaseLibIsListValid_ring:
  assumes "ring h (l # xs)"
  shows "InternalBaseLibIsListValid m h l = Some (fits m (Suc (length xs)))"
proof -
  obtain f where "GetForwardLink h l = Some f" "f \<in> set (l # xs)"
    using ring_next [of h "[]" l xs] assms by (cases xs) auto
  moreover obtain b where "GetBackLink h l = Some b" "b \<in> set (l # xs)"
    using ring_prev [of h "[]" l xs] assms by (metis append_Nil append_Nil2 last_in_set list.distinct(1))
  moreover have "CountNodes m h l l 0 = Some (min (Suc (length xs)) m)" if "0 < m"
    using CountNodes_ring [of h l "[]" xs m] assms that by simp
  ultimately show ?thesis
    using ring_not_NULL [OF assms] by (auto simp: InternalBaseLibIsListValid_def fits_def min_def)
qed

lemma SearchNode_ring:
  assumes "ring h (l # xs @ ys)" and "fits m (Suc (length xs + length ys))"
    and "s \<notin> set xs"
  shows "SearchNode m h l s (last (l # xs)) (length xs) = Some (s \<in> set (l # ys))"
  using assms
proof (induction ys arbitrary: xs)
  case Nil
  have "GetForwardLink h (last (l # xs)) = Some l"
    using Nil.prems(1) ring_next [of h "butlast (l # xs)" "last (l # xs)" "[]"]
    by (cases xs rule: rev_cases) auto
  then show ?case using Nil.prems(2) by (auto simp: SearchNode.simps fits_def)
next
  case (Cons y ys)
  have "GetForwardLink h (last (l # xs)) = Some y"
    using Cons.prems(1) ring_next [of h "butlast (l # xs)" "last (l # xs)" "y # ys"]
    by (cases xs rule: rev_cases) auto
  moreover have "y \<noteq> l" using Cons.prems(1) by (auto simp: ring_def)
  moreover have "SearchNode m h l s (last (l # xs @ [y])) (length (xs @ [y])) = Some (s \<in> set (l # ys))"
    if "s \<noteq> y" using Cons.prems that by (intro Cons.IH) auto
  ultimately show ?case
    using Cons.prems(2) by (subst SearchNode.simps) (auto simp: fits_def)
qed

lemma IsNodeInList_ring:
  assumes "ring h (l # xs)" and "fits m (Suc (length xs))" and "s \<noteq> NULL"
  shows "IsNodeInList m h l s = Some (s \<in> set (l # xs))"
  using assms SearchNode_ring [of h l "[]" xs m s]
  by (simp add: IsNodeInList_def InternalBaseLibIsListValid_ring)

lemma verify_ring:
  assumes "ring h (l # xs)" and "fits m (Suc (length xs))" and "s \<noteq> NULL"
    and "b \<longleftrightarrow> s \<in> set (l # xs)"
  shows "ASSERT_VERIFY_NODE_IN_VALID_LIST v m h l s b = Some ()"
  using assms IsNodeInList_ring [OF assms(1-3)]
  by (simp add: ASSERT_VERIFY_NODE_IN_VALID_LIST_def InternalBaseLibIsListValid_ring [OF assms(1)])

section \<open>The functions on a ring\<close>

text \<open>One store changes one link of one node.\<close>

lemma SetForwardLink_mapped:
  assumes "h p \<noteq> None"
  obtains h' where "SetForwardLink h p v = Some h'" "GetForwardLink h' = (GetForwardLink h)(p \<mapsto> v)"
    "GetBackLink h' = GetBackLink h" "dom h' = dom h" "\<And>x. x \<noteq> p \<Longrightarrow> h' x = h x"
proof -
  obtain n where "h p = Some n" using assms by blast
  then show ?thesis
    by (intro that [of "h(p \<mapsto> n\<lparr>ForwardLink := v\<rparr>)"])
      (auto simp: SetForwardLink_def GetForwardLink_def GetBackLink_def fun_eq_iff)
qed

lemma SetBackLink_mapped:
  assumes "h p \<noteq> None"
  obtains h' where "SetBackLink h p v = Some h'" "GetBackLink h' = (GetBackLink h)(p \<mapsto> v)"
    "GetForwardLink h' = GetForwardLink h" "dom h' = dom h" "\<And>x. x \<noteq> p \<Longrightarrow> h' x = h x"
proof -
  obtain n where "h p = Some n" using assms by blast
  then show ?thesis
    by (intro that [of "h(p \<mapsto> n\<lparr>BackLink := v\<rparr>)"])
      (auto simp: SetBackLink_def GetForwardLink_def GetBackLink_def fun_eq_iff)
qed

definition untouched :: "ptr set \<Rightarrow> list_heap \<Rightarrow> list_heap \<Rightarrow> bool" where
  "untouched A h h' \<longleftrightarrow> dom h' = dom h \<and> (\<forall>x. x \<notin> A \<longrightarrow> h' x = h x)"

lemma untouched_trans:
  "untouched A h h' \<Longrightarrow> untouched B h' h'' \<Longrightarrow> A \<subseteq> C \<Longrightarrow> B \<subseteq> C \<Longrightarrow> untouched C h h''"
  unfolding untouched_def by (metis subsetD)

lemma InitializeListHead_ring:
  assumes "l \<noteq> NULL" and "h l \<noteq> None"
  shows "\<exists>h'. InitializeListHead h l = Some (l, h') \<and> ring h' [l] \<and> untouched {l} h h'"
proof -
  obtain h1 where h1: "SetForwardLink h l l = Some h1" "GetForwardLink h1 = (GetForwardLink h)(l \<mapsto> l)"
    "dom h1 = dom h" "\<And>x. x \<noteq> l \<Longrightarrow> h1 x = h x" using SetForwardLink_mapped [where h = h and p = l] assms(2) by metis
  then have "h1 l \<noteq> None" using assms(2) by blast
  then obtain h2 where h2: "SetBackLink h1 l l = Some h2" "GetBackLink h2 = (GetBackLink h1)(l \<mapsto> l)"
    "GetForwardLink h2 = GetForwardLink h1" "dom h2 = dom h1" "\<And>x. x \<noteq> l \<Longrightarrow> h2 x = h1 x"
    using SetBackLink_mapped by metis
  show ?thesis using assms(1) h1 h2
    by (auto simp: InitializeListHead_def ring_def linked_def untouched_def)
qed

lemma InsertHeadList_ring:
  assumes r: "ring h (l # xs)" and m: "fits m (Suc (length xs))"
    and e: "e \<notin> set (l # xs)" "e \<noteq> NULL" "h e \<noteq> None"
  shows "\<exists>h'. InsertHeadList v m h l e = Some (l, h') \<and> ring h' (l # e # xs)
    \<and> untouched (set (l # e # xs)) h h'"
proof -
  define q where "q = hd (xs @ [l])"
  have F: "GetForwardLink h l = Some q" using ring_next [of h "[]" l xs] r by (simp add: q_def)
  have mem: "q \<in> set (l # xs)" by (cases xs) (auto simp: q_def)
  have mapped: "h l \<noteq> None" "h q \<noteq> None" using ring_mapped [OF r] mem by auto
  obtain h1 where h1: "SetForwardLink h e q = Some h1" "GetForwardLink h1 = (GetForwardLink h)(e \<mapsto> q)"
    "GetBackLink h1 = GetBackLink h" "dom h1 = dom h" "\<And>x. x \<noteq> e \<Longrightarrow> h1 x = h x"
    using SetForwardLink_mapped [where h = h and p = e] e(3) by metis
  then have "h1 e \<noteq> None" using e(3) by blast
  then obtain h2 where h2: "SetBackLink h1 e l = Some h2" "GetBackLink h2 = (GetBackLink h1)(e \<mapsto> l)"
    "GetForwardLink h2 = GetForwardLink h1" "dom h2 = dom h1" "\<And>x. x \<noteq> e \<Longrightarrow> h2 x = h1 x"
    using SetBackLink_mapped by metis
  then have "h2 q \<noteq> None" using h1 mapped by blast
  then obtain h3 where h3: "SetBackLink h2 q e = Some h3" "GetBackLink h3 = (GetBackLink h2)(q \<mapsto> e)"
    "GetForwardLink h3 = GetForwardLink h2" "dom h3 = dom h2" "\<And>x. x \<noteq> q \<Longrightarrow> h3 x = h2 x"
    using SetBackLink_mapped by metis
  then have "h3 l \<noteq> None" using h1 h2 mapped by blast
  then obtain h4 where h4: "SetForwardLink h3 l e = Some h4" "GetForwardLink h4 = (GetForwardLink h3)(l \<mapsto> e)"
    "GetBackLink h4 = GetBackLink h3" "dom h4 = dom h3" "\<And>x. x \<noteq> l \<Longrightarrow> h4 x = h3 x"
    using SetForwardLink_mapped by metis
  have "InsertHeadList v m h l e = Some (l, h4)"
    using verify_ring [OF r m e(2), of False v] e(1) F h1 h2 h3 h4 by (simp add: InsertHeadList_def)
  moreover have "ring h4 (l # e # xs)"
    using h1 h2 h3 h4 by (intro ring_insert [OF r e(1,2) q_def]) simp_all
  moreover have "untouched (set (l # e # xs)) h h4"
    using mem h1(4,5) h2(4,5) h3(4,5) h4(4,5) by (auto simp: untouched_def) metis
  ultimately show ?thesis by blast
qed

lemma InsertTailList_ring:
  assumes r: "ring h (l # xs)" and m: "fits m (Suc (length xs))"
    and e: "e \<notin> set (l # xs)" "e \<noteq> NULL" "h e \<noteq> None"
  shows "\<exists>h'. InsertTailList v m h l e = Some (l, h') \<and> ring h' (l # xs @ [e])
    \<and> untouched (set (l # e # xs)) h h'"
proof -
  define p where "p = last (l # xs)"
  have rot: "l # xs = butlast (l # xs) @ [p]" unfolding p_def by (rule append_butlast_last_id [symmetric]) simp
  have r': "ring h (p # butlast (l # xs))"
    using r ring_rotate [of h "butlast (l # xs)" "[p]"] rot by simp
  have q: "l = hd (butlast (l # xs) @ [p])" using rot by (metis list.sel(1))
  have B: "GetBackLink h l = Some p" using ring_prev [of h "[]" l xs] r by (simp add: p_def)
  have mem: "p \<in> set (l # xs)" unfolding p_def by (rule last_in_set) simp
  have mapped: "h l \<noteq> None" "h p \<noteq> None" using ring_mapped [OF r] mem by auto
  have e': "e \<notin> set (p # butlast (l # xs))" 
    using e(1) mem by (auto dest: in_set_butlastD split: if_splits)
  obtain h1 where h1: "SetForwardLink h e l = Some h1" "GetForwardLink h1 = (GetForwardLink h)(e \<mapsto> l)"
    "GetBackLink h1 = GetBackLink h" "dom h1 = dom h" "\<And>x. x \<noteq> e \<Longrightarrow> h1 x = h x"
    using SetForwardLink_mapped [where h = h and p = e] e(3) by metis
  then have "h1 e \<noteq> None" using e(3) by blast
  then obtain h2 where h2: "SetBackLink h1 e p = Some h2" "GetBackLink h2 = (GetBackLink h1)(e \<mapsto> p)"
    "GetForwardLink h2 = GetForwardLink h1" "dom h2 = dom h1" "\<And>x. x \<noteq> e \<Longrightarrow> h2 x = h1 x"
    using SetBackLink_mapped by metis
  then have "h2 p \<noteq> None" using h1 mapped by blast
  then obtain h3 where h3: "SetForwardLink h2 p e = Some h3" "GetForwardLink h3 = (GetForwardLink h2)(p \<mapsto> e)"
    "GetBackLink h3 = GetBackLink h2" "dom h3 = dom h2" "\<And>x. x \<noteq> p \<Longrightarrow> h3 x = h2 x"
    using SetForwardLink_mapped by metis
  then have "h3 l \<noteq> None" using h1 h2 mapped by blast
  then obtain h4 where h4: "SetBackLink h3 l e = Some h4" "GetBackLink h4 = (GetBackLink h3)(l \<mapsto> e)"
    "GetForwardLink h4 = GetForwardLink h3" "dom h4 = dom h3" "\<And>x. x \<noteq> l \<Longrightarrow> h4 x = h3 x"
    using SetBackLink_mapped by metis
  have "InsertTailList v m h l e = Some (l, h4)"
    using verify_ring [OF r m e(2), of False v] e(1) B h1 h2 h3 h4 by (simp add: InsertTailList_def)
  moreover have "ring h4 (p # e # butlast (l # xs))"
    using h1 h2 h3 h4 by (intro ring_insert [OF r' e' e(2) q]) simp_all
  then have "ring h4 (l # xs @ [e])"
    using ring_rotate [of h4 "[p, e]" "butlast (l # xs)"] rot
    by (metis append.assoc append_Cons append_Nil)
  moreover have "untouched (set (l # e # xs)) h h4"
    using mem h1(4,5) h2(4,5) h3(4,5) h4(4,5) by (auto simp: untouched_def) metis
  ultimately show ?thesis by blast
qed

lemma RemoveEntryList_ring:
  assumes r: "ring h (e # xs)" and ne: "xs \<noteq> []" and m: "fits m (Suc (length xs))"
  shows "\<exists>h'. RemoveEntryList m h e = Some (hd xs, h') \<and> ring h' xs \<and> untouched (set xs) h h'"
proof -
  define f b where "f = hd xs" and "b = last xs"
  have mem: "f \<in> set xs" "b \<in> set xs" using ne by (auto simp: f_def b_def)
  have neq: "f \<noteq> e" "b \<noteq> e" using r mem by (auto simp: ring_def)
  have F: "GetForwardLink h e = Some f" using ring_next [of h "[]" e xs] r ne by (simp add: f_def)
  have B: "GetBackLink h e = Some b" using ring_prev [of h "[]" e xs] r ne by (simp add: b_def)
  have mapped: "h f \<noteq> None" "h b \<noteq> None" using ring_mapped [OF r] mem by auto
  obtain h1 where h1: "SetBackLink h f b = Some h1" "GetBackLink h1 = (GetBackLink h)(f \<mapsto> b)"
    "GetForwardLink h1 = GetForwardLink h" "dom h1 = dom h" "\<And>x. x \<noteq> f \<Longrightarrow> h1 x = h x"
    using SetBackLink_mapped [where h = h and p = f] mapped by metis
  then have "h1 b \<noteq> None" using mapped by blast
  then obtain h2 where h2: "SetForwardLink h1 b f = Some h2" "GetForwardLink h2 = (GetForwardLink h1)(b \<mapsto> f)"
    "GetBackLink h2 = GetBackLink h1" "dom h2 = dom h1" "\<And>x. x \<noteq> b \<Longrightarrow> h2 x = h1 x"
    using SetForwardLink_mapped [where h = h1 and p = b] by metis
  have "RemoveEntryList m h e = Some (f, h2)"
    using InternalBaseLibIsListValid_ring [OF r, of m] m F B neq h1 h2
    by (simp add: RemoveEntryList_def IsListEmpty_def)
  moreover have "ring h2 xs" using h1 h2 by (intro ring_delete [OF r ne]) (simp_all add: f_def b_def)
  moreover have "untouched (set xs) h h2"
    using mem h1(4,5) h2(4,5) by (auto simp: untouched_def) metis
  ultimately show ?thesis unfolding f_def by blast
qed

lemma SwapListEntries_front:
  assumes r: "ring h (a # us @ b # vs)" and m: "fits m (length (a # us @ b # vs))"
  shows "\<exists>h'. SwapListEntries v m h a b = Some (b, h') \<and> ring h' (b # us @ a # vs)
    \<and> untouched (set (a # us @ b # vs)) h h'"
proof -
  have d: "distinct (a # us @ b # vs)" and nn: "a \<noteq> NULL" "b \<noteq> NULL"
    using ring_distinct [OF r] ring_not_NULL [OF r] by (simp_all del: neq0_conv)
  have fit: "fits m (Suc n)" if "n \<le> length us + length vs + 1" for n
    using m that by (auto simp: fits_def)
  have ab: "a \<noteq> b" using d by auto
  have chk: "ASSERT_VERIFY_NODE_IN_VALID_LIST v m h a b True = Some ()"
    using verify_ring [OF r _ nn(2), of m True v] m by simp
  obtain h1 where h1: "RemoveEntryList m h a = Some (hd (us @ b # vs), h1)" "ring h1 (us @ b # vs)"
    "untouched (set (us @ b # vs)) h h1"
    using RemoveEntryList_ring [OF r] m by auto
  have rb: "ring h1 (b # vs @ us)" using h1(2) ring_rotate [of h1 us "b # vs"] by simp
  have a1: "a \<notin> set (b # vs @ us)" "h1 a \<noteq> None"
    using d ring_mapped [OF r, of a] h1(3) by (auto simp: untouched_def)
  have prev: "GetBackLink h1 (hd (us @ b # vs)) = Some (last (us @ b # vs))"
    using h1(2) ring_prev [of h1 "[]" "hd (us @ b # vs)" "tl (us @ b # vs)"] by (cases us) auto
  show ?thesis
  proof (cases vs)
    case Nil
    have rb': "ring h1 (b # us)" "a \<notin> set (b # us)" using rb a1(1) Nil by simp_all
    obtain h2 where h2: "InsertTailList v m h1 b a = Some (b, h2)" "ring h2 (b # us @ [a])"
      "untouched (set (b # a # us)) h1 h2"
      using InsertTailList_ring [OF rb'(1) _ rb'(2) nn(1) a1(2), of m v] fit by auto
    have "SwapListEntries v m h a b = Some (b, h2)"
      using Nil chk h1(1) h2(1) prev ab by (simp add: SwapListEntries_def)
    moreover have "untouched (set (a # us @ b # vs)) h h2"
      by (rule untouched_trans [OF h1(3) h2(3)]) auto
    ultimately show ?thesis using h2(2) Nil by blast
  next
    case (Cons w ws)
    obtain h2 where h2: "InsertHeadList v m h1 b a = Some (b, h2)" "ring h2 (b # a # vs @ us)"
      "untouched (set (b # a # vs @ us)) h1 h2"
      using InsertHeadList_ring [OF rb _ a1(1) nn(1) a1(2), of m v] fit by auto
    have last: "last (us @ b # vs) \<noteq> b" using d Cons by auto
    have u2: "untouched (set (a # us @ b # vs)) h h2"
      by (rule untouched_trans [OF h1(3) h2(3)]) auto
    show ?thesis
    proof (cases us)
      case Nil
      have "SwapListEntries v m h a b = Some (b, h2)"
        using Nil chk h1(1) h2(1) prev last ab by (simp add: SwapListEntries_def)
      with h2(2) u2 Nil show ?thesis by auto
    next
      case us: (Cons u us')
      obtain h3 where h3: "RemoveEntryList m h2 b = Some (a, h3)" "ring h3 (a # vs @ us)"
        "untouched (set (a # vs @ us)) h2 h3"
        using RemoveEntryList_ring [OF h2(2), of m] fit by auto
      have r3: "ring h3 (u # us' @ a # vs)" using h3(2) ring_rotate [of h3 "a # vs" us] us by simp
      have b3: "b \<notin> set (u # us' @ a # vs)" "h3 b \<noteq> None"
        using d us ring_mapped [OF h2(2), of b] h3(3) by (auto simp: untouched_def)
      obtain h4 where h4: "InsertTailList v m h3 u b = Some (u, h4)" "ring h4 (u # (us' @ a # vs) @ [b])"
        "untouched (set (u # b # us' @ a # vs)) h3 h4"
        using InsertTailList_ring [OF r3 _ b3(1) nn(2) b3(2), of m v] fit us by auto
      have "ring h4 (b # us @ a # vs)" using h4(2) ring_rotate [of h4 "u # us' @ a # vs" "[b]"] us by simp
      moreover have "untouched (set (a # us @ b # vs)) h h4"
        by (rule untouched_trans [OF untouched_trans [OF u2 h3(3) order_refl] h4(3)]) (auto simp: us)
      moreover have "u \<noteq> b" using d us by auto
      then have "SwapListEntries v m h a b = Some (b, h4)"
        using us chk h1(1) h2(1) h3(1) h4(1) prev last ab by (simp add: SwapListEntries_def)
      ultimately show ?thesis by blast
    qed
  qed
qed

lemma ring_cong:
  assumes "ring h ns" and "\<And>x. x \<in> set ns \<Longrightarrow> h' x = h x"
  shows "ring h' ns"
proof -
  have same: "GetForwardLink h' x = GetForwardLink h x" "GetBackLink h' x = GetBackLink h x"
    if "x \<in> set ns" for x
    using assms(2) that by (simp_all add: GetForwardLink_def GetBackLink_def)
  obtain n ns' where ns: "ns = n # ns'" using assms(1) by (cases ns) (simp_all add: ring_def)
  have "chain h (ns @ [hd ns])" using assms(1) by (simp add: ring_def)
  then have "chain h' (ns @ [hd ns])"
    by (rule chain_frame) (auto simp: same ns)
  then show ?thesis using assms(1) by (simp add: ring_def)
qed

lemma ring_untouched:
  assumes "ring h ns" and "untouched A h h'" and "A \<inter> set ns = {}"
  shows "ring h' ns"
  by (rule ring_cong [OF assms(1)]) (use assms(2,3) in \<open>unfold untouched_def, blast\<close>)

section \<open>The contract of a list\<close>

text \<open>
  \<open>rep h l xs\<close>: in heap \<open>h\<close> the list with head node \<open>l\<close> has the elements \<open>xs\<close>; \<open>room n\<close>: the
  configured limit admits a list of \<open>n\<close> nodes, head included.
\<close>

locale list_ops =
  fixes rep :: "'h \<Rightarrow> ptr \<Rightarrow> ptr list \<Rightarrow> bool"
    and room :: "nat \<Rightarrow> bool"
    and usable :: "'h \<Rightarrow> ptr \<Rightarrow> bool"
    and insert_tail :: "'h \<Rightarrow> ptr \<Rightarrow> ptr \<Rightarrow> (ptr \<times> 'h) option"
    and remove :: "'h \<Rightarrow> ptr \<Rightarrow> (ptr \<times> 'h) option"
    and first :: "'h \<Rightarrow> ptr \<Rightarrow> ptr option"
    and succ :: "'h \<Rightarrow> ptr \<Rightarrow> ptr \<Rightarrow> ptr option"
    and at_head :: "'h \<Rightarrow> ptr \<Rightarrow> ptr \<Rightarrow> bool option"
  assumes room_mono: "room n \<Longrightarrow> k \<le> n \<Longrightarrow> room k"
    and rep_distinct: "rep h l xs \<Longrightarrow> distinct (l # xs)"
    and rep_usable: "rep h l xs \<Longrightarrow> x \<in> set (l # xs) \<Longrightarrow> usable h x"
    and insert_tail_law: "rep h l xs \<Longrightarrow> room (Suc (length xs)) \<Longrightarrow> usable h e \<Longrightarrow> e \<notin> set (l # xs) \<Longrightarrow>
      \<exists>h'. insert_tail h l e = Some (l, h') \<and> rep h' l (xs @ [e]) \<and> (\<forall>x. usable h' x = usable h x)
        \<and> (\<forall>l' ys. rep h l' ys \<longrightarrow> set (l' # ys) \<inter> set (l # e # xs) = {} \<longrightarrow> rep h' l' ys)"
    and remove_law: "rep h l (xs @ e # ys) \<Longrightarrow> room (Suc (length (xs @ e # ys))) \<Longrightarrow>
      \<exists>h'. remove h e = Some (hd (ys @ [l]), h') \<and> rep h' l (xs @ ys) \<and> (\<forall>x. usable h' x = usable h x)
        \<and> (\<forall>l' zs. rep h l' zs \<longrightarrow> set (l' # zs) \<inter> set (l # xs @ ys) = {} \<longrightarrow> rep h' l' zs)"
    and first_law: "rep h l xs \<Longrightarrow> room (Suc (length xs)) \<Longrightarrow> first h l = Some (hd (xs @ [l]))"
    and succ_law: "rep h l (xs @ x # ys) \<Longrightarrow> room (Suc (length (xs @ x # ys))) \<Longrightarrow>
      succ h l x = Some (hd (ys @ [l]))"
    and at_head_law: "rep h l xs \<Longrightarrow> room (Suc (length xs)) \<Longrightarrow> x \<in> set (l # xs) \<Longrightarrow>
      at_head h l x = Some (x = l)"
begin

text \<open>The traversal idiom: from the first node until the head comes round, at most \<open>n\<close> nodes.\<close>

fun walk :: "'h \<Rightarrow> ptr \<Rightarrow> nat \<Rightarrow> ptr \<Rightarrow> ptr list option" where
  "walk h l 0 x = None"
| "walk h l (Suc n) x =
     (case at_head h l x of
        None \<Rightarrow> None
      | Some True \<Rightarrow> Some []
      | Some False \<Rightarrow>
          (case succ h l x of
             None \<Rightarrow> None
           | Some y \<Rightarrow> map_option ((#) x) (walk h l n y)))"

lemma walk_from:
  assumes "rep h l (xs @ ys)" and "room (Suc (length (xs @ ys)))" and "length ys < n"
  shows "walk h l n (hd (ys @ [l])) = Some ys"
  using assms
proof (induction ys arbitrary: xs n)
  case Nil
  then show ?case using at_head_law [of h l xs l] by (cases n) auto
next
  case (Cons y ys)
  then obtain k where n: "n = Suc k" by (cases n) auto
  have "y \<noteq> l" using rep_distinct [OF Cons.prems(1)] by auto
  moreover have "at_head h l y = Some (y = l)" using Cons.prems by (intro at_head_law) auto
  moreover have "succ h l y = Some (hd (ys @ [l]))" using Cons.prems by (intro succ_law)
  moreover have "walk h l k (hd (ys @ [l])) = Some ys"
    using Cons.prems n by (intro Cons.IH [of "xs @ [y]"]) auto
  ultimately show ?case using n by simp
qed

lemma walk_visits_all:
  assumes "rep h l xs" and "room (Suc (length xs))"
  shows "\<exists>x. first h l = Some x \<and> walk h l (Suc (length xs)) x = Some xs"
  using assms first_law [OF assms] walk_from [of h l "[]" xs "Suc (length xs)"] by simp

text \<open>Moving a node from one list to the end of another.\<close>

lemma move_to_tail:
  assumes "rep h l (xs @ e # ys)" and "rep h l' zs" and "set (l # xs @ e # ys) \<inter> set (l' # zs) = {}"
    and "room (Suc (length (xs @ e # ys)))" and "room (Suc (length zs))"
  shows "\<exists>r h1 h2. remove h e = Some (r, h1) \<and> insert_tail h1 l' e = Some (l', h2)
    \<and> rep h2 l (xs @ ys) \<and> rep h2 l' (zs @ [e])"
proof -
  obtain h1 where h1: "remove h e = Some (hd (ys @ [l]), h1)" "rep h1 l (xs @ ys)"
    "\<forall>x. usable h1 x = usable h x"
    "\<forall>l' zs. rep h l' zs \<longrightarrow> set (l' # zs) \<inter> set (l # xs @ ys) = {} \<longrightarrow> rep h1 l' zs"
    using remove_law [OF assms(1,4)] by blast
  have "set (l' # zs) \<inter> set (l # xs @ ys) = {}" using assms(3) by auto
  with h1(4) assms(2) have z: "rep h1 l' zs" by blast
  moreover have "usable h1 e" using rep_usable [OF assms(1), of e] h1(3) by simp
  moreover have "e \<notin> set (l' # zs)" using assms(3) by auto
  ultimately obtain h2 where h2: "insert_tail h1 l' e = Some (l', h2)" "rep h2 l' (zs @ [e])"
    "\<forall>l us. rep h1 l us \<longrightarrow> set (l # us) \<inter> set (l' # e # zs) = {} \<longrightarrow> rep h2 l us"
    using insert_tail_law [OF z assms(5)] by blast
  have "set (l # xs @ ys) \<inter> set (l' # e # zs) = {}"
    using assms(3) rep_distinct [OF assms(1)] by auto
  with h1(2) h2(3) have "rep h2 l (xs @ ys)" by blast
  with h1(1) h2 show ?thesis by blast
qed

end

lemma RemoveEntryList_list:
  assumes r: "ring h (l # xs @ e # ys)" and m: "fits m (Suc (length (xs @ e # ys)))"
  shows "\<exists>h'. RemoveEntryList m h e = Some (hd (ys @ [l]), h') \<and> ring h' (l # xs @ ys)
    \<and> untouched (set (l # xs @ ys)) h h'"
proof -
  have rot: "ring h (e # ys @ l # xs)" using r ring_rotate [of h "l # xs" "e # ys"] by simp
  obtain h' where h': "RemoveEntryList m h e = Some (hd (ys @ l # xs), h')" "ring h' (ys @ l # xs)"
    "untouched (set (ys @ l # xs)) h h'"
    using RemoveEntryList_ring [OF rot, of m] m by (auto simp: add.commute)
  have "ring h' (l # xs @ ys)" using h'(2) ring_rotate [of h' ys "l # xs"] by simp
  moreover have "hd (ys @ l # xs) = hd (ys @ [l])" by (cases ys) simp_all
  moreover have "set (ys @ l # xs) = set (l # xs @ ys)" by auto
  ultimately show ?thesis using h' by metis
qed

lemma GetNextNode_list:
  assumes r: "ring h (l # xs @ x # ys)" and m: "fits m (Suc (length (xs @ x # ys)))"
  shows "GetNextNode v m h l x = Some (hd (ys @ [l]))"
proof -
  have "x \<noteq> NULL" using ring_not_NULL [OF r, of x] by simp
  then have "ASSERT_VERIFY_NODE_IN_VALID_LIST v m h l x True = Some ()"
    using verify_ring [OF r m, of x True v] by simp
  moreover have "GetForwardLink h x = Some (hd (ys @ [l]))"
    using ring_next [of h "l # xs" x ys] r by (cases ys) simp_all
  ultimately show ?thesis by (simp add: GetNextNode_def)
qed

lemma IsNull_list:
  assumes "ring h (l # xs)" and "fits m (Suc (length xs))" and "x \<in> set (l # xs)"
  shows "IsNull v m h l x = Some (x = l)"
  using verify_ring [OF assms(1,2) ring_not_NULL [OF assms(1,3)], of True v] assms(3)
  by (simp add: IsNull_def)

lemma GetFirstNode_list:
  assumes "ring h (l # xs)" and "fits m (Suc (length xs))"
  shows "GetFirstNode m h l = Some (hd (xs @ [l]))"
  using InternalBaseLibIsListValid_ring [OF assms(1), of m] assms(2) ring_next [of h "[]" l xs] assms(1)
  by (simp add: GetFirstNode_def)

interpretation dl: list_ops "\<lambda>h l xs. ring h (l # xs)" "fits m" "\<lambda>h x. x \<noteq> NULL \<and> h x \<noteq> None"
  "InsertTailList v m" "RemoveEntryList m" "GetFirstNode m" "GetNextNode v m" "IsNull v m"
  for v m
proof
  fix n k :: nat
  show "fits m n \<Longrightarrow> k \<le> n \<Longrightarrow> fits m k" by (auto simp: fits_def)
next
  fix h l xs
  show "ring h (l # xs) \<Longrightarrow> distinct (l # xs)" by (rule ring_distinct)
next
  fix h l xs x
  show "ring h (l # xs) \<Longrightarrow> x \<in> set (l # xs) \<Longrightarrow> x \<noteq> NULL \<and> h x \<noteq> None"
    using ring_not_NULL ring_mapped by blast
next
  fix h l xs e
  assume r: "ring h (l # xs)" "fits m (Suc (length xs))" and e: "e \<noteq> NULL \<and> h e \<noteq> None" "e \<notin> set (l # xs)"
  then obtain h' where h': "InsertTailList v m h l e = Some (l, h')" "ring h' (l # xs @ [e])"
    "untouched (set (l # e # xs)) h h'"
    using InsertTailList_ring [of h l xs m e v] by blast
  moreover have "(h' x \<noteq> None) = (h x \<noteq> None)" for x using h'(3) unfolding untouched_def by blast
  moreover have "ring h' (l' # ys)" if "ring h (l' # ys)" "set (l' # ys) \<inter> set (l # e # xs) = {}" for l' ys
    using ring_untouched [OF that(1) h'(3)] that(2) by blast
  ultimately show "\<exists>h'. InsertTailList v m h l e = Some (l, h') \<and> ring h' (l # xs @ [e])
      \<and> (\<forall>x. (x \<noteq> NULL \<and> h' x \<noteq> None) = (x \<noteq> NULL \<and> h x \<noteq> None))
      \<and> (\<forall>l' ys. ring h (l' # ys) \<longrightarrow> set (l' # ys) \<inter> set (l # e # xs) = {} \<longrightarrow> ring h' (l' # ys))"
    by blast
next
  fix h l xs e ys
  assume "ring h (l # xs @ e # ys)" "fits m (Suc (length (xs @ e # ys)))"
  then obtain h' where h': "RemoveEntryList m h e = Some (hd (ys @ [l]), h')" "ring h' (l # xs @ ys)"
    "untouched (set (l # xs @ ys)) h h'" using RemoveEntryList_list by blast
  moreover have "(h' x \<noteq> None) = (h x \<noteq> None)" for x using h'(3) unfolding untouched_def by blast
  moreover have "ring h' (l' # zs)" if "ring h (l' # zs)" "set (l' # zs) \<inter> set (l # xs @ ys) = {}" for l' zs
    using ring_untouched [OF that(1) h'(3)] that(2) by blast
  ultimately show "\<exists>h'. RemoveEntryList m h e = Some (hd (ys @ [l]), h') \<and> ring h' (l # xs @ ys)
      \<and> (\<forall>x. (x \<noteq> NULL \<and> h' x \<noteq> None) = (x \<noteq> NULL \<and> h x \<noteq> None))
      \<and> (\<forall>l' zs. ring h (l' # zs) \<longrightarrow> set (l' # zs) \<inter> set (l # xs @ ys) = {} \<longrightarrow> ring h' (l' # zs))"
    by blast
qed (fact GetFirstNode_list GetNextNode_list IsNull_list)+

section \<open>Properties\<close>

text \<open>
  C30. \<open>InsertTailList\<close> appends: on a list of fewer nodes than the limit and a mapped node that is
  not in it, the assertions pass, the head is returned, the elements become \<open>xs @ [e]\<close> with all
  links consistent, and no node outside the list changes.
\<close>

theorem InsertTailList_appends:
  assumes "ring h (l # xs)" and "fits PcdMax (Suc (length xs))"
    and "e \<notin> set (l # xs)" and "e \<noteq> NULL" and "h e \<noteq> None"
  shows "\<exists>h'. InsertTailList PcdVerify PcdMax h l e = Some (l, h') \<and> ring h' (l # xs @ [e])
    \<and> untouched (set (l # e # xs)) h h'"
  using assms by (rule InsertTailList_ring)

definition witness_heap :: list_heap where
  "witness_heap = [1 \<mapsto> \<lparr>ForwardLink = 2, BackLink = 3\<rparr>, 2 \<mapsto> \<lparr>ForwardLink = 3, BackLink = 1\<rparr>,
     3 \<mapsto> \<lparr>ForwardLink = 1, BackLink = 2\<rparr>, 4 \<mapsto> \<lparr>ForwardLink = 0, BackLink = 0\<rparr>]"

lemma ring_witness_heap: "ring witness_heap [1, 2, 3]"
  by (simp add: ring_def witness_heap_def linked_def GetForwardLink_def GetBackLink_def)

theorem InsertTailList_appends_witness:
  "\<exists>h'. InsertTailList True 100 witness_heap 1 4 = Some (1, h') \<and> ring h' [1, 2, 3, 4]"
  using InsertTailList_appends [of witness_heap 1 "[2, 3]" 100 4 True] ring_witness_heap
  by (auto simp: fits_def witness_heap_def)

text \<open>
  C17. \<open>RemoveEntryList\<close> takes exactly the given node out of its list, returns the node behind it
  (the head when there is none) and leaves the removed node and all foreign nodes unchanged.
\<close>

theorem RemoveEntryList_removes:
  assumes "ring h (l # xs @ e # ys)" and "fits PcdMax (Suc (length (xs @ e # ys)))"
  shows "\<exists>h'. RemoveEntryList PcdMax h e = Some (hd (ys @ [l]), h') \<and> ring h' (l # xs @ ys)
    \<and> untouched (set (l # xs @ ys)) h h'"
  using assms by (rule RemoveEntryList_list)

theorem RemoveEntryList_removes_witness:
  "\<exists>h'. RemoveEntryList 0 witness_heap 2 = Some (3, h') \<and> ring h' [1, 3]"
  using RemoveEntryList_removes [of witness_heap 1 "[]" 2 "[3]" 0] ring_witness_heap
  by (auto simp: fits_def)

text \<open>
  C20. \<open>SwapListEntries\<close> exchanges the positions of two nodes of a list, also when they are
  neighbours on either side or the only two nodes, and returns the second.
\<close>

theorem SwapListEntries_swaps:
  assumes "ring h ns" and "a \<in> set ns" and "b \<in> set ns" and "fits PcdMax (length ns)"
  shows "\<exists>h'. SwapListEntries PcdVerify PcdMax h a b = Some (b, h')
    \<and> ring h' (map (\<lambda>x. if x = a then b else if x = b then a else x) ns)
    \<and> untouched (set ns) h h'"
proof (cases "a = b")
  case True
  have "map (\<lambda>x. if x = a then b else if x = b then a else x) ns = ns"
    by (rule map_idI) (simp add: True)
  then show ?thesis using assms(1) True by (simp add: SwapListEntries_def untouched_def)
next
  case False
  define f where "f = (\<lambda>x. if x = a then b else if x = b then a else x)"
  obtain pre post where ns: "ns = pre @ a # post" using assms(2) by (meson split_list)
  then have rot: "ring h (a # post @ pre)" using assms(1) ring_rotate [of h pre "a # post"] by simp
  have "b \<in> set (post @ pre)" using assms(3) ns False by auto
  then obtain us vs where uv: "post @ pre = us @ b # vs" by (meson split_list)
  have len: "length ns = length (a # us @ b # vs)"
    using ns arg_cong [OF uv, of length] by simp
  have set: "set ns = set (a # us @ b # vs)" using ns arg_cong [OF uv, of set] by auto
  obtain h' where h': "SwapListEntries PcdVerify PcdMax h a b = Some (b, h')" "ring h' (b # us @ a # vs)"
    "untouched (set (a # us @ b # vs)) h h'"
    using SwapListEntries_front [of h a us b vs PcdMax PcdVerify] rot uv assms(4) len by auto
  have "distinct (a # us @ b # vs)" using ring_distinct [OF rot] uv by simp
  then have "map f us = us" "map f vs = vs" by (auto intro!: map_idI simp: f_def)
  moreover have "f a = b" "f b = a" by (simp_all add: f_def)
  ultimately have "map f (a # post @ pre) = b # us @ a # vs" unfolding uv by simp
  then have "map f (a # post) @ map f pre = b # us @ a # vs" by simp
  then have "ring h' (map f pre @ map f (a # post))"
    using h'(2) ring_rotate [of h' "map f pre" "map f (a # post)"] by simp
  then have "ring h' (map f ns)" unfolding ns by simp
  with h'(1,3) show ?thesis unfolding set f_def by blast
qed

theorem SwapListEntries_swaps_witness:
  "\<exists>h'. SwapListEntries True 4 witness_heap 2 3 = Some (3, h') \<and> ring h' [1, 3, 2]"
  using SwapListEntries_swaps [of witness_heap "[1, 2, 3]" 2 3 4 True] ring_witness_heap
  by (auto simp: fits_def)

text \<open>
  C19. The traversal idiom \<open>for (Link = GetFirstNode (List); !IsNull (List, Link); Link = GetNextNode (List, Link))\<close>
  ends and visits the elements of the list once each and in order; and a node moved from one list to the
  tail of another by \<open>RemoveEntryList\<close> and \<open>InsertTailList\<close> leaves two consistent lists.
\<close>

theorem list_traversal_and_move:
  assumes "ring h (l # xs @ e # ys)" and "ring h (l' # zs)" and "set (l # xs @ e # ys) \<inter> set (l' # zs) = {}"
    and "fits PcdMax (Suc (length (xs @ e # ys)))" and "fits PcdMax (Suc (length zs))"
  shows "(\<exists>x. GetFirstNode PcdMax h l = Some x \<and>
            dl.walk PcdVerify PcdMax h l (Suc (length (xs @ e # ys))) x = Some (xs @ e # ys))
    \<and> (\<exists>r h1 h2. RemoveEntryList PcdMax h e = Some (r, h1)
          \<and> InsertTailList PcdVerify PcdMax h1 l' e = Some (l', h2)
          \<and> ring h2 (l # xs @ ys) \<and> ring h2 (l' # zs @ [e]))"
  using dl.walk_visits_all [OF assms(1,4)] dl.move_to_tail [OF assms] by blast

definition witness_two_lists :: list_heap where
  "witness_two_lists = witness_heap(4 \<mapsto> \<lparr>ForwardLink = 4, BackLink = 4\<rparr>)"

theorem list_traversal_and_move_witness:
  "(\<exists>x. GetFirstNode 4 witness_two_lists 1 = Some x \<and> dl.walk True 4 witness_two_lists 1 3 x = Some [2, 3])
    \<and> (\<exists>r h1 h2. RemoveEntryList 4 witness_two_lists 2 = Some (r, h1)
          \<and> InsertTailList True 4 h1 4 2 = Some (4, h2) \<and> ring h2 [1, 3] \<and> ring h2 [4, 2])"
proof -
  have "ring witness_two_lists [1, 2, 3]" "ring witness_two_lists [4]"
    by (simp_all add: ring_def witness_two_lists_def witness_heap_def linked_def GetForwardLink_def GetBackLink_def)
  then show ?thesis
    using list_traversal_and_move [of witness_two_lists 1 "[]" 2 "[3]" 4 "[]" 4 True]
    by (simp add: fits_def numeral_3_eq_3)
qed

end
