(* ===== verification/Tpl_Lock.thy ===== *)
theory Tpl_Lock
  imports Linked_List
begin

text \<open>
  The state that the DXE core services share, task priority levels and locks:
  \<open>src/MdeModulePkg/Core/Dxe/Event/Tpl.c\<close> (\<open>CoreSetInterruptState\<close>, \<open>CoreRaiseTpl\<close>) and the lock
  functions of \<open>src/MdeModulePkg/Core/Dxe/Library/Library.c\<close>.

  Releasing a lock lowers the task priority level through \<open>CoreRestoreTpl\<close>, which may run
  notification functions. The functions that release a lock therefore take the function that lowers
  the level as an argument \<open>CoreRestoreTpl\<close>; the theory of events defines it and closes the loop.

  Pool memory is a supply of addresses: \<open>Pool\<close> lists the addresses that are still free, an empty
  supply is the out-of-resources case.
\<close>

section \<open>The shared state\<close>

type_synonym EFI_TPL = nat

abbreviation TPL_APPLICATION :: EFI_TPL where "TPL_APPLICATION \<equiv> 4"
abbreviation TPL_CALLBACK :: EFI_TPL where "TPL_CALLBACK \<equiv> 8"
abbreviation TPL_NOTIFY :: EFI_TPL where "TPL_NOTIFY \<equiv> 16"
abbreviation TPL_HIGH_LEVEL :: EFI_TPL where "TPL_HIGH_LEVEL \<equiv> 31"

definition VALID_TPL :: "EFI_TPL \<Rightarrow> bool" where
  "VALID_TPL a = (a \<le> TPL_HIGH_LEVEL)"

datatype EFI_LOCK_STATE = EfiLockUninitialized | EfiLockReleased | EfiLockAcquired

record EFI_LOCK =
  LockTpl :: EFI_TPL
  OwnerTpl :: EFI_TPL
  LockState :: EFI_LOCK_STATE

definition EFI_INITIALIZE_LOCK_VARIABLE :: "EFI_TPL \<Rightarrow> EFI_LOCK" where
  "EFI_INITIALIZE_LOCK_VARIABLE Priority =
     \<lparr>LockTpl = Priority, OwnerTpl = TPL_APPLICATION, LockState = EfiLockReleased\<rparr>"

text \<open>The lock variables of the modelled services.\<close>

datatype lock_id =
    gEventQueueLock
  | mEfiTimerLock
  | mEfiSystemTimeLock
  | mGcdMemorySpaceLock
  | mGcdIoSpaceLock
  | gProtocolDatabaseLock

fun initial_lock :: "lock_id \<Rightarrow> EFI_LOCK" where
  "initial_lock gEventQueueLock = EFI_INITIALIZE_LOCK_VARIABLE TPL_HIGH_LEVEL"
| "initial_lock mEfiTimerLock = EFI_INITIALIZE_LOCK_VARIABLE (TPL_HIGH_LEVEL - 1)"
| "initial_lock mEfiSystemTimeLock = EFI_INITIALIZE_LOCK_VARIABLE TPL_HIGH_LEVEL"
| "initial_lock mGcdMemorySpaceLock = EFI_INITIALIZE_LOCK_VARIABLE TPL_NOTIFY"
| "initial_lock mGcdIoSpaceLock = EFI_INITIALIZE_LOCK_VARIABLE TPL_NOTIFY"
| "initial_lock gProtocolDatabaseLock = EFI_INITIALIZE_LOCK_VARIABLE TPL_NOTIFY"

text \<open>
  \<open>gCpu\<close>: whether the CPU architectural protocol is installed; \<open>gSmmBase2\<close>: \<open>None\<close> when absent,
  otherwise what its \<open>InSmm\<close> function reports.
\<close>

record DXE_CORE =
  gEfiCurrentTpl :: EFI_TPL
  gCpu :: bool
  gSmmBase2 :: "(EFI_STATUS \<times> bool) option"
  InterruptsEnabled :: bool
  Locks :: "lock_id \<Rightarrow> EFI_LOCK"
  PcdVerifyNodeInList :: bool
  PcdMaximumLinkedListLength :: nat
  Pool :: "ptr list"

section \<open>Task priority levels\<close>

definition CoreSetInterruptState :: "bool \<Rightarrow> 'a DXE_CORE_scheme \<Rightarrow> 'a DXE_CORE_scheme" where
  "CoreSetInterruptState Enable s =
     (if \<not> gCpu s then s
      else if \<not> Enable then s\<lparr>InterruptsEnabled := False\<rparr>
      else case gSmmBase2 s of
          None \<Rightarrow> s\<lparr>InterruptsEnabled := True\<rparr>
        | Some (Status, InSmm) \<Rightarrow>
            if \<not> EFI_ERROR Status \<and> \<not> InSmm then s\<lparr>InterruptsEnabled := True\<rparr> else s)"

definition CoreRaiseTpl :: "EFI_TPL \<Rightarrow> 'a DXE_CORE_scheme \<Rightarrow> (EFI_TPL \<times> 'a DXE_CORE_scheme) option" where
  "CoreRaiseTpl NewTpl s = do {
     let OldTpl = gEfiCurrentTpl s;
     ASSERT (\<not> OldTpl > NewTpl);
     ASSERT (VALID_TPL NewTpl);
     let s = (if NewTpl \<ge> TPL_HIGH_LEVEL \<and> OldTpl < TPL_HIGH_LEVEL
              then CoreSetInterruptState False s else s);
     Some (OldTpl, s\<lparr>gEfiCurrentTpl := NewTpl\<rparr>)
   }"

section \<open>Locks\<close>

definition SetLock :: "lock_id \<Rightarrow> EFI_LOCK \<Rightarrow> 'a DXE_CORE_scheme \<Rightarrow> 'a DXE_CORE_scheme" where
  "SetLock l v s = s\<lparr>Locks := (Locks s)(l := v)\<rparr>"

definition CoreAcquireLockOrFail ::
  "lock_id \<Rightarrow> 'a DXE_CORE_scheme \<Rightarrow> (EFI_STATUS \<times> 'a DXE_CORE_scheme) option" where
  "CoreAcquireLockOrFail Lock s = do {
     ASSERT (LockState (Locks s Lock) \<noteq> EfiLockUninitialized);
     if LockState (Locks s Lock) = EfiLockAcquired then Some (EFI_ACCESS_DENIED, s)
     else do {
       (Tpl, s) \<leftarrow> CoreRaiseTpl (LockTpl (Locks s Lock)) s;
       let s = SetLock Lock ((Locks s Lock)\<lparr>OwnerTpl := Tpl\<rparr>) s;
       Some (EFI_SUCCESS, SetLock Lock ((Locks s Lock)\<lparr>LockState := EfiLockAcquired\<rparr>) s)
     }
   }"

definition CoreAcquireLock :: "lock_id \<Rightarrow> 'a DXE_CORE_scheme \<Rightarrow> 'a DXE_CORE_scheme option" where
  "CoreAcquireLock Lock s = do {
     ASSERT (LockState (Locks s Lock) = EfiLockReleased);
     (Tpl, s) \<leftarrow> CoreRaiseTpl (LockTpl (Locks s Lock)) s;
     let s = SetLock Lock ((Locks s Lock)\<lparr>OwnerTpl := Tpl\<rparr>) s;
     Some (SetLock Lock ((Locks s Lock)\<lparr>LockState := EfiLockAcquired\<rparr>) s)
   }"

definition CoreReleaseLock ::
  "(EFI_TPL \<Rightarrow> 'a DXE_CORE_scheme \<Rightarrow> 'a DXE_CORE_scheme option) \<Rightarrow> lock_id
    \<Rightarrow> 'a DXE_CORE_scheme \<Rightarrow> 'a DXE_CORE_scheme option" where
  "CoreReleaseLock CoreRestoreTpl Lock s = do {
     ASSERT (LockState (Locks s Lock) = EfiLockAcquired);
     let Tpl = OwnerTpl (Locks s Lock);
     let s = SetLock Lock ((Locks s Lock)\<lparr>LockState := EfiLockReleased\<rparr>) s;
     CoreRestoreTpl Tpl s
   }"

definition ASSERT_LOCKED :: "lock_id \<Rightarrow> 'a DXE_CORE_scheme \<Rightarrow> unit option" where
  "ASSERT_LOCKED Lock s = ASSERT (LockState (Locks s Lock) = EfiLockAcquired)"

section \<open>Pool memory\<close>

definition TakePool :: "'a DXE_CORE_scheme \<Rightarrow> ptr \<times> 'a DXE_CORE_scheme" where
  "TakePool s = (case Pool s of [] \<Rightarrow> (NULL, s) | p # ps \<Rightarrow> (p, s\<lparr>Pool := ps\<rparr>))"

section \<open>Lemmas\<close>

text \<open>The state after a successful acquisition, as one record update.\<close>

definition acquired :: "lock_id \<Rightarrow> 'a DXE_CORE_scheme \<Rightarrow> 'a DXE_CORE_scheme" where
  "acquired l s =
     s\<lparr>gEfiCurrentTpl := LockTpl (Locks s l),
       InterruptsEnabled := (InterruptsEnabled s \<and>
         \<not> (gCpu s \<and> LockTpl (Locks s l) \<ge> TPL_HIGH_LEVEL \<and> gEfiCurrentTpl s < TPL_HIGH_LEVEL)),
       Locks := (Locks s)(l := (Locks s l)\<lparr>OwnerTpl := gEfiCurrentTpl s, LockState := EfiLockAcquired\<rparr>)\<rparr>"

definition lock_free :: "lock_id \<Rightarrow> 'a DXE_CORE_scheme \<Rightarrow> bool" where
  "lock_free l s \<longleftrightarrow> LockState (Locks s l) = EfiLockReleased \<and> gEfiCurrentTpl s \<le> LockTpl (Locks s l)
     \<and> LockTpl (Locks s l) \<le> TPL_HIGH_LEVEL"

lemma CoreRaiseTpl_eq:
  "CoreRaiseTpl t s =
     (if gEfiCurrentTpl s \<le> t \<and> t \<le> TPL_HIGH_LEVEL
      then Some (gEfiCurrentTpl s,
        s\<lparr>gEfiCurrentTpl := t,
          InterruptsEnabled := (InterruptsEnabled s \<and> \<not> (gCpu s \<and> t \<ge> TPL_HIGH_LEVEL \<and> gEfiCurrentTpl s < TPL_HIGH_LEVEL))\<rparr>)
      else None)"
  by (simp add: CoreRaiseTpl_def CoreSetInterruptState_def VALID_TPL_def Let_def ASSERT_def)

lemma CoreAcquireLock_eq:
  "CoreAcquireLock l s = (if lock_free l s then Some (acquired l s) else None)"
  by (auto simp: CoreAcquireLock_def lock_free_def acquired_def CoreRaiseTpl_eq SetLock_def ASSERT_def Let_def)

lemma CoreReleaseLock_eq:
  "CoreReleaseLock R l s =
     (if LockState (Locks s l) = EfiLockAcquired
      then R (OwnerTpl (Locks s l)) (s\<lparr>Locks := (Locks s)(l := (Locks s l)\<lparr>LockState := EfiLockReleased\<rparr>)\<rparr>)
      else None)"
  by (simp add: CoreReleaseLock_def SetLock_def Let_def ASSERT_def)

lemma acquired_simps [simp]:
  "gEfiCurrentTpl (acquired l s) = LockTpl (Locks s l)"
  "gCpu (acquired l s) = gCpu s"
  "gSmmBase2 (acquired l s) = gSmmBase2 s"
  "Pool (acquired l s) = Pool s"
  "PcdVerifyNodeInList (acquired l s) = PcdVerifyNodeInList s"
  "PcdMaximumLinkedListLength (acquired l s) = PcdMaximumLinkedListLength s"
  "DXE_CORE.more (acquired l s) = DXE_CORE.more s"
  "Locks (acquired l s) l = (Locks s l)\<lparr>OwnerTpl := gEfiCurrentTpl s, LockState := EfiLockAcquired\<rparr>"
  "k \<noteq> l \<Longrightarrow> Locks (acquired l s) k = Locks s k"
  by (simp_all add: acquired_def)

end
