(* ===== verification/Gcd_Map.thy ===== *)
theory Gcd_Map
  imports Tpl_Lock
begin

unbundle bit_operations_syntax

text \<open>
  The map of the Global Coherency Domain, \<open>src/MdeModulePkg/Core/Dxe/Gcd/Gcd.c\<close>: the worker functions
  that search, split, merge and clean up the list of map entries.

  An entry lives at one address in two heaps: \<open>GcdLinks\<close> holds its \<open>Link\<close> member (the lists are those of
  \<open>Linked_List\<close>, with every \<open>ASSERT\<close> of the list functions) and \<open>GcdEntries\<close> the other members. The
  two list heads \<open>mGcdMemorySpaceMap\<close> and \<open>mGcdIoSpaceMap\<close> have links only. Freed entries are unmapped
  in both heaps, so that \<open>None\<close> covers a use after free; \<open>CR\<close> checks the signature.

  The second half gives the view the proofs use: \<open>gcd_map s m ps es\<close> says that the list with head
  \<open>m\<close> consists of the entries \<open>es\<close> at the addresses \<open>ps\<close>; \<open>tiles lo hi es\<close> that the entries cover the
  addresses from \<open>lo\<close> up to \<open>hi\<close> without gap or overlap; \<open>space_at es a\<close> is what the map says about
  address \<open>a\<close>.
\<close>

section \<open>Data\<close>

type_synonym EFI_PHYSICAL_ADDRESS = UINT64

abbreviation EFI_GCD_MAP_SIGNATURE :: UINT64 where "EFI_GCD_MAP_SIGNATURE \<equiv> 0x6d646367"

abbreviation EfiGcdMemoryTypeNonExistent :: UINT32 where "EfiGcdMemoryTypeNonExistent \<equiv> 0"
abbreviation EfiGcdMemoryTypeReserved :: UINT32 where "EfiGcdMemoryTypeReserved \<equiv> 1"
abbreviation EfiGcdMemoryTypeSystemMemory :: UINT32 where "EfiGcdMemoryTypeSystemMemory \<equiv> 2"
abbreviation EfiGcdMemoryTypeMemoryMappedIo :: UINT32 where "EfiGcdMemoryTypeMemoryMappedIo \<equiv> 3"
abbreviation EfiGcdMemoryTypePersistent :: UINT32 where "EfiGcdMemoryTypePersistent \<equiv> 4"
abbreviation EfiGcdMemoryTypeMoreReliable :: UINT32 where "EfiGcdMemoryTypeMoreReliable \<equiv> 5"
abbreviation EfiGcdMemoryTypeMaximum :: UINT32 where "EfiGcdMemoryTypeMaximum \<equiv> 6"
abbreviation EfiGcdIoTypeNonExistent :: UINT32 where "EfiGcdIoTypeNonExistent \<equiv> 0"
abbreviation EfiGcdIoTypeReserved :: UINT32 where "EfiGcdIoTypeReserved \<equiv> 1"
abbreviation EfiGcdIoTypeIo :: UINT32 where "EfiGcdIoTypeIo \<equiv> 2"
abbreviation EfiGcdIoTypeMaximum :: UINT32 where "EfiGcdIoTypeMaximum \<equiv> 3"

abbreviation EFI_MEMORY_UC :: UINT64 where "EFI_MEMORY_UC \<equiv> 0x1"
abbreviation EFI_MEMORY_WC :: UINT64 where "EFI_MEMORY_WC \<equiv> 0x2"
abbreviation EFI_MEMORY_WT :: UINT64 where "EFI_MEMORY_WT \<equiv> 0x4"
abbreviation EFI_MEMORY_WB :: UINT64 where "EFI_MEMORY_WB \<equiv> 0x8"
abbreviation EFI_MEMORY_UCE :: UINT64 where "EFI_MEMORY_UCE \<equiv> 0x10"
abbreviation EFI_MEMORY_WP :: UINT64 where "EFI_MEMORY_WP \<equiv> 0x1000"
abbreviation EFI_MEMORY_RP :: UINT64 where "EFI_MEMORY_RP \<equiv> 0x2000"
abbreviation EFI_MEMORY_XP :: UINT64 where "EFI_MEMORY_XP \<equiv> 0x4000"
abbreviation EFI_MEMORY_RO :: UINT64 where "EFI_MEMORY_RO \<equiv> 0x20000"
abbreviation EFI_MEMORY_SP :: UINT64 where "EFI_MEMORY_SP \<equiv> 0x40000"
abbreviation EFI_MEMORY_CPU_CRYPTO :: UINT64 where "EFI_MEMORY_CPU_CRYPTO \<equiv> 0x80000"
abbreviation EFI_MEMORY_RUNTIME :: UINT64 where "EFI_MEMORY_RUNTIME \<equiv> 0x8000000000000000"
abbreviation EFI_MEMORY_PORT_IO :: UINT64 where "EFI_MEMORY_PORT_IO \<equiv> 0x4000000000000000"

definition EFI_CACHE_ATTRIBUTE_MASK :: UINT64 where
  "EFI_CACHE_ATTRIBUTE_MASK =
     EFI_MEMORY_UC OR EFI_MEMORY_WC OR EFI_MEMORY_WT OR EFI_MEMORY_WB OR EFI_MEMORY_UCE OR EFI_MEMORY_WP"

definition EFI_MEMORY_ATTRIBUTE_MASK :: UINT64 where
  "EFI_MEMORY_ATTRIBUTE_MASK =
     (EFI_MEMORY_RP OR EFI_MEMORY_XP OR EFI_MEMORY_RO) OR EFI_MEMORY_SP OR EFI_MEMORY_CPU_CRYPTO"

abbreviation EFI_PAGE_MASK :: UINT64 where "EFI_PAGE_MASK \<equiv> 0xFFF"
abbreviation EFI_PAGE_SHIFT :: nat where "EFI_PAGE_SHIFT \<equiv> 12"

record EFI_GCD_MAP_ENTRY =
  Signature :: UINT64
  BaseAddress :: EFI_PHYSICAL_ADDRESS
  EndAddress :: UINT64
  Capabilities :: UINT64
  Attributes :: UINT64
  GcdMemoryType :: UINT32
  GcdIoType :: UINT32
  ImageHandle :: ptr
  DeviceHandle :: ptr

definition ZeroGcdMapEntry :: EFI_GCD_MAP_ENTRY where
  "ZeroGcdMapEntry =
     \<lparr>Signature = 0, BaseAddress = 0, EndAddress = 0, Capabilities = 0, Attributes = 0,
      GcdMemoryType = 0, GcdIoType = 0, ImageHandle = NULL, DeviceHandle = NULL\<rparr>"

record GCD_STATE = DXE_CORE +
  GcdLinks :: list_heap
  GcdEntries :: "ptr \<Rightarrow> EFI_GCD_MAP_ENTRY option"

text \<open>The addresses of the two static list heads.\<close>

abbreviation mGcdMemorySpaceMap :: ptr where "mGcdMemorySpaceMap \<equiv> 1"
abbreviation mGcdIoSpaceMap :: ptr where "mGcdIoSpaceMap \<equiv> 2"

section \<open>Alignment\<close>

definition AlignValue :: "UINT64 \<Rightarrow> nat \<Rightarrow> bool \<Rightarrow> UINT64" where
  "AlignValue Value Alignment RoundUp =
     (let AlignmentMask = push_bit Alignment 1 - 1;
          Value = (if RoundUp then Value + AlignmentMask else Value)
      in Value AND NOT AlignmentMask)"

definition PageAlignAddress :: "UINT64 \<Rightarrow> UINT64" where
  "PageAlignAddress Value = AlignValue Value EFI_PAGE_SHIFT True"

definition PageAlignLength :: "UINT64 \<Rightarrow> UINT64" where
  "PageAlignLength Value = AlignValue Value EFI_PAGE_SHIFT False"

section \<open>Access to the heaps\<close>

definition CR :: "ptr \<Rightarrow> 'a GCD_STATE_scheme \<Rightarrow> EFI_GCD_MAP_ENTRY option" where
  "CR Link s = do {
     Entry \<leftarrow> GcdEntries s Link;
     ASSERT (Signature Entry = EFI_GCD_MAP_SIGNATURE);
     Some Entry
   }"

definition StoreEntry :: "ptr \<Rightarrow> EFI_GCD_MAP_ENTRY \<Rightarrow> 'a GCD_STATE_scheme \<Rightarrow> 'a GCD_STATE_scheme" where
  "StoreEntry p e s = s\<lparr>GcdEntries := (GcdEntries s)(p \<mapsto> e)\<rparr>"

text \<open>\<open>CopyMem\<close> of a whole entry, its \<open>Link\<close> included.\<close>

definition CopyEntry :: "ptr \<Rightarrow> ptr \<Rightarrow> 'a GCD_STATE_scheme \<Rightarrow> 'a GCD_STATE_scheme" where
  "CopyEntry Destination Source s =
     s\<lparr>GcdEntries := (GcdEntries s)(Destination := GcdEntries s Source),
       GcdLinks := (GcdLinks s)(Destination := GcdLinks s Source)\<rparr>"

definition AllocateZeroEntry :: "'a GCD_STATE_scheme \<Rightarrow> ptr \<times> 'a GCD_STATE_scheme" where
  "AllocateZeroEntry s =
     (let (p, s) = TakePool s in
      if p = NULL then (NULL, s)
      else (p, s\<lparr>GcdLinks := (GcdLinks s)(p \<mapsto> \<lparr>ForwardLink = NULL, BackLink = NULL\<rparr>),
                 GcdEntries := (GcdEntries s)(p \<mapsto> ZeroGcdMapEntry)\<rparr>))"

definition FreeEntry :: "ptr \<Rightarrow> 'a GCD_STATE_scheme \<Rightarrow> 'a GCD_STATE_scheme" where
  "FreeEntry p s =
     s\<lparr>GcdLinks := (GcdLinks s)(p := None), GcdEntries := (GcdEntries s)(p := None), Pool := p # Pool s\<rparr>"

definition GcdInsertTail :: "ptr \<Rightarrow> ptr \<Rightarrow> 'a GCD_STATE_scheme \<Rightarrow> 'a GCD_STATE_scheme option" where
  "GcdInsertTail Link p s = do {
     (_, h) \<leftarrow> InsertTailList (PcdVerifyNodeInList s) (PcdMaximumLinkedListLength s) (GcdLinks s) Link p;
     Some (s\<lparr>GcdLinks := h\<rparr>)
   }"

definition GcdInsertHead :: "ptr \<Rightarrow> ptr \<Rightarrow> 'a GCD_STATE_scheme \<Rightarrow> 'a GCD_STATE_scheme option" where
  "GcdInsertHead Link p s = do {
     (_, h) \<leftarrow> InsertHeadList (PcdVerifyNodeInList s) (PcdMaximumLinkedListLength s) (GcdLinks s) Link p;
     Some (s\<lparr>GcdLinks := h\<rparr>)
   }"

definition GcdRemove :: "ptr \<Rightarrow> 'a GCD_STATE_scheme \<Rightarrow> 'a GCD_STATE_scheme option" where
  "GcdRemove p s = do {
     (_, h) \<leftarrow> RemoveEntryList (PcdMaximumLinkedListLength s) (GcdLinks s) p;
     Some (s\<lparr>GcdLinks := h\<rparr>)
   }"

abbreviation Forward :: "ptr \<Rightarrow> 'a GCD_STATE_scheme \<Rightarrow> ptr option" where
  "Forward Link s \<equiv> GetForwardLink (GcdLinks s) Link"

abbreviation Backward :: "ptr \<Rightarrow> 'a GCD_STATE_scheme \<Rightarrow> ptr option" where
  "Backward Link s \<equiv> GetBackLink (GcdLinks s) Link"

section \<open>Worker functions\<close>

definition CoreAllocateGcdMapEntry ::
  "'a GCD_STATE_scheme \<Rightarrow> EFI_STATUS \<times> ptr \<times> ptr \<times> 'a GCD_STATE_scheme" where
  "CoreAllocateGcdMapEntry s =
     (let (TopEntry, s) = AllocateZeroEntry s in
      if TopEntry = NULL then (EFI_OUT_OF_RESOURCES, NULL, NULL, s)
      else let (BottomEntry, s) = AllocateZeroEntry s in
        if BottomEntry = NULL then (EFI_OUT_OF_RESOURCES, TopEntry, NULL, FreeEntry TopEntry s)
        else (EFI_SUCCESS, TopEntry, BottomEntry, s))"

text \<open>The two halves of \<open>CoreInsertGcdMapEntry\<close>: the part below the range, the part above it.\<close>

definition InsertBottomEntry ::
  "ptr \<Rightarrow> EFI_PHYSICAL_ADDRESS \<Rightarrow> ptr \<Rightarrow> 'a GCD_STATE_scheme \<Rightarrow> 'a GCD_STATE_scheme option" where
  "InsertBottomEntry Link Base BottomEntry s = do {
     Entry \<leftarrow> GcdEntries s Link;
     if Base > BaseAddress Entry then do {
       Bottom \<leftarrow> GcdEntries s BottomEntry;
       ASSERT (Signature Bottom = 0);
       let s = CopyEntry BottomEntry Link s;
       let s = StoreEntry Link (Entry\<lparr>BaseAddress := Base\<rparr>) s;
       let s = StoreEntry BottomEntry (Entry\<lparr>EndAddress := Base - 1\<rparr>) s;
       GcdInsertTail Link BottomEntry s
     }
     else Some s
   }"

definition InsertTopEntry ::
  "ptr \<Rightarrow> EFI_PHYSICAL_ADDRESS \<Rightarrow> UINT64 \<Rightarrow> ptr \<Rightarrow> 'a GCD_STATE_scheme \<Rightarrow> 'a GCD_STATE_scheme option" where
  "InsertTopEntry Link Base Length TopEntry s = do {
     Entry \<leftarrow> GcdEntries s Link;
     if Base + Length - 1 < EndAddress Entry then do {
       Top \<leftarrow> GcdEntries s TopEntry;
       ASSERT (Signature Top = 0);
       let s = CopyEntry TopEntry Link s;
       let s = StoreEntry TopEntry (Entry\<lparr>BaseAddress := Base + Length\<rparr>) s;
       let s = StoreEntry Link (Entry\<lparr>EndAddress := Base + Length - 1\<rparr>) s;
       GcdInsertHead Link TopEntry s
     }
     else Some s
   }"

definition CoreInsertGcdMapEntry ::
  "ptr \<Rightarrow> EFI_PHYSICAL_ADDRESS \<Rightarrow> UINT64 \<Rightarrow> ptr \<Rightarrow> ptr \<Rightarrow> 'a GCD_STATE_scheme \<Rightarrow> 'a GCD_STATE_scheme option" where
  "CoreInsertGcdMapEntry Link Base Length TopEntry BottomEntry s = do {
     ASSERT (Length \<noteq> 0);
     s \<leftarrow> InsertBottomEntry Link Base BottomEntry s;
     InsertTopEntry Link Base Length TopEntry s
   }"

text \<open>The members two entries must agree on to be merged.\<close>

definition Mergeable :: "EFI_GCD_MAP_ENTRY \<Rightarrow> EFI_GCD_MAP_ENTRY \<Rightarrow> bool" where
  "Mergeable Entry AdjacentEntry \<longleftrightarrow>
     \<not> (Capabilities Entry \<noteq> Capabilities AdjacentEntry) \<and>
     \<not> (Attributes Entry \<noteq> Attributes AdjacentEntry) \<and>
     \<not> (GcdMemoryType Entry \<noteq> GcdMemoryType AdjacentEntry) \<and>
     \<not> (GcdIoType Entry \<noteq> GcdIoType AdjacentEntry) \<and>
     \<not> (ImageHandle Entry \<noteq> ImageHandle AdjacentEntry) \<and>
     \<not> (DeviceHandle Entry \<noteq> DeviceHandle AdjacentEntry)"

definition CoreMergeGcdMapEntry ::
  "ptr \<Rightarrow> bool \<Rightarrow> ptr \<Rightarrow> 'a GCD_STATE_scheme \<Rightarrow> (EFI_STATUS \<times> 'a GCD_STATE_scheme) option" where
  "CoreMergeGcdMapEntry Link Fwd Map s = do {
     AdjacentLink \<leftarrow> (if Fwd then Forward Link s else Backward Link s);
     if AdjacentLink = Map then Some (EFI_SUCCESS, s)
     else do {
       Entry \<leftarrow> CR Link s;
       AdjacentEntry \<leftarrow> CR AdjacentLink s;
       if \<not> Mergeable Entry AdjacentEntry then Some (EFI_UNSUPPORTED, s)
       else do {
         let s = (if Fwd then StoreEntry Link (Entry\<lparr>EndAddress := EndAddress AdjacentEntry\<rparr>) s
                  else StoreEntry Link (Entry\<lparr>BaseAddress := BaseAddress AdjacentEntry\<rparr>) s);
         s \<leftarrow> GcdRemove AdjacentLink s;
         Some (EFI_SUCCESS, FreeEntry AdjacentLink s)
       }
     }
   }"

partial_function (option) CleanupLoop ::
  "ptr \<Rightarrow> ptr \<Rightarrow> ptr \<Rightarrow> 'a GCD_STATE_scheme \<Rightarrow> 'a GCD_STATE_scheme option" where
  "CleanupLoop Link EndLink Map s = do {
     Stop \<leftarrow> Forward EndLink s;
     if Link \<noteq> Stop then do {
       (_, s) \<leftarrow> CoreMergeGcdMapEntry Link False Map s;
       Link \<leftarrow> Forward Link s;
       CleanupLoop Link EndLink Map s
     }
     else Some s
   }"

definition CoreCleanupGcdMapEntry ::
  "ptr \<Rightarrow> ptr \<Rightarrow> ptr \<Rightarrow> ptr \<Rightarrow> ptr \<Rightarrow> 'a GCD_STATE_scheme \<Rightarrow> (EFI_STATUS \<times> 'a GCD_STATE_scheme) option" where
  "CoreCleanupGcdMapEntry TopEntry BottomEntry StartLink EndLink Map s = do {
     Top \<leftarrow> GcdEntries s TopEntry;
     let s = (if Signature Top = 0 then FreeEntry TopEntry s else s);
     Bottom \<leftarrow> GcdEntries s BottomEntry;
     let s = (if Signature Bottom = 0 then FreeEntry BottomEntry s else s);
     s \<leftarrow> CleanupLoop StartLink EndLink Map s;
     (_, s) \<leftarrow> CoreMergeGcdMapEntry EndLink True Map s;
     Some (EFI_SUCCESS, s)
   }"

text \<open>The start link is \<open>NULL\<close> until the entry that holds the first address has been seen.\<close>

partial_function (option) SearchLoop ::
  "EFI_PHYSICAL_ADDRESS \<Rightarrow> UINT64 \<Rightarrow> ptr \<Rightarrow> ptr \<Rightarrow> ptr \<Rightarrow> 'a GCD_STATE_scheme \<Rightarrow> (EFI_STATUS \<times> ptr \<times> ptr) option" where
  "SearchLoop Base Length StartLink Map Link s =
     (if Link \<noteq> Map then do {
        Entry \<leftarrow> CR Link s;
        let StartLink = (if Base \<ge> BaseAddress Entry \<and> Base \<le> EndAddress Entry then Link else StartLink);
        if StartLink \<noteq> NULL \<and> Base + Length - 1 \<ge> BaseAddress Entry \<and> Base + Length - 1 \<le> EndAddress Entry
        then Some (EFI_SUCCESS, StartLink, Link)
        else do {
          Link \<leftarrow> Forward Link s;
          SearchLoop Base Length StartLink Map Link s
        }
      }
      else Some (EFI_NOT_FOUND, StartLink, NULL))"

definition CoreSearchGcdMapEntry ::
  "EFI_PHYSICAL_ADDRESS \<Rightarrow> UINT64 \<Rightarrow> ptr \<Rightarrow> 'a GCD_STATE_scheme \<Rightarrow> (EFI_STATUS \<times> ptr \<times> ptr) option" where
  "CoreSearchGcdMapEntry Base Length Map s = do {
     ASSERT (Length \<noteq> 0);
     Link \<leftarrow> Forward Map s;
     SearchLoop Base Length NULL Map Link s
   }"

partial_function (option) CountLoop :: "ptr \<Rightarrow> ptr \<Rightarrow> nat \<Rightarrow> 'a GCD_STATE_scheme \<Rightarrow> nat option" where
  "CountLoop Map Link Count s =
     (if Link \<noteq> Map then do {
        Link \<leftarrow> Forward Link s;
        CountLoop Map Link (Count + 1) s
      }
      else Some Count)"

definition CoreCountGcdMapEntry :: "ptr \<Rightarrow> 'a GCD_STATE_scheme \<Rightarrow> nat option" where
  "CoreCountGcdMapEntry Map s = do {
     Link \<leftarrow> Forward Map s;
     CountLoop Map Link 0 s
   }"

text \<open>
  The two loops over the entries from \<open>StartLink\<close> to \<open>EndLink\<close> that \<open>CoreConvertSpace\<close> and
  \<open>CoreAllocateSpace\<close> share, with the body of the \<open>switch\<close> as an argument: the first stops at the
  first entry whose check fails, the second splits off the parts outside the range and changes the
  entry. The variable \<open>Attributes\<close> of \<open>CoreConvertSpace\<close>, which the second loop may change, is passed along.
\<close>

partial_function (option) CheckLoop ::
  "(EFI_GCD_MAP_ENTRY \<Rightarrow> EFI_STATUS) \<Rightarrow> ptr \<Rightarrow> ptr \<Rightarrow> 'a GCD_STATE_scheme \<Rightarrow> (EFI_STATUS \<times> ptr) option" where
  "CheckLoop Check Link EndLink s = do {
     Stop \<leftarrow> Forward EndLink s;
     if Link \<noteq> Stop then do {
       Entry \<leftarrow> CR Link s;
       if EFI_ERROR (Check Entry) then Some (Check Entry, Link)
       else do {
         Link \<leftarrow> Forward Link s;
         CheckLoop Check Link EndLink s
       }
     }
     else Some (EFI_SUCCESS, Link)
   }"

partial_function (option) InsertLoop ::
  "(UINT64 \<Rightarrow> EFI_GCD_MAP_ENTRY \<Rightarrow> UINT64 \<times> EFI_GCD_MAP_ENTRY) \<Rightarrow> EFI_PHYSICAL_ADDRESS \<Rightarrow> UINT64 \<Rightarrow> ptr \<Rightarrow> ptr
    \<Rightarrow> UINT64 \<Rightarrow> ptr \<Rightarrow> ptr \<Rightarrow> 'a GCD_STATE_scheme \<Rightarrow> 'a GCD_STATE_scheme option" where
  "InsertLoop Update Base Length TopEntry BottomEntry Attr Link EndLink s = do {
     Stop \<leftarrow> Forward EndLink s;
     if Link \<noteq> Stop then do {
       Entry \<leftarrow> CR Link s;
       s \<leftarrow> CoreInsertGcdMapEntry Link Base Length TopEntry BottomEntry s;
       Entry \<leftarrow> GcdEntries s Link;
       let (Attr, Entry) = Update Attr Entry;
       let s = StoreEntry Link Entry s;
       Link \<leftarrow> Forward Link s;
       InsertLoop Update Base Length TopEntry BottomEntry Attr Link EndLink s
     }
     else Some s
   }"

end
