(* ===== verification/Gcd_Tiles.thy ===== *)
theory Gcd_Tiles
  imports Gcd_Map
begin

text \<open>
  The abstract view of a map of the Global Coherency Domain: a list of entries that tiles an address
  range (\<open>tiles\<close>), and the function from addresses to what the map says about them (\<open>space_at\<close>).
  Splitting an entry and merging two neighbours do not change that function, and changing the
  entries of a stretch changes it exactly there.
\<close>

section \<open>Tilings\<close>

text \<open>\<open>tiles lo hi es\<close>: the entries follow one another and cover \<open>lo\<close> up to, excluding, \<open>hi\<close>.\<close>

fun tiles :: "nat \<Rightarrow> nat \<Rightarrow> EFI_GCD_MAP_ENTRY list \<Rightarrow> bool" where
  "tiles lo hi [] \<longleftrightarrow> lo = hi"
| "tiles lo hi (e # es) \<longleftrightarrow>
     unat (BaseAddress e) = lo \<and> BaseAddress e \<le> EndAddress e \<and> tiles (Suc (unat (EndAddress e))) hi es"

text \<open>What an entry says about each of its addresses: everything but the addresses themselves.\<close>

definition space_of :: "EFI_GCD_MAP_ENTRY \<Rightarrow> EFI_GCD_MAP_ENTRY" where
  "space_of e = e\<lparr>BaseAddress := 0, EndAddress := 0\<rparr>"

definition holds :: "EFI_PHYSICAL_ADDRESS \<Rightarrow> EFI_GCD_MAP_ENTRY \<Rightarrow> bool" where
  "holds a e \<longleftrightarrow> BaseAddress e \<le> a \<and> a \<le> EndAddress e"

definition space_at :: "EFI_GCD_MAP_ENTRY list \<Rightarrow> EFI_PHYSICAL_ADDRESS \<Rightarrow> EFI_GCD_MAP_ENTRY option" where
  "space_at es a = map_option space_of (find (holds a) es)"

lemma tiles_le: "tiles lo hi es \<Longrightarrow> lo \<le> hi"
proof (induction es arbitrary: lo)
  case (Cons e es)
  then have "Suc (unat (EndAddress e)) \<le> hi" "lo \<le> unat (EndAddress e)"
    by (auto simp: word_le_nat_alt)
  then show ?case by simp
qed simp

lemma tiles_append: "tiles lo hi (xs @ ys) \<longleftrightarrow> (\<exists>mid. tiles lo mid xs \<and> tiles mid hi ys)"
  by (induction xs arbitrary: lo) auto

lemma tiles_bound: "tiles lo hi es \<Longrightarrow> es \<noteq> [] \<Longrightarrow> hi \<le> 2 ^ 64"
proof (induction es arbitrary: lo)
  case (Cons e es)
  show ?case
  proof (cases es)
    case Nil
    with Cons.prems show ?thesis using unat_less_64 [of "EndAddress e"] by auto
  next
    case (Cons e' es')
    with Cons.IH Cons.prems show ?thesis by auto
  qed
qed simp

lemma tiles_outside: "tiles lo hi es \<Longrightarrow> e \<in> set es \<Longrightarrow> holds a e \<Longrightarrow> lo \<le> unat a \<and> unat a < hi"
proof (induction es arbitrary: lo)
  case (Cons d es)
  have "Suc (unat (EndAddress d)) \<le> hi"
    using Cons.prems(1) tiles_le [of "Suc (unat (EndAddress d))" hi es] by simp
  moreover have "lo \<le> Suc (unat (EndAddress d))" using Cons.prems(1) by (auto simp: word_le_nat_alt)
  ultimately show ?case
    using Cons by (auto simp: holds_def word_le_nat_alt) fastforce+
qed simp

lemma space_at_append:
  "space_at (xs @ ys) a = (case space_at xs a of None \<Rightarrow> space_at ys a | Some v \<Rightarrow> Some v)"
proof -
  have "find P (xs @ ys) = (case find P xs of None \<Rightarrow> find P ys | Some v \<Rightarrow> Some v)" for P
    by (induction xs) auto
  then show ?thesis by (simp add: space_at_def split: option.split)
qed

lemma space_at_Nil [simp]: "space_at [] a = None"
  by (simp add: space_at_def)

lemma space_at_Cons:
  "space_at (e # es) a = (if holds a e then Some (space_of e) else space_at es a)"
  by (simp add: space_at_def)

lemma space_at_None_iff: "space_at es a = None \<longleftrightarrow> (\<forall>e\<in>set es. \<not> holds a e)"
  by (auto simp: space_at_def find_None_iff)

lemma tiles_None: "tiles lo hi es \<Longrightarrow> \<not> (lo \<le> unat a \<and> unat a < hi) \<Longrightarrow> space_at es a = None"
  unfolding space_at_None_iff using tiles_outside by blast

lemma tiles_covers: "tiles lo hi es \<Longrightarrow> lo \<le> unat a \<Longrightarrow> unat a < hi \<Longrightarrow> \<exists>v. space_at es a = Some v"
proof (induction es arbitrary: lo)
  case (Cons e es)
  then show ?case
    by (cases "a \<le> EndAddress e")
      (auto simp: space_at_Cons holds_def word_le_nat_alt intro!: Cons.IH)
qed simp

lemma tiles_space_append:
  assumes "tiles lo mid xs" and "tiles mid hi ys"
  shows "space_at (xs @ ys) a = (if unat a < mid then space_at xs a else space_at ys a)"
proof (cases "unat a < mid")
  case True
  then have "space_at ys a = None" by (intro tiles_None [OF assms(2)]) simp
  with True show ?thesis by (simp add: space_at_append split: option.split)
next
  case False
  then have "space_at xs a = None" by (intro tiles_None [OF assms(1)]) simp
  with False show ?thesis by (simp add: space_at_append)
qed

section \<open>Merging and splitting\<close>

lemma space_of_upd [simp]:
  "space_of (e\<lparr>BaseAddress := b\<rparr>) = space_of e"
  "space_of (e\<lparr>EndAddress := b\<rparr>) = space_of e"
  by (simp_all add: space_of_def)

lemma space_of_eq_iff:
  "space_of e = space_of d \<longleftrightarrow> Signature e = Signature d \<and> Mergeable e d"
  by (cases e; cases d) (auto simp: space_of_def Mergeable_def)

lemma Mergeable_sym: "Mergeable e d = Mergeable d e"
  by (auto simp: Mergeable_def)

text \<open>Two neighbours that say the same, and the one entry that spans both.\<close>

lemma tiles_merge:
  assumes "tiles lo hi [e, d]" and "BaseAddress f = BaseAddress e" and "EndAddress f = EndAddress d"
  shows "tiles lo hi [f]"
  using assms by (auto simp: word_le_nat_alt)

lemma space_at_merge:
  assumes "tiles lo hi [e, d]" and "BaseAddress f = BaseAddress e" and "EndAddress f = EndAddress d"
    and "space_of e = space_of d" and "space_of f = space_of e"
  shows "space_at [f] a = space_at [e, d] a"
  using assms by (auto simp: space_at_Cons holds_def word_le_nat_alt)

lemma tiles_split:
  assumes "tiles lo hi [f]" and "holds b f" and "BaseAddress f < b"
  shows "tiles lo hi [f\<lparr>EndAddress := b - 1\<rparr>, f\<lparr>BaseAddress := b\<rparr>]"
proof -
  have "b \<noteq> 0" using assms(3) by auto
  then have "unat (b - 1) = unat b - 1" by (rule unat_minus_one)
  then show ?thesis using assms by (auto simp: holds_def word_le_nat_alt word_less_nat_alt)
qed

lemma space_at_split:
  assumes "tiles lo hi [f]" and "holds b f" and "BaseAddress f < b"
  shows "space_at [f\<lparr>EndAddress := b - 1\<rparr>, f\<lparr>BaseAddress := b\<rparr>] a = space_at [f] a"
  by (rule space_at_merge [OF tiles_split [OF assms], symmetric]) simp_all

section \<open>Changing what a stretch says\<close>

lemma tiles_map:
  assumes "\<And>e. BaseAddress (f e) = BaseAddress e" and "\<And>e. EndAddress (f e) = EndAddress e"
  shows "tiles lo hi (map f es) = tiles lo hi es"
  by (induction es arbitrary: lo) (simp_all add: assms)

lemma space_at_map:
  assumes "\<And>e. BaseAddress (f e) = BaseAddress e" and "\<And>e. EndAddress (f e) = EndAddress e"
    and "\<And>e. space_of (f e) = g (space_of e)"
  shows "space_at (map f es) a = map_option g (space_at es a)"
  by (induction es) (simp_all add: space_at_Cons holds_def assms)

section \<open>Lists of entries that say the same\<close>

definition same_cover :: "EFI_GCD_MAP_ENTRY list \<Rightarrow> EFI_GCD_MAP_ENTRY list \<Rightarrow> bool" where
  "same_cover es es' \<longleftrightarrow>
     (\<forall>lo hi. tiles lo hi es \<longrightarrow> tiles lo hi es' \<and> (\<forall>a. space_at es' a = space_at es a))"

lemma same_cover_refl [simp]: "same_cover es es"
  by (simp add: same_cover_def)

lemma same_cover_trans: "same_cover a b \<Longrightarrow> same_cover b c \<Longrightarrow> same_cover a c"
  unfolding same_cover_def by metis

lemma same_cover_context: "same_cover ys ys' \<Longrightarrow> same_cover (xs @ ys @ zs) (xs @ ys' @ zs)"
  unfolding same_cover_def tiles_append space_at_append by metis

lemma same_cover_merge:
  assumes "space_of e = space_of d" and "BaseAddress f = BaseAddress e" and "EndAddress f = EndAddress d"
    and "space_of f = space_of e"
  shows "same_cover [e, d] [f]"
  unfolding same_cover_def
  using assms(2,3) tiles_merge space_at_merge [OF _ assms(2,3,1,4)] by blast

end
