(* ===== verification/Gcd_Workers.thy ===== *)
theory Gcd_Workers
  imports Gcd_Tiles
begin

text \<open>
  The worker functions of the Global Coherency Domain on a well-formed map: searching finds the stretch
  of entries that holds a range; the check loop runs over exactly that stretch; splitting, changing
  and merging act on the sequence of entries as the functions of \<open>Gcd_Tiles\<close> do. All loops end, no
  assertion fails and no freed entry is touched.
\<close>

section \<open>Maps as sequences\<close>

definition gcd_map :: "'a GCD_STATE_scheme \<Rightarrow> ptr \<Rightarrow> ptr list \<Rightarrow> EFI_GCD_MAP_ENTRY list \<Rightarrow> bool" where
  "gcd_map s m ps es \<longleftrightarrow>
     ring (GcdLinks s) (m # ps) \<and> list_all2 (\<lambda>p e. CR p s = Some e) ps es"

lemma CR_iff: "CR p s = Some e \<longleftrightarrow> GcdEntries s p = Some e \<and> Signature e = EFI_GCD_MAP_SIGNATURE"
  by (auto simp: CR_def bind_Some_iff)

lemma gcd_map_length: "gcd_map s m ps es \<Longrightarrow> length ps = length es"
  by (auto simp: gcd_map_def dest: list_all2_lengthD)

lemma Forward_node:
  assumes "ring (GcdLinks s) (m # P @ q # Q)"
  shows "Forward q s = Some (hd (Q @ [m]))"
  using ring_next [of "GcdLinks s" "m # P" q Q] assms by (cases Q) auto

lemma Forward_last:
  assumes "ring (GcdLinks s) (m # P @ S @ Q)" and "S \<noteq> []"
  shows "Forward (last S) s = Some (hd (Q @ [m]))"
proof -
  obtain us z where "S = us @ [z]" using assms(2) by (metis rev_exhaust)
  then show ?thesis using Forward_node [of s m "P @ us" z Q] assms(1) by simp
qed

lemma Forward_head:
  assumes "ring (GcdLinks s) (m # Q)"
  shows "Forward m s = Some (hd (Q @ [m]))"
  using ring_next [of "GcdLinks s" "[]" m Q] assms by simp

lemma Backward_node:
  assumes "ring (GcdLinks s) (m # P @ q # Q)"
  shows "Backward q s = Some (last (m # P))"
  using ring_prev [of "GcdLinks s" "m # P" q Q] assms by simp

lemma ring_head_not_in: "ring h (m # ps) \<Longrightarrow> m \<notin> set ps"
  by (auto dest: ring_distinct)

section \<open>Searching\<close>

lemma SearchLoop_end:
  assumes "ring (GcdLinks s) (m # P @ Q)" and "list_all2 (\<lambda>p e. CR p s = Some e) Q eQ"
    and "tiles mid hi eQ" and "unat B < mid" and "mid \<le> unat (B + L - 1)" and "st \<noteq> NULL"
  shows "if unat (B + L - 1) < hi
    then \<exists>Q1 q Q2 e1 e e2. Q = Q1 @ q # Q2 \<and> eQ = e1 @ e # e2 \<and> length Q1 = length e1
      \<and> holds (B + L - 1) e \<and> SearchLoop B L st m (hd (Q @ [m])) s = Some (EFI_SUCCESS, st, q)
    else SearchLoop B L st m (hd (Q @ [m])) s = Some (EFI_NOT_FOUND, st, NULL)"
  using assms
proof (induction Q arbitrary: P eQ mid)
  case Nil
  then show ?case by (simp add: SearchLoop.simps)
next
  case (Cons q Q)
  then obtain e es where eQ: "eQ = e # es" "CR q s = Some e" "list_all2 (\<lambda>p e. CR p s = Some e) Q es"
    by (auto simp: list_all2_Cons1)
  let ?x = "B + L - 1"
  have t: "unat (BaseAddress e) = mid" "BaseAddress e \<le> EndAddress e" "tiles (Suc (unat (EndAddress e))) hi es"
    using Cons.prems(3) eQ(1) by auto
  have qm: "q \<noteq> m" using ring_head_not_in [OF Cons.prems(1)] by auto
  have nB: "\<not> B \<ge> BaseAddress e" and xB: "?x \<ge> BaseAddress e"
    using t Cons.prems(4,5) by (auto simp: word_le_nat_alt)
  have step: "SearchLoop B L st m q s =
      (if ?x \<le> EndAddress e then Some (EFI_SUCCESS, st, q) else SearchLoop B L st m (hd (Q @ [m])) s)"
    using qm eQ(2) nB xB Cons.prems(6) Forward_node [OF Cons.prems(1)]
    by (subst SearchLoop.simps) simp
  show ?case
  proof (cases "?x \<le> EndAddress e")
    case True
    have "holds ?x e" using True Cons.prems(5) t(1) by (simp add: holds_def word_le_nat_alt)
    moreover have "unat ?x < hi"
      using tiles_outside [OF Cons.prems(3), of e ?x] eQ(1) \<open>holds ?x e\<close> by simp
    moreover have "q # Q = [] @ q # Q" "eQ = [] @ e # es" by (simp_all add: eQ(1))
    ultimately show ?thesis using step True by (smt (verit) append_Cons list.sel(1) list.size(3))
  next
    case False
    have "ring (GcdLinks s) (m # (P @ [q]) @ Q)" using Cons.prems(1) by simp
    from Cons.IH [OF this eQ(3) t(3) _ _ Cons.prems(6)] False Cons.prems(4,5) t(1,2)
    have IH: "if unat ?x < hi
      then \<exists>Q1 q Q2 e1 e e2. Q = Q1 @ q # Q2 \<and> es = e1 @ e # e2 \<and> length Q1 = length e1
        \<and> holds ?x e \<and> SearchLoop B L st m (hd (Q @ [m])) s = Some (EFI_SUCCESS, st, q)
      else SearchLoop B L st m (hd (Q @ [m])) s = Some (EFI_NOT_FOUND, st, NULL)"
      by (simp add: word_le_nat_alt)
    show ?thesis
    proof (cases "unat ?x < hi")
      case True
      with IH obtain Q1 q' Q2 e1 e' e2 where "Q = Q1 @ q' # Q2" "es = e1 @ e' # e2" "length Q1 = length e1"
        "holds ?x e'" "SearchLoop B L st m (hd (Q @ [m])) s = Some (EFI_SUCCESS, st, q')" by auto
      then have "q # Q = (q # Q1) @ q' # Q2 \<and> eQ = (e # e1) @ e' # e2 \<and> length (q # Q1) = length (e # e1)
        \<and> holds ?x e' \<and> SearchLoop B L st m (hd ((q # Q) @ [m])) s = Some (EFI_SUCCESS, st, q')"
        using step False eQ(1) by simp
      with True show ?thesis by (smt (verit))
    next
      case False
      with IH step \<open>\<not> ?x \<le> EndAddress e\<close> show ?thesis by simp
    qed
  qed
qed

lemma SearchLoop_start:
  assumes "ring (GcdLinks s) (m # P @ Q)" and "list_all2 (\<lambda>p e. CR p s = Some e) Q eQ"
    and "tiles mid hi eQ" and "mid \<le> unat B" and "unat B \<le> unat (B + L - 1)"
  shows "if unat (B + L - 1) < hi
    then \<exists>Q1 S Q2 e1 eS e2. Q = Q1 @ S @ Q2 \<and> eQ = e1 @ eS @ e2 \<and> length Q1 = length e1
      \<and> length S = length eS \<and> S \<noteq> [] \<and> holds B (hd eS) \<and> holds (B + L - 1) (last eS)
      \<and> SearchLoop B L NULL m (hd (Q @ [m])) s = Some (EFI_SUCCESS, hd S, last S)
    else \<exists>st. SearchLoop B L NULL m (hd (Q @ [m])) s = Some (EFI_NOT_FOUND, st, NULL)"
  using assms
proof (induction Q arbitrary: P eQ mid)
  case Nil
  then show ?case by (simp add: SearchLoop.simps)
next
  case (Cons q Q)
  then obtain e es where eQ: "eQ = e # es" "CR q s = Some e" "list_all2 (\<lambda>p e. CR p s = Some e) Q es"
    by (auto simp: list_all2_Cons1)
  let ?x = "B + L - 1"
  have t: "unat (BaseAddress e) = mid" "BaseAddress e \<le> EndAddress e" "tiles (Suc (unat (EndAddress e))) hi es"
    using Cons.prems(3) eQ(1) by auto
  have qm: "q \<noteq> m" using ring_head_not_in [OF Cons.prems(1)] by auto
  have q0: "q \<noteq> NULL" using ring_not_NULL [OF Cons.prems(1), of q] by simp
  have B: "BaseAddress e \<le> B" and x: "BaseAddress e \<le> ?x"
    using t Cons.prems(4,5) by (auto simp: word_le_nat_alt)
  have ring': "ring (GcdLinks s) (m # (P @ [q]) @ Q)" using Cons.prems(1) by simp
  have step: "SearchLoop B L NULL m q s =
      (if B \<le> EndAddress e then if ?x \<le> EndAddress e then Some (EFI_SUCCESS, q, q)
         else SearchLoop B L q m (hd (Q @ [m])) s
       else SearchLoop B L NULL m (hd (Q @ [m])) s)"
    using qm q0 eQ(2) B x Forward_node [OF Cons.prems(1)]
    by (subst SearchLoop.simps) simp
  consider "?x \<le> EndAddress e" | "B \<le> EndAddress e" "\<not> ?x \<le> EndAddress e" | "\<not> B \<le> EndAddress e"
    by blast
  then show ?case
  proof cases
    case 1
    have "B \<le> EndAddress e" using 1 Cons.prems(5) by (simp add: word_le_nat_alt)
    then have h: "holds B e" "holds ?x e" using 1 B x by (simp_all add: holds_def)
    then have "unat ?x < hi" using tiles_outside [OF Cons.prems(3), of e ?x] eQ(1) by simp
    moreover have "q # Q = [] @ [q] @ Q \<and> eQ = [] @ [e] @ es" by (simp add: eQ(1))
    ultimately show ?thesis
      using step 1 \<open>B \<le> EndAddress e\<close> h
      by (smt (verit) append_Cons last.simps length_Cons list.distinct(1) list.sel(1) list.size(3))
  next
    case 2
    have h: "holds B e" using 2(1) B by (simp add: holds_def)
    have "unat B < Suc (unat (EndAddress e))" "Suc (unat (EndAddress e)) \<le> unat ?x"
      using 2 by (simp_all add: word_le_nat_alt)
    note end_loop = SearchLoop_end [OF ring' eQ(3) t(3) this q0]
    show ?thesis
    proof (cases "unat ?x < hi")
      case True
      with end_loop obtain Q1 q' Q2 e1 e' e2 where "Q = Q1 @ q' # Q2" "es = e1 @ e' # e2" "length Q1 = length e1"
        "holds ?x e'" "SearchLoop B L q m (hd (Q @ [m])) s = Some (EFI_SUCCESS, q, q')" by auto
      then have "q # Q = [] @ (q # Q1 @ [q']) @ Q2 \<and> eQ = [] @ (e # e1 @ [e']) @ e2 \<and> length [] = length []
        \<and> length (q # Q1 @ [q']) = length (e # e1 @ [e']) \<and> q # Q1 @ [q'] \<noteq> []
        \<and> holds B (hd (e # e1 @ [e'])) \<and> holds ?x (last (e # e1 @ [e']))
        \<and> SearchLoop B L NULL m (hd ((q # Q) @ [m])) s
            = Some (EFI_SUCCESS, hd (q # Q1 @ [q']), last (q # Q1 @ [q']))"
        using step 2 eQ(1) h by simp
      with True show ?thesis by (smt (verit) list.size(3))
    next
      case False
      with end_loop step 2 show ?thesis by simp
    qed
  next
    case 3
    have "Suc (unat (EndAddress e)) \<le> unat B" using 3 by (simp add: word_le_nat_alt)
    note IH = Cons.IH [OF ring' eQ(3) t(3) this Cons.prems(5)]
    show ?thesis
    proof (cases "unat ?x < hi")
      case True
      with IH obtain Q1 S Q2 e1 eS e2 where "Q = Q1 @ S @ Q2" "es = e1 @ eS @ e2" "length Q1 = length e1"
        "length S = length eS" "S \<noteq> []" "holds B (hd eS)" "holds ?x (last eS)"
        "SearchLoop B L NULL m (hd (Q @ [m])) s = Some (EFI_SUCCESS, hd S, last S)" by auto
      then have "q # Q = (q # Q1) @ S @ Q2 \<and> eQ = (e # e1) @ eS @ e2 \<and> length (q # Q1) = length (e # e1)
        \<and> length S = length eS \<and> S \<noteq> [] \<and> holds B (hd eS) \<and> holds ?x (last eS)
        \<and> SearchLoop B L NULL m (hd ((q # Q) @ [m])) s = Some (EFI_SUCCESS, hd S, last S)"
        using step 3 eQ(1) by simp
      with True show ?thesis by (smt (verit))
    next
      case False
      with IH step 3 show ?thesis by simp
    qed
  qed
qed

lemma CoreSearchGcdMapEntry_found:
  assumes "gcd_map s m ps es" and "tiles lo hi es" and "L \<noteq> 0" and "lo \<le> unat B" and "unat B + unat L \<le> hi"
  obtains A S D eA eS eD where "ps = A @ S @ D" "es = eA @ eS @ eD" "length A = length eA"
    "length S = length eS" "S \<noteq> []" "holds B (hd eS)" "holds (B + L - 1) (last eS)"
    "CoreSearchGcdMapEntry B L m s = Some (EFI_SUCCESS, hd S, last S)"
proof -
  have l0: "unat L \<noteq> 0" using assms(3) by (simp add: unat_eq_zero)
  have "es \<noteq> []" using assms(2,4,5) l0 by auto
  then have "hi \<le> 2 ^ 64" by (rule tiles_bound [OF assms(2)])
  then have x: "unat (B + L - 1) = unat B + unat L - 1" using assms(3,5) by (intro unat_last) auto
  have r: "ring (GcdLinks s) (m # [] @ ps)" and c: "list_all2 (\<lambda>p e. CR p s = Some e) ps es"
    using assms(1) by (simp_all add: gcd_map_def)
  have "unat B \<le> unat (B + L - 1)" "unat (B + L - 1) < hi" using x l0 assms(5) by simp_all
  with SearchLoop_start [OF r c assms(2,4), of L] obtain A S D eA eS eD where
    "ps = A @ S @ D" "es = eA @ eS @ eD" "length A = length eA"
    "length S = length eS" "S \<noteq> []" "holds B (hd eS)" "holds (B + L - 1) (last eS)"
    "SearchLoop B L NULL m (hd (ps @ [m])) s = Some (EFI_SUCCESS, hd S, last S)" by auto
  moreover from this(8) have "CoreSearchGcdMapEntry B L m s = Some (EFI_SUCCESS, hd S, last S)"
    using assms(3) Forward_head [of s m ps] r by (simp add: CoreSearchGcdMapEntry_def)
  ultimately show ?thesis using that by blast
qed

lemma CoreSearchGcdMapEntry_not_found:
  assumes "gcd_map s m ps es" and "tiles lo hi es" and "L \<noteq> 0" and "lo \<le> unat B"
    and "hi < unat B + unat L" and "unat B + unat L \<le> 2 ^ 64"
  shows "\<exists>st. CoreSearchGcdMapEntry B L m s = Some (EFI_NOT_FOUND, st, NULL)"
proof -
  have l0: "unat L \<noteq> 0" using assms(3) by (simp add: unat_eq_zero)
  have x: "unat (B + L - 1) = unat B + unat L - 1" using assms(3,6) by (rule unat_last)
  have r: "ring (GcdLinks s) (m # [] @ ps)" and c: "list_all2 (\<lambda>p e. CR p s = Some e) ps es"
    using assms(1) by (simp_all add: gcd_map_def)
  have "unat B \<le> unat (B + L - 1)" "\<not> unat (B + L - 1) < hi" using x l0 assms(5) by simp_all
  with SearchLoop_start [OF r c assms(2,4), of L] obtain st where
    "SearchLoop B L NULL m (hd (ps @ [m])) s = Some (EFI_NOT_FOUND, st, NULL)" by auto
  then show ?thesis
    using assms(3) Forward_head [of s m ps] r by (simp add: CoreSearchGcdMapEntry_def)
qed

section \<open>Checking a stretch\<close>

lemma CheckLoop_from:
  assumes "ring (GcdLinks s) (m # A @ (S1 @ S2) @ D)" and "list_all2 (\<lambda>p e. CR p s = Some e) S2 eS"
    and "S1 @ S2 \<noteq> []"
  shows "CheckLoop Check (hd (S2 @ D @ [m])) (last (S1 @ S2)) s =
    (case find (\<lambda>(p, e). EFI_ERROR (Check e)) (zip S2 eS) of
       None \<Rightarrow> Some (EFI_SUCCESS, hd (D @ [m]))
     | Some (p, e) \<Rightarrow> Some (Check e, p))"
  using assms
proof (induction S2 arbitrary: S1 eS)
  case Nil
  have "Forward (last S1) s = Some (hd (D @ [m]))"
    using Nil.prems(1,3) Forward_last [of s m A S1 D] by simp
  then show ?case by (simp add: CheckLoop.simps)
next
  case (Cons q S2)
  then obtain e es where eS: "eS = e # es" "CR q s = Some e" "list_all2 (\<lambda>p e. CR p s = Some e) S2 es"
    by (auto simp: list_all2_Cons1)
  have stop: "Forward (last (S1 @ q # S2)) s = Some (hd (D @ [m]))"
    using Forward_last [OF Cons.prems(1,3)] .
  have "q \<noteq> hd (D @ [m])" using ring_distinct [OF Cons.prems(1)] by (cases D) auto
  moreover have "Forward q s = Some (hd (S2 @ D @ [m]))"
    using Cons.prems(1) Forward_node [of s m "A @ S1" q "S2 @ D"] by simp
  moreover have "CheckLoop Check (hd (S2 @ D @ [m])) (last ((S1 @ [q]) @ S2)) s =
    (case find (\<lambda>(p, e). EFI_ERROR (Check e)) (zip S2 es) of
       None \<Rightarrow> Some (EFI_SUCCESS, hd (D @ [m]))
     | Some (p, e) \<Rightarrow> Some (Check e, p))"
    using Cons.prems(1) eS(3) by (intro Cons.IH) auto
  ultimately show ?case
    using stop eS by (subst CheckLoop.simps) simp
qed

lemma CheckLoop_stretch:
  assumes "gcd_map s m (A @ S @ D) (eA @ eS @ eD)" and "length A = length eA" and "length S = length eS"
    and "S \<noteq> []"
  shows "CheckLoop Check (hd S) (last S) s =
    (case find (\<lambda>(p, e). EFI_ERROR (Check e)) (zip S eS) of
       None \<Rightarrow> Some (EFI_SUCCESS, hd (D @ [m]))
     | Some (p, e) \<Rightarrow> Some (Check e, p))"
  using CheckLoop_from [of s m A "[]" S D eS Check] assms
  by (auto simp: gcd_map_def list_all2_append)

section \<open>Splitting an entry\<close>

text \<open>A work entry that \<open>CoreAllocateGcdMapEntry\<close> has provided and that is not in the list yet.\<close>

definition spare :: "'a GCD_STATE_scheme \<Rightarrow> ptr \<Rightarrow> bool" where
  "spare s p \<longleftrightarrow> p \<noteq> NULL \<and> GcdLinks s p \<noteq> None \<and> (\<exists>z. GcdEntries s p = Some z \<and> Signature z = 0)"

lemma copied_link:
  assumes "ring h (m # A @ l # D)" and "h p \<noteq> None" and "p \<notin> set (m # A @ l # D)"
  shows "ring (h(p := h l)) (m # A @ l # D)" and "untouched {p} h (h(p := h l))"
    and "(h(p := h l)) p \<noteq> None"
proof -
  have "h l \<noteq> None" using ring_mapped [OF assms(1), of l] by simp
  then show u: "untouched {p} h (h(p := h l))" and "(h(p := h l)) p \<noteq> None"
    using assms(2) by (auto simp: untouched_def)
  show "ring (h(p := h l)) (m # A @ l # D)"
    by (rule ring_untouched [OF assms(1) u]) (use assms(3) in blast)
qed

lemma InsertTailList_before:
  assumes "ring h (m # A @ l # D)" and "fits n (length (m # A @ l # D))"
    and "p \<notin> set (m # A @ l # D)" and "p \<noteq> NULL" and "h p \<noteq> None"
  shows "\<exists>h'. InsertTailList v n h l p = Some (l, h') \<and> ring h' (m # A @ p # l # D)
    \<and> untouched (set (p # m # A @ l # D)) h h'"
proof -
  have rot: "ring h (l # D @ m # A)" using assms(1) ring_rotate [of h "m # A" "l # D"] by simp
  obtain h' where h': "InsertTailList v n h l p = Some (l, h')" "ring h' (l # (D @ m # A) @ [p])"
    "untouched (set (l # p # D @ m # A)) h h'"
    using InsertTailList_ring [OF rot, of n p v] assms(2-5) by (auto simp: add.commute)
  have "ring h' (m # A @ p # l # D)"
    using h'(2) ring_rotate [of h' "m # A @ [p]" "l # D"] by simp
  moreover have "set (l # p # D @ m # A) = set (p # m # A @ l # D)" by auto
  ultimately show ?thesis using h'(1,3) by metis
qed

lemma InsertHeadList_after:
  assumes "ring h (m # A @ l # D)" and "fits n (length (m # A @ l # D))"
    and "p \<notin> set (m # A @ l # D)" and "p \<noteq> NULL" and "h p \<noteq> None"
  shows "\<exists>h'. InsertHeadList v n h l p = Some (l, h') \<and> ring h' (m # A @ l # p # D)
    \<and> untouched (set (p # m # A @ l # D)) h h'"
proof -
  have rot: "ring h (l # D @ m # A)" using assms(1) ring_rotate [of h "m # A" "l # D"] by simp
  obtain h' where h': "InsertHeadList v n h l p = Some (l, h')" "ring h' (l # p # D @ m # A)"
    "untouched (set (l # p # D @ m # A)) h h'"
    using InsertHeadList_ring [OF rot, of n p v] assms(2-5) by (auto simp: add.commute)
  have "ring h' (m # A @ l # p # D)"
    using h'(2) ring_rotate [of h' "m # A" "l # p # D"] by simp
  moreover have "set (l # p # D @ m # A) = set (p # m # A @ l # D)" by auto
  ultimately show ?thesis using h'(1,3) by metis
qed

lemma InsertBottomEntry_splits:
  assumes r: "ring (GcdLinks s) (m # A @ l # D)"
    and fit: "fits (PcdMaximumLinkedListLength s) (length (m # A @ l # D))"
    and e: "GcdEntries s l = Some e" "BaseAddress e < B"
    and p: "spare s p" "p \<notin> set (m # A @ l # D)"
  shows "\<exists>h. InsertBottomEntry l B p s = Some (s\<lparr>GcdLinks := h,
      GcdEntries := (GcdEntries s)(p \<mapsto> e\<lparr>EndAddress := B - 1\<rparr>, l \<mapsto> e\<lparr>BaseAddress := B\<rparr>)\<rparr>)
    \<and> ring h (m # A @ p # l # D) \<and> untouched (set (p # m # A @ l # D)) (GcdLinks s) h"
proof -
  let ?h = "(GcdLinks s)(p := GcdLinks s l)"
  have nz: "p \<noteq> NULL" "GcdLinks s p \<noteq> None" and z: "\<exists>z. GcdEntries s p = Some z \<and> Signature z = 0"
    using p(1) unfolding spare_def by blast+
  note cp = copied_link [OF r nz(2) p(2)]
  obtain h where h: "InsertTailList (PcdVerifyNodeInList s) (PcdMaximumLinkedListLength s) ?h l p = Some (l, h)"
    "ring h (m # A @ p # l # D)" "untouched (set (p # m # A @ l # D)) ?h h"
    using InsertTailList_before [OF cp(1) fit p(2) nz(1) cp(3)] by blast
  have pl: "p \<noteq> l" using p(2) by auto
  have "InsertBottomEntry l B p s = Some (s\<lparr>GcdLinks := h,
      GcdEntries := (GcdEntries s)(p \<mapsto> e\<lparr>EndAddress := B - 1\<rparr>, l \<mapsto> e\<lparr>BaseAddress := B\<rparr>)\<rparr>)"
    using e z h(1) pl
    by (auto simp: InsertBottomEntry_def CopyEntry_def StoreEntry_def GcdInsertTail_def fun_upd_twist [of p l])
  moreover have "untouched (set (p # m # A @ l # D)) (GcdLinks s) h"
    by (rule untouched_trans [OF cp(2) h(3)]) auto
  ultimately show ?thesis using h(2) by blast
qed

lemma InsertTopEntry_splits:
  assumes r: "ring (GcdLinks s) (m # A @ l # D)"
    and fit: "fits (PcdMaximumLinkedListLength s) (length (m # A @ l # D))"
    and e: "GcdEntries s l = Some e" "B + L - 1 < EndAddress e"
    and p: "spare s p" "p \<notin> set (m # A @ l # D)"
  shows "\<exists>h. InsertTopEntry l B L p s = Some (s\<lparr>GcdLinks := h,
      GcdEntries := (GcdEntries s)(p \<mapsto> e\<lparr>BaseAddress := B + L\<rparr>, l \<mapsto> e\<lparr>EndAddress := B + L - 1\<rparr>)\<rparr>)
    \<and> ring h (m # A @ l # p # D) \<and> untouched (set (p # m # A @ l # D)) (GcdLinks s) h"
proof -
  let ?h = "(GcdLinks s)(p := GcdLinks s l)"
  have nz: "p \<noteq> NULL" "GcdLinks s p \<noteq> None" and z: "\<exists>z. GcdEntries s p = Some z \<and> Signature z = 0"
    using p(1) unfolding spare_def by blast+
  note cp = copied_link [OF r nz(2) p(2)]
  obtain h where h: "InsertHeadList (PcdVerifyNodeInList s) (PcdMaximumLinkedListLength s) ?h l p = Some (l, h)"
    "ring h (m # A @ l # p # D)" "untouched (set (p # m # A @ l # D)) ?h h"
    using InsertHeadList_after [OF cp(1) fit p(2) nz(1) cp(3)] by blast
  have "InsertTopEntry l B L p s = Some (s\<lparr>GcdLinks := h,
      GcdEntries := (GcdEntries s)(p \<mapsto> e\<lparr>BaseAddress := B + L\<rparr>, l \<mapsto> e\<lparr>EndAddress := B + L - 1\<rparr>)\<rparr>)"
    using e z h(1)
    by (auto simp: InsertTopEntry_def CopyEntry_def StoreEntry_def GcdInsertHead_def)
  moreover have "untouched (set (p # m # A @ l # D)) (GcdLinks s) h"
    by (rule untouched_trans [OF cp(2) h(3)]) auto
  ultimately show ?thesis using h(2) by blast
qed

section \<open>Changing a stretch\<close>

text \<open>The updates of the entries in order, and the parts that the range cuts off at its two ends.\<close>

fun thread :: "(UINT64 \<Rightarrow> EFI_GCD_MAP_ENTRY \<Rightarrow> UINT64 \<times> EFI_GCD_MAP_ENTRY) \<Rightarrow> UINT64 \<Rightarrow>
    EFI_GCD_MAP_ENTRY list \<Rightarrow> EFI_GCD_MAP_ENTRY list" where
  "thread U a [] = []"
| "thread U a (e # es) = snd (U a e) # thread U (fst (U a e)) es"

fun clip_top :: "UINT64 \<Rightarrow> EFI_GCD_MAP_ENTRY list \<Rightarrow> EFI_GCD_MAP_ENTRY list" where
  "clip_top x [] = []"
| "clip_top x [e] = [if x < EndAddress e then e\<lparr>EndAddress := x\<rparr> else e]"
| "clip_top x (e # es) = e # clip_top x es"

definition cut_top :: "UINT64 \<Rightarrow> UINT64 \<Rightarrow> EFI_GCD_MAP_ENTRY list \<Rightarrow> bool" where
  "cut_top B L es \<longleftrightarrow> es \<noteq> [] \<and> B + L - 1 < EndAddress (last es)"

definition tops :: "UINT64 \<Rightarrow> UINT64 \<Rightarrow> EFI_GCD_MAP_ENTRY list \<Rightarrow> EFI_GCD_MAP_ENTRY list" where
  "tops B L es = (if cut_top B L es then [(last es)\<lparr>BaseAddress := B + L\<rparr>] else [])"

lemma clip_top_Cons: "es \<noteq> [] \<Longrightarrow> clip_top x (e # es) = e # clip_top x es"
  by (cases es) auto

lemma length_clip_top [simp]: "length (clip_top x es) = length es"
  by (induction x es rule: clip_top.induct) auto

lemma length_thread [simp]: "length (thread U a es) = length es"
  by (induction es arbitrary: a) auto

lemma InsertLoop_rest:
  assumes "ring (GcdLinks s) (m # A @ (S1 @ S2) @ D)"
    and "fits (PcdMaximumLinkedListLength s) (length (m # A @ (S1 @ S2) @ D))"
    and "list_all2 (\<lambda>p e. CR p s = Some e) S2 eS"
    and "S1 @ S2 \<noteq> []" and "L \<noteq> 0"
    and "\<And>e. e \<in> set eS \<Longrightarrow> \<not> BaseAddress e < B"
    and "\<And>e. e \<in> set (butlast eS) \<Longrightarrow> \<not> B + L - 1 < EndAddress e"
    and "spare s T" and "T \<notin> set (m # A @ (S1 @ S2) @ D)"
    and sig: "\<And>a e. Signature (snd (U a e)) = Signature e"
  shows "\<exists>h E. InsertLoop U B L T Bo a (hd (S2 @ D @ [m])) (last (S1 @ S2)) s
      = Some (s\<lparr>GcdLinks := h, GcdEntries := E\<rparr>)
    \<and> ring h (m # A @ (S1 @ S2) @ (if cut_top B L eS then [T] else []) @ D)
    \<and> untouched (set (T # m # A @ (S1 @ S2) @ D)) (GcdLinks s) h
    \<and> list_all2 (\<lambda>p e. E p = Some e) (S2 @ (if cut_top B L eS then [T] else []))
         (thread U a (clip_top (B + L - 1) eS) @ tops B L eS)
    \<and> (\<forall>p. p \<notin> set S2 \<longrightarrow> (cut_top B L eS \<longrightarrow> p \<noteq> T) \<longrightarrow> E p = GcdEntries s p)
    \<and> (\<not> cut_top B L eS \<longrightarrow> h = GcdLinks s)"
  using assms(1-9)
proof (induction S2 arbitrary: S1 eS a s)
  case Nil
  have "Forward (last S1) s = Some (hd (D @ [m]))"
    using Nil.prems(1,4) Forward_last [of s m A S1 D] by simp
  then have "InsertLoop U B L T Bo a (hd (D @ [m])) (last S1) s = Some s"
    by (simp add: InsertLoop.simps)
  moreover have "eS = []" using Nil.prems(3) by simp
  moreover have "s = s\<lparr>GcdLinks := GcdLinks s, GcdEntries := GcdEntries s\<rparr>" by simp
  ultimately show ?case using Nil.prems(1)
    by (intro exI [of _ "GcdLinks s"] exI [of _ "GcdEntries s"])
      (simp add: cut_top_def tops_def untouched_def)
next
  case (Cons q S2)
  then obtain e es where eS: "eS = e # es" "CR q s = Some e" "list_all2 (\<lambda>p e. CR p s = Some e) S2 es"
    by (auto simp: list_all2_Cons1)
  have sg: "GcdEntries s q = Some e" "Signature e = EFI_GCD_MAP_SIGNATURE" using eS(2) by (simp_all add: CR_iff)
  have stop: "Forward (last (S1 @ q # S2)) s = Some (hd (D @ [m]))"
    using Forward_last [OF Cons.prems(1,4)] .
  have d: "distinct (m # A @ (S1 @ q # S2) @ D)" using ring_distinct [OF Cons.prems(1)] .
  have qs: "q \<noteq> hd (D @ [m])" using d by (cases D) auto
  have qT: "q \<noteq> T" using Cons.prems(9) by auto
  have lo: "\<not> BaseAddress e < B" using Cons.prems(6) eS(1) by simp
  have bot: "InsertBottomEntry q B Bo s = Some s" using lo sg(1) by (simp add: InsertBottomEntry_def)
  obtain a' e' where U: "U a e = (a', e')" by (cases "U a e")
  show ?case
  proof (cases "S2 = []")
    case False
    then have es: "es \<noteq> []" using eS(3) by auto
    have hi: "\<not> B + L - 1 < EndAddress e" using Cons.prems(7) eS(1) es by simp
    have ins: "CoreInsertGcdMapEntry q B L T Bo s = Some s"
      using bot hi sg(1) Cons.prems(5) by (simp add: CoreInsertGcdMapEntry_def InsertTopEntry_def)
    let ?s = "StoreEntry q e' s"
    have fw: "Forward q s = Some (hd (S2 @ D @ [m]))"
      using Cons.prems(1) Forward_node [of s m "A @ S1" q "S2 @ D"] by simp
    have step: "InsertLoop U B L T Bo a q (last (S1 @ q # S2)) s =
        InsertLoop U B L T Bo a' (hd (S2 @ D @ [m])) (last ((S1 @ [q]) @ S2)) ?s"
      using stop qs eS(2) ins sg(1) U fw by (subst InsertLoop.simps) (simp add: StoreEntry_def)
    have cr: "list_all2 (\<lambda>p e. CR p ?s = Some e) S2 es"
      using eS(3) d by (auto simp: list_all2_conv_all_nth CR_iff StoreEntry_def)
    have "\<exists>h E. InsertLoop U B L T Bo a' (hd (S2 @ D @ [m])) (last ((S1 @ [q]) @ S2)) ?s
        = Some (?s\<lparr>GcdLinks := h, GcdEntries := E\<rparr>)
      \<and> ring h (m # A @ ((S1 @ [q]) @ S2) @ (if cut_top B L es then [T] else []) @ D)
      \<and> untouched (set (T # m # A @ ((S1 @ [q]) @ S2) @ D)) (GcdLinks ?s) h
      \<and> list_all2 (\<lambda>p e. E p = Some e) (S2 @ (if cut_top B L es then [T] else []))
           (thread U a' (clip_top (B + L - 1) es) @ tops B L es)
      \<and> (\<forall>p. p \<notin> set S2 \<longrightarrow> (cut_top B L es \<longrightarrow> p \<noteq> T) \<longrightarrow> E p = GcdEntries ?s p)
      \<and> (\<not> cut_top B L es \<longrightarrow> h = GcdLinks ?s)"
      using Cons.prems(1,2,5,6,7,8,9) eS(1) es cr qT
      by (intro Cons.IH) (auto simp: StoreEntry_def spare_def)
    then obtain h E where hE:
      "InsertLoop U B L T Bo a' (hd (S2 @ D @ [m])) (last ((S1 @ [q]) @ S2)) ?s
        = Some (?s\<lparr>GcdLinks := h, GcdEntries := E\<rparr>)"
      "ring h (m # A @ ((S1 @ [q]) @ S2) @ (if cut_top B L es then [T] else []) @ D)"
      "untouched (set (T # m # A @ ((S1 @ [q]) @ S2) @ D)) (GcdLinks ?s) h"
      "list_all2 (\<lambda>p e. E p = Some e) (S2 @ (if cut_top B L es then [T] else []))
           (thread U a' (clip_top (B + L - 1) es) @ tops B L es)"
      "\<forall>p. p \<notin> set S2 \<longrightarrow> (cut_top B L es \<longrightarrow> p \<noteq> T) \<longrightarrow> E p = GcdEntries ?s p"
      "\<not> cut_top B L es \<longrightarrow> h = GcdLinks ?s" by blast
    have cut: "cut_top B L eS = cut_top B L es" "tops B L eS = tops B L es"
      "clip_top (B + L - 1) eS = e # clip_top (B + L - 1) es"
      using es eS(1) by (simp_all add: cut_top_def tops_def clip_top_Cons)
    have Eq: "E q = Some e'" using hE(5) d qT by (auto simp: StoreEntry_def)
    show ?thesis
      unfolding cut using step hE Eq U eS(1)
      by (intro exI [of _ h] exI [of _ E]) (auto simp: StoreEntry_def)
  next
    case True
    then have es: "es = []" "eS = [e]" using eS(1,3) by auto
    have r1: "ring (GcdLinks s) (m # (A @ S1) @ q # D)" using Cons.prems(1) True by simp
    show ?thesis
    proof (cases "B + L - 1 < EndAddress e")
      case False
      have ins: "CoreInsertGcdMapEntry q B L T Bo s = Some s"
        using bot False sg(1) Cons.prems(5) by (simp add: CoreInsertGcdMapEntry_def InsertTopEntry_def)
      have fw: "Forward q s = Some (hd (D @ [m]))" using Forward_node [OF r1] .
      let ?E = "(GcdEntries s)(q \<mapsto> e')"
      have "InsertLoop U B L T Bo a' (hd (D @ [m])) q (StoreEntry q e' s) = Some (StoreEntry q e' s)"
        using fw by (subst InsertLoop.simps) (simp add: StoreEntry_def)
      then have "InsertLoop U B L T Bo a q (last (S1 @ [q])) s = Some (s\<lparr>GcdLinks := GcdLinks s, GcdEntries := ?E\<rparr>)"
        using qs eS(2) ins sg(1) U fw by (subst InsertLoop.simps) (simp add: StoreEntry_def)
      then show ?thesis
        using True es False U Cons.prems(1)
        by (intro exI [of _ "GcdLinks s"] exI [of _ ?E])
          (simp add: cut_top_def tops_def untouched_def fun_upd_def)
    next
      case top: True
      have "fits (PcdMaximumLinkedListLength s) (length (m # (A @ S1) @ q # D))"
        "T \<notin> set (m # (A @ S1) @ q # D)" using Cons.prems(2,9) True by simp_all
      from InsertTopEntry_splits [OF r1 this(1) sg(1) top Cons.prems(8) this(2)] obtain h where h:
        "InsertTopEntry q B L T s = Some (s\<lparr>GcdLinks := h, GcdEntries := (GcdEntries s)(T \<mapsto> e\<lparr>BaseAddress := B + L\<rparr>,
            q \<mapsto> e\<lparr>EndAddress := B + L - 1\<rparr>)\<rparr>)"
        "ring h (m # (A @ S1) @ q # T # D)" "untouched (set (T # m # (A @ S1) @ q # D)) (GcdLinks s) h"
        by blast
      obtain a2 e2 where U2: "U a (e\<lparr>EndAddress := B + L - 1\<rparr>) = (a2, e2)"
        by (cases "U a (e\<lparr>EndAddress := B + L - 1\<rparr>)")
      let ?E = "(GcdEntries s)(T \<mapsto> e\<lparr>BaseAddress := B + L\<rparr>, q \<mapsto> e2)"
      let ?s = "s\<lparr>GcdLinks := h, GcdEntries := ?E\<rparr>"
      have fw: "GetForwardLink h q = Some T"
        using ring_next [of h "m # A @ S1" q "T # D"] h(2) by simp
      have "InsertLoop U B L T Bo a2 T q ?s = Some ?s"
        using fw by (subst InsertLoop.simps) simp
      then have "InsertLoop U B L T Bo a q (last (S1 @ [q])) s = Some ?s"
        using qs eS(2) bot h(1) U2 fw stop True Cons.prems(5)
        by (subst InsertLoop.simps) (simp add: StoreEntry_def CoreInsertGcdMapEntry_def)
      moreover have "ring h (m # A @ (S1 @ [q]) @ [T] @ D)" using h(2) by simp
      moreover have "untouched (set (T # m # A @ (S1 @ [q]) @ D)) (GcdLinks s) h" using h(3) by simp
      ultimately show ?thesis
        using True es top U2 qT
        by (intro exI [of _ h] exI [of _ ?E]) (simp add: cut_top_def tops_def fun_upd_def)
    qed
  qed
qed

definition clip_bottom :: "UINT64 \<Rightarrow> EFI_GCD_MAP_ENTRY list \<Rightarrow> EFI_GCD_MAP_ENTRY list" where
  "clip_bottom B es =
     (case es of [] \<Rightarrow> [] | e # es \<Rightarrow> (if BaseAddress e < B then e\<lparr>BaseAddress := B\<rparr> else e) # es)"

definition cut_bottom :: "UINT64 \<Rightarrow> EFI_GCD_MAP_ENTRY list \<Rightarrow> bool" where
  "cut_bottom B es \<longleftrightarrow> es \<noteq> [] \<and> BaseAddress (hd es) < B"

definition bots :: "UINT64 \<Rightarrow> EFI_GCD_MAP_ENTRY list \<Rightarrow> EFI_GCD_MAP_ENTRY list" where
  "bots B es = (if cut_bottom B es then [(hd es)\<lparr>EndAddress := B - 1\<rparr>] else [])"

lemma clip_bottom_simps [simp]:
  "clip_bottom B [] = []"
  "clip_bottom B (e # es) = (if BaseAddress e < B then e\<lparr>BaseAddress := B\<rparr> else e) # es"
  by (simp_all add: clip_bottom_def)

lemma length_clip_bottom [simp]: "length (clip_bottom B es) = length es"
  by (cases es) simp_all

lemma cut_top_clip_bottom [simp]: "cut_top B L (clip_bottom b es) = cut_top B L es"
  by (cases es) (auto simp: cut_top_def)

lemma tops_clip_bottom [simp]: "tops B L (clip_bottom b es) = tops B L es"
  by (cases es) (auto simp: tops_def cut_top_def)

definition signed :: "EFI_GCD_MAP_ENTRY list \<Rightarrow> bool" where
  "signed es \<longleftrightarrow> set (map Signature es) \<subseteq> {EFI_GCD_MAP_SIGNATURE}"

lemma Signature_clip_top [simp]: "map Signature (clip_top x es) = map Signature es"
  by (induction x es rule: clip_top.induct) simp_all

lemma Signature_clip_bottom [simp]: "map Signature (clip_bottom x es) = map Signature es"
  by (cases es) simp_all

lemma Signature_thread:
  "(\<And>a e. Signature (snd (U a e)) = Signature e) \<Longrightarrow> map Signature (thread U a es) = map Signature es"
  by (induction es arbitrary: a) simp_all

lemma signed_append [simp]: "signed (xs @ ys) \<longleftrightarrow> signed xs \<and> signed ys"
  by (simp add: signed_def)

lemma signed_Nil [simp]: "signed []"
  by (simp add: signed_def)

lemma signed_Cons [simp]: "signed (e # es) \<longleftrightarrow> Signature e = EFI_GCD_MAP_SIGNATURE \<and> signed es"
  by (simp add: signed_def)

lemma signed_in: "signed es \<Longrightarrow> e \<in> set es \<Longrightarrow> Signature e = EFI_GCD_MAP_SIGNATURE"
  by (induction es) auto

lemma signed_bots [simp]: "signed es \<Longrightarrow> signed (bots B es)"
  by (cases es) (simp_all add: bots_def cut_bottom_def)

lemma signed_tops [simp]: "signed es \<Longrightarrow> signed (tops B L es)"
  using signed_in [of es "last es"] by (simp add: tops_def cut_top_def)

lemma list_all2_CR:
  assumes "list_all2 (\<lambda>p e. GcdEntries s p = Some e) ps es"
    and "signed es"
  shows "list_all2 (\<lambda>p e. CR p s = Some e) ps es"
  using assms by (induction rule: list_all2_induct) (simp_all add: CR_iff)

lemma list_all2_CR_D:
  assumes "list_all2 (\<lambda>p e. CR p s = Some e) ps es"
  shows "list_all2 (\<lambda>p e. GcdEntries s p = Some e) ps es"
    and "signed es"
  using assms by (induction rule: list_all2_induct) (simp_all add: CR_iff)

text \<open>The bottom part, if any, is split off before the loop changes anything else.\<close>

lemma InsertLoop_bottom:
  assumes r: "ring (GcdLinks s) (m # A @ (q # S) @ D)"
    and fit: "fits (PcdMaximumLinkedListLength s) (length (m # A @ (q # S) @ D))"
    and e: "CR q s = Some e" "BaseAddress e < B"
    and Bo: "spare s Bo" "Bo \<notin> set (m # A @ (q # S) @ D)"
  shows "\<exists>h. ring h (m # (A @ [Bo]) @ (q # S) @ D)
    \<and> untouched (set (Bo # m # A @ (q # S) @ D)) (GcdLinks s) h
    \<and> InsertLoop U B L T Bo a q (last (q # S)) s = InsertLoop U B L T Bo a q (last (q # S))
        (s\<lparr>GcdLinks := h, GcdEntries := (GcdEntries s)(Bo \<mapsto> e\<lparr>EndAddress := B - 1\<rparr>, q \<mapsto> e\<lparr>BaseAddress := B\<rparr>)\<rparr>)"
proof -
  have sg: "GcdEntries s q = Some e" "Signature e = EFI_GCD_MAP_SIGNATURE" using e(1) by (simp_all add: CR_iff)
  have r': "ring (GcdLinks s) (m # A @ q # (S @ D))" and fit': "fits (PcdMaximumLinkedListLength s) (length (m # A @ q # (S @ D)))"
    and Bo': "Bo \<notin> set (m # A @ q # (S @ D))" using r fit Bo(2) by simp_all
  obtain h where h: "InsertBottomEntry q B Bo s = Some (s\<lparr>GcdLinks := h, GcdEntries := (GcdEntries s)(Bo \<mapsto> e\<lparr>EndAddress := B - 1\<rparr>, q \<mapsto> e\<lparr>BaseAddress := B\<rparr>)\<rparr>)"
    "ring h (m # A @ Bo # q # S @ D)" "untouched (set (Bo # m # A @ q # S @ D)) (GcdLinks s) h"
    using InsertBottomEntry_splits [OF r' fit' sg(1) e(2) Bo(1) Bo'] by blast
  let ?s = "s\<lparr>GcdLinks := h, GcdEntries := (GcdEntries s)(Bo \<mapsto> e\<lparr>EndAddress := B - 1\<rparr>, q \<mapsto> e\<lparr>BaseAddress := B\<rparr>)\<rparr>"
  have rh: "ring h (m # (A @ [Bo]) @ (q # S) @ D)" using h(2) by simp
  have stop: "Forward (last (q # S)) s = Some (hd (D @ [m]))" using Forward_last [OF r] by simp
  have stop': "GetForwardLink h (last (q # S)) = Some (hd (D @ [m]))"
    using Forward_last [of ?s m "A @ [Bo]" "q # S" D] rh by simp
  have "InsertBottomEntry q B Bo ?s = Some ?s" by (simp add: InsertBottomEntry_def)
  then have same: "CoreInsertGcdMapEntry q B L T Bo s = CoreInsertGcdMapEntry q B L T Bo ?s"
    using h(1) by (simp add: CoreInsertGcdMapEntry_def)
  have qs: "q \<noteq> hd (D @ [m])" using ring_distinct [OF r] by (cases D) auto
  have cr: "CR q ?s = Some (e\<lparr>BaseAddress := B\<rparr>)" using sg(2) by (simp add: CR_iff)
  have "InsertLoop U B L T Bo a q (last (q # S)) s = InsertLoop U B L T Bo a q (last (q # S)) ?s"
    by (subst (1 2) InsertLoop.simps) (use stop stop' e(1) cr same qs in simp)
  with rh h(3) show ?thesis by auto
qed

lemma list_all2_entries_frame:
  assumes "list_all2 (\<lambda>p e. E p = Some e) ps es" and "\<And>p. p \<in> set ps \<Longrightarrow> E' p = E p"
  shows "list_all2 (\<lambda>p e. E' p = Some e) ps es"
  using assms by (auto simp: list_all2_conv_all_nth)

text \<open>Nothing outside the addresses \<open>X\<close> differs.\<close>

definition gcd_frame :: "ptr set \<Rightarrow> 'a GCD_STATE_scheme \<Rightarrow> 'a GCD_STATE_scheme \<Rightarrow> bool" where
  "gcd_frame X s s' \<longleftrightarrow> (\<forall>p. p \<notin> X \<longrightarrow> GcdLinks s' p = GcdLinks s p \<and> GcdEntries s' p = GcdEntries s p)"

lemma gcd_map_split:
  assumes "gcd_map s m (A @ S @ D) (eA @ eS @ eD)" and "length A = length eA" and "length S = length eS"
  shows "ring (GcdLinks s) (m # A @ S @ D)"
    and "list_all2 (\<lambda>p e. CR p s = Some e) A eA" and "list_all2 (\<lambda>p e. CR p s = Some e) S eS"
    and "list_all2 (\<lambda>p e. CR p s = Some e) D eD"
  using assms by (simp_all add: gcd_map_def list_all2_append)

lemma InsertLoop_no_bottom:
  assumes g: "gcd_map s m (A @ S @ D) (eA @ eS @ eD)" and len: "length A = length eA" "length S = length eS"
    and ne: "S \<noteq> []" and L: "L \<noteq> 0"
    and fit: "fits (PcdMaximumLinkedListLength s) (length (m # A @ S @ D))"
    and lo: "\<And>e. e \<in> set eS \<Longrightarrow> \<not> BaseAddress e < B"
    and hi: "\<And>e. e \<in> set (butlast eS) \<Longrightarrow> \<not> B + L - 1 < EndAddress e"
    and T: "spare s T" "T \<notin> set (m # A @ S @ D)" and sig: "\<And>a e. Signature (snd (U a e)) = Signature e"
  shows "\<exists>h E. InsertLoop U B L T Bo a (hd S) (last S) s = Some (s\<lparr>GcdLinks := h, GcdEntries := E\<rparr>)
    \<and> gcd_map (s\<lparr>GcdLinks := h, GcdEntries := E\<rparr>) m
        (A @ S @ (if cut_top B L eS then [T] else []) @ D)
        (eA @ thread U a (clip_top (B + L - 1) eS) @ tops B L eS @ eD)
    \<and> (\<not> cut_top B L eS \<longrightarrow> h T = GcdLinks s T \<and> E T = GcdEntries s T)
    \<and> gcd_frame (set (T # m # A @ S @ D)) s (s\<lparr>GcdLinks := h, GcdEntries := E\<rparr>)"
proof -
  note c = gcd_map_split [OF g len]
  have sg: "signed eA" "signed eS" "signed eD" using list_all2_CR_D(2) c(2-4) by blast+
  have d: "distinct (m # A @ S @ D)" using ring_distinct [OF c(1)] .
  let ?x = "B + L - 1"
  let ?T = "if cut_top B L eS then [T] else []"
  have "ring (GcdLinks s) (m # A @ ([] @ S) @ D)" "[] @ S \<noteq> []" "T \<notin> set (m # A @ ([] @ S) @ D)"
    "fits (PcdMaximumLinkedListLength s) (length (m # A @ ([] @ S) @ D))"
    using c(1) ne T(2) fit by simp_all
  from InsertLoop_rest [where U = U and B = B and Bo = Bo and a = a,
      OF this(1,4) c(3) this(2) L lo hi T(1) this(3) sig]
  obtain h E where hE: "InsertLoop U B L T Bo a (hd (S @ D @ [m])) (last ([] @ S)) s
        = Some (s\<lparr>GcdLinks := h, GcdEntries := E\<rparr>)"
      "ring h (m # A @ ([] @ S) @ ?T @ D)" "untouched (set (T # m # A @ ([] @ S) @ D)) (GcdLinks s) h"
      "list_all2 (\<lambda>p e. E p = Some e) (S @ ?T) (thread U a (clip_top ?x eS) @ tops B L eS)"
      "\<forall>p. p \<notin> set S \<longrightarrow> (cut_top B L eS \<longrightarrow> p \<noteq> T) \<longrightarrow> E p = GcdEntries s p"
      "\<not> cut_top B L eS \<longrightarrow> h = GcdLinks s"
    by auto
  let ?s = "s\<lparr>GcdLinks := h, GcdEntries := E\<rparr>"
  have same: "E p = GcdEntries s p" if "p \<in> set A \<or> p \<in> set D" for p
  proof -
    have "p \<notin> set S" "p \<noteq> T" using that d T(2) by auto
    then show ?thesis using hE(5) by blast
  qed
  have EA: "list_all2 (\<lambda>p e. E p = Some e) A eA"
    by (rule list_all2_entries_frame [OF list_all2_CR_D(1) [OF c(2)]]) (simp add: same)
  have ED: "list_all2 (\<lambda>p e. E p = Some e) D eD"
    by (rule list_all2_entries_frame [OF list_all2_CR_D(1) [OF c(4)]]) (simp add: same)
  have "list_all2 (\<lambda>p e. GcdEntries ?s p = Some e) (A @ (S @ ?T) @ D)
      (eA @ (thread U a (clip_top ?x eS) @ tops B L eS) @ eD)"
    using list_all2_appendI [OF EA list_all2_appendI [OF hE(4) ED]] by simp
  moreover have "signed (thread U a (clip_top ?x eS))"
    using sg(2) Signature_thread [of U, OF sig] by (simp add: signed_def)
  ultimately have "list_all2 (\<lambda>p e. CR p ?s = Some e) (A @ (S @ ?T) @ D)
      (eA @ (thread U a (clip_top ?x eS) @ tops B L eS) @ eD)"
    using sg by (intro list_all2_CR) simp_all
  then have "gcd_map ?s m (A @ S @ ?T @ D) (eA @ thread U a (clip_top ?x eS) @ tops B L eS @ eD)"
    using hE(2) by (simp add: gcd_map_def)
  moreover have "gcd_frame (set (T # m # A @ S @ D)) s ?s"
    using hE(3,5) by (simp add: gcd_frame_def untouched_def)
  moreover have "\<not> cut_top B L eS \<longrightarrow> h T = GcdLinks s T \<and> E T = GcdEntries s T"
    using hE(5,6) T(2) by simp
  moreover have "InsertLoop U B L T Bo a (hd S) (last S) s = Some ?s" using hE(1) ne by simp
  ultimately show ?thesis by blast
qed

lemma InsertLoop_stretch:
  assumes g: "gcd_map s m (A @ S @ D) (eA @ eS @ eD)" and len: "length A = length eA" "length S = length eS"
    and ne: "S \<noteq> []" and L: "L \<noteq> 0"
    and fit: "fits (PcdMaximumLinkedListLength s) (Suc (length (m # A @ S @ D)))"
    and lo: "\<And>e. e \<in> set (tl eS) \<Longrightarrow> \<not> BaseAddress e < B"
    and hi: "\<And>e. e \<in> set (butlast eS) \<Longrightarrow> \<not> B + L - 1 < EndAddress e"
    and T: "spare s T" "T \<notin> set (m # A @ S @ D)" and Bo: "spare s Bo" "Bo \<notin> set (m # A @ S @ D)"
    and TB: "T \<noteq> Bo" and sig: "\<And>a e. Signature (snd (U a e)) = Signature e"
  shows "\<exists>h E. InsertLoop U B L T Bo a (hd S) (last S) s = Some (s\<lparr>GcdLinks := h, GcdEntries := E\<rparr>)
    \<and> gcd_map (s\<lparr>GcdLinks := h, GcdEntries := E\<rparr>) m
        (A @ (if cut_bottom B eS then [Bo] else []) @ S @ (if cut_top B L eS then [T] else []) @ D)
        (eA @ bots B eS @ thread U a (clip_top (B + L - 1) (clip_bottom B eS)) @ tops B L eS @ eD)
    \<and> (\<not> cut_top B L eS \<longrightarrow> h T = GcdLinks s T \<and> E T = GcdEntries s T)
    \<and> (\<not> cut_bottom B eS \<longrightarrow> h Bo = GcdLinks s Bo \<and> E Bo = GcdEntries s Bo)
    \<and> gcd_frame (set (T # Bo # m # A @ S @ D)) s (s\<lparr>GcdLinks := h, GcdEntries := E\<rparr>)"
proof -
  obtain q S' where S: "S = q # S'" using ne by (cases S) auto
  obtain e es where eS: "eS = e # es" using len S by (cases eS) auto
  note c = gcd_map_split [OF g len]
  have fit0: "fits (PcdMaximumLinkedListLength s) (length (m # A @ S @ D))"
    using fit by (auto simp: fits_def)
  let ?x = "B + L - 1"
  show ?thesis
  proof (cases "BaseAddress e < B")
    case False
    then have cb: "\<not> cut_bottom B eS" "clip_bottom B eS = eS" "bots B eS = []"
      by (simp_all add: eS cut_bottom_def bots_def)
    have lo': "\<not> BaseAddress e' < B" if "e' \<in> set eS" for e' using that False lo eS by auto
    obtain h E where hE: "InsertLoop U B L T Bo a (hd S) (last S) s = Some (s\<lparr>GcdLinks := h, GcdEntries := E\<rparr>)"
      "gcd_map (s\<lparr>GcdLinks := h, GcdEntries := E\<rparr>) m (A @ S @ (if cut_top B L eS then [T] else []) @ D)
        (eA @ thread U a (clip_top ?x eS) @ tops B L eS @ eD)"
      "\<not> cut_top B L eS \<longrightarrow> h T = GcdLinks s T \<and> E T = GcdEntries s T"
      "gcd_frame (set (T # m # A @ S @ D)) s (s\<lparr>GcdLinks := h, GcdEntries := E\<rparr>)"
      using InsertLoop_no_bottom [where U = U and Bo = Bo and a = a, OF g len ne L fit0 lo' hi T sig] by blast
    have "gcd_frame (set (T # Bo # m # A @ S @ D)) s (s\<lparr>GcdLinks := h, GcdEntries := E\<rparr>)"
      using hE(4) by (simp add: gcd_frame_def)
    moreover have "h Bo = GcdLinks s Bo \<and> E Bo = GcdEntries s Bo"
      using hE(4) Bo(2) TB by (simp add: gcd_frame_def)
    ultimately show ?thesis using hE(1,2,3) cb by (intro exI [of _ h] exI [of _ E]) simp
  next
    case True
    then have cb: "cut_bottom B eS" "bots B eS = [e\<lparr>EndAddress := B - 1\<rparr>]"
      "clip_bottom B eS = e\<lparr>BaseAddress := B\<rparr> # es"
      by (simp_all add: eS cut_bottom_def bots_def)
    have crq: "CR q s = Some e" and crS: "list_all2 (\<lambda>p e. CR p s = Some e) S' es"
      using c(3) by (simp_all add: S eS)
    have sge: "Signature e = EFI_GCD_MAP_SIGNATURE" using crq by (simp add: CR_iff)
    obtain h1 where h1: "ring h1 (m # (A @ [Bo]) @ (q # S') @ D)"
      "untouched (set (Bo # m # A @ (q # S') @ D)) (GcdLinks s) h1"
      "InsertLoop U B L T Bo a q (last (q # S')) s = InsertLoop U B L T Bo a q (last (q # S'))
        (s\<lparr>GcdLinks := h1, GcdEntries := (GcdEntries s)(Bo \<mapsto> e\<lparr>EndAddress := B - 1\<rparr>, q \<mapsto> e\<lparr>BaseAddress := B\<rparr>)\<rparr>)"
      using InsertLoop_bottom [OF c(1) [unfolded S] fit0 [unfolded S] crq True Bo(1) Bo(2) [unfolded S]] by blast
    let ?E = "(GcdEntries s)(Bo \<mapsto> e\<lparr>EndAddress := B - 1\<rparr>, q \<mapsto> e\<lparr>BaseAddress := B\<rparr>)"
    let ?s = "s\<lparr>GcdLinks := h1, GcdEntries := ?E\<rparr>"
    have d: "distinct (m # A @ S @ D)" using ring_distinct [OF c(1)] .
    have other: "CR p ?s = CR p s" if "p \<noteq> Bo" "p \<noteq> q" for p using that by (simp add: CR_def)
    have fr: "list_all2 (\<lambda>p e. CR p ?s = Some e) ps es" if "list_all2 (\<lambda>p e. CR p s = Some e) ps es"
      "Bo \<notin> set ps" "q \<notin> set ps" for ps es
      using that other by (auto simp: list_all2_conv_all_nth in_set_conv_nth)
    have "CR Bo ?s = Some (e\<lparr>EndAddress := B - 1\<rparr>)" "CR q ?s = Some (e\<lparr>BaseAddress := B\<rparr>)"
      using Bo(2) sge by (auto simp: CR_iff S)
    moreover have "list_all2 (\<lambda>p e. CR p ?s = Some e) A eA" "list_all2 (\<lambda>p e. CR p ?s = Some e) S' es"
      "list_all2 (\<lambda>p e. CR p ?s = Some e) D eD"
      using fr [OF c(2)] fr [OF crS] fr [OF c(4)] Bo(2) d by (simp_all add: S)
    ultimately have "list_all2 (\<lambda>p e. CR p ?s = Some e) ((A @ [Bo]) @ (q # S') @ D)
        ((eA @ [e\<lparr>EndAddress := B - 1\<rparr>]) @ (e\<lparr>BaseAddress := B\<rparr> # es) @ eD)"
      by (intro list_all2_appendI list.rel_intros) simp_all
    then have g1: "gcd_map ?s m ((A @ [Bo]) @ S @ D) ((eA @ bots B eS) @ clip_bottom B eS @ eD)"
      unfolding gcd_map_def cb S using h1(1) by simp
    have T1: "spare ?s T" "T \<notin> set (m # (A @ [Bo]) @ S @ D)"
      using T TB h1(2) by (auto simp: spare_def untouched_def S)
    have len1: "length (A @ [Bo]) = length (eA @ bots B eS)" "length S = length (clip_bottom B eS)"
      using len cb(2) by simp_all
    have fit1: "fits (PcdMaximumLinkedListLength ?s) (length (m # (A @ [Bo]) @ S @ D))" using fit by simp
    have lo': "\<not> BaseAddress e' < B" if "e' \<in> set (clip_bottom B eS)" for e'
      using that lo eS unfolding cb(3) by auto
    have hi': "\<not> ?x < EndAddress e'" if "e' \<in> set (butlast (clip_bottom B eS))" for e'
      using that hi eS unfolding cb(3) by (auto split: if_splits)
    obtain h E where hE: "InsertLoop U B L T Bo a (hd S) (last S) ?s = Some (?s\<lparr>GcdLinks := h, GcdEntries := E\<rparr>)"
      "gcd_map (?s\<lparr>GcdLinks := h, GcdEntries := E\<rparr>) m
        ((A @ [Bo]) @ S @ (if cut_top B L (clip_bottom B eS) then [T] else []) @ D)
        ((eA @ bots B eS) @ thread U a (clip_top ?x (clip_bottom B eS)) @ tops B L (clip_bottom B eS) @ eD)"
      "\<not> cut_top B L (clip_bottom B eS) \<longrightarrow> h T = GcdLinks ?s T \<and> E T = GcdEntries ?s T"
      "gcd_frame (set (T # m # (A @ [Bo]) @ S @ D)) ?s (?s\<lparr>GcdLinks := h, GcdEntries := E\<rparr>)"
      using InsertLoop_no_bottom [where U = U and Bo = Bo and a = a,
          OF g1 len1 ne L fit1 lo' hi' T1 sig] by blast
    have res: "InsertLoop U B L T Bo a (hd S) (last S) s = Some (s\<lparr>GcdLinks := h, GcdEntries := E\<rparr>)"
      using hE(1) h1(3) by (simp add: S)
    have "gcd_frame (set (T # Bo # m # A @ S @ D)) s (s\<lparr>GcdLinks := h, GcdEntries := E\<rparr>)"
      using hE(4) h1(2) by (simp add: gcd_frame_def untouched_def S)
    moreover have "GcdLinks ?s T = GcdLinks s T \<and> GcdEntries ?s T = GcdEntries s T"
      using T(2) TB h1(2) by (simp add: untouched_def S)
    moreover have "gcd_map (s\<lparr>GcdLinks := h, GcdEntries := E\<rparr>) m
        (A @ [Bo] @ S @ (if cut_top B L eS then [T] else []) @ D)
        (eA @ bots B eS @ thread U a (clip_top ?x (clip_bottom B eS)) @ tops B L eS @ eD)"
      using hE(2) by simp
    ultimately show ?thesis using res hE(3) cb(1) by (intro exI [of _ h] exI [of _ E]) simp
  qed
qed

section \<open>Merging\<close>

text \<open>Addresses in the pool are not in use.\<close>

definition gcd_pool_ok :: "'a GCD_STATE_scheme \<Rightarrow> bool" where
  "gcd_pool_ok s \<longleftrightarrow> distinct (Pool s) \<and> NULL \<notin> set (Pool s)
     \<and> (\<forall>p\<in>set (Pool s). GcdLinks s p = None \<and> GcdEntries s p = None)"

text \<open>A step changes the heaps at the addresses \<open>X\<close> only, and the pool, and nothing else of the state.\<close>

definition gcd_step :: "ptr set \<Rightarrow> 'a GCD_STATE_scheme \<Rightarrow> 'a GCD_STATE_scheme \<Rightarrow> bool" where
  "gcd_step X s s' \<longleftrightarrow>
     (\<exists>h E P. s' = s\<lparr>GcdLinks := h, GcdEntries := E, Pool := P\<rparr>) \<and> gcd_frame X s s'
     \<and> (gcd_pool_ok s \<longrightarrow> gcd_pool_ok s')"

lemma gcd_step_refl [simp]: "gcd_step X s s"
proof -
  have "s = s\<lparr>GcdLinks := GcdLinks s, GcdEntries := GcdEntries s, Pool := Pool s\<rparr>" by simp
  then show ?thesis unfolding gcd_step_def gcd_frame_def by blast
qed

lemma gcd_step_trans:
  assumes "gcd_step X s s'" and "gcd_step Y s' s''" and "X \<subseteq> Z" and "Y \<subseteq> Z"
  shows "gcd_step Z s s''"
proof -
  obtain h E P h' E' P' where "s' = s\<lparr>GcdLinks := h, GcdEntries := E, Pool := P\<rparr>"
    "s'' = s'\<lparr>GcdLinks := h', GcdEntries := E', Pool := P'\<rparr>"
    using assms(1,2) unfolding gcd_step_def by blast
  then have "s'' = s\<lparr>GcdLinks := h', GcdEntries := E', Pool := P'\<rparr>" by simp
  moreover have "gcd_frame Z s s''"
    using assms unfolding gcd_step_def gcd_frame_def by (metis subsetD)
  moreover have "gcd_pool_ok s \<longrightarrow> gcd_pool_ok s''" using assms(1,2) unfolding gcd_step_def by blast
  ultimately show ?thesis unfolding gcd_step_def by blast
qed

lemma gcd_step_simps:
  assumes "gcd_step X s s'"
  shows "PcdMaximumLinkedListLength s' = PcdMaximumLinkedListLength s" "PcdVerifyNodeInList s' = PcdVerifyNodeInList s"
    "Locks s' = Locks s" "gEfiCurrentTpl s' = gEfiCurrentTpl s" "gCpu s' = gCpu s" "gSmmBase2 s' = gSmmBase2 s"
    "InterruptsEnabled s' = InterruptsEnabled s" "GCD_STATE.more s' = GCD_STATE.more s"
proof -
  obtain h E P where "s' = s\<lparr>GcdLinks := h, GcdEntries := E, Pool := P\<rparr>"
    using assms unfolding gcd_step_def by blast
  then show "PcdMaximumLinkedListLength s' = PcdMaximumLinkedListLength s" "PcdVerifyNodeInList s' = PcdVerifyNodeInList s"
    "Locks s' = Locks s" "gEfiCurrentTpl s' = gEfiCurrentTpl s" "gCpu s' = gCpu s" "gSmmBase2 s' = gSmmBase2 s"
    "InterruptsEnabled s' = InterruptsEnabled s" "GCD_STATE.more s' = GCD_STATE.more s" by simp_all
qed

text \<open>Taking an entry out of the list, after its neighbour \<open>l\<close> has been given the entry \<open>e'\<close>.\<close>

lemma remove_and_free:
  assumes r: "ring (GcdLinks s) (m # A @ p # D)" and fit: "fits (PcdMaximumLinkedListLength s) (length (m # A @ p # D))"
    and l: "l \<in> set (A @ D)"
  shows "\<exists>h. GcdRemove p (StoreEntry l e' s) = Some (s\<lparr>GcdLinks := h, GcdEntries := (GcdEntries s)(l \<mapsto> e')\<rparr>)
    \<and> ring (h(p := None)) (m # A @ D)
    \<and> gcd_step (set (m # A @ p # D)) s
        (FreeEntry p (s\<lparr>GcdLinks := h, GcdEntries := (GcdEntries s)(l \<mapsto> e')\<rparr>))"
proof -
  have fit': "fits (PcdMaximumLinkedListLength s) (Suc (length (A @ p # D)))" using fit by simp
  obtain h where h: "RemoveEntryList (PcdMaximumLinkedListLength s) (GcdLinks s) p = Some (hd (D @ [m]), h)"
    "ring h (m # A @ D)" "untouched (set (m # A @ D)) (GcdLinks s) h"
    using RemoveEntryList_list [OF r fit'] by blast
  have d: "distinct (m # A @ p # D)" using ring_distinct [OF r] .
  have "ring (h(p := None)) (m # A @ D)"
    by (rule ring_cong [OF h(2)]) (use d in auto)
  moreover have "GcdRemove p (StoreEntry l e' s) = Some (s\<lparr>GcdLinks := h, GcdEntries := (GcdEntries s)(l \<mapsto> e')\<rparr>)"
    using h(1) by (simp add: GcdRemove_def StoreEntry_def)
  moreover have "gcd_step (set (m # A @ p # D)) s
      (FreeEntry p (s\<lparr>GcdLinks := h, GcdEntries := (GcdEntries s)(l \<mapsto> e')\<rparr>))" (is "gcd_step ?X s ?s")
  proof -
    have "?s = s\<lparr>GcdLinks := h(p := None), GcdEntries := ((GcdEntries s)(l \<mapsto> e'))(p := None), Pool := p # Pool s\<rparr>"
      by (simp add: FreeEntry_def)
    moreover have "gcd_frame ?X s ?s"
      using h(3) l by (auto simp: gcd_frame_def untouched_def FreeEntry_def)
    moreover have "gcd_pool_ok ?s" if ok: "gcd_pool_ok s"
    proof -
      have mapped: "GcdLinks s x \<noteq> None" if "x \<in> ?X" for x using ring_mapped [OF r that] .
      have out: "x \<notin> ?X" if "x \<in> set (Pool s)" for x
        using ok mapped that unfolding gcd_pool_ok_def by blast
      have "p \<noteq> NULL" using ring_not_NULL [OF r, of p] by simp
      moreover have "p \<notin> set (Pool s)" using out [of p] by auto
      moreover have "GcdLinks ?s x = None \<and> GcdEntries ?s x = None" if "x \<in> set (Pool s)" for x
      proof -
        have "GcdLinks ?s x = GcdLinks s x \<and> GcdEntries ?s x = GcdEntries s x"
          using \<open>gcd_frame ?X s ?s\<close> out [OF that] unfolding gcd_frame_def by blast
        then show ?thesis using ok that unfolding gcd_pool_ok_def by simp
      qed
      moreover have "GcdLinks ?s p = None" "GcdEntries ?s p = None" "Pool ?s = p # Pool s"
        by (simp_all add: FreeEntry_def)
      ultimately show ?thesis using ok unfolding gcd_pool_ok_def by simp
    qed
    ultimately show ?thesis unfolding gcd_step_def by blast
  qed
  ultimately show ?thesis by blast
qed

lemma list_all2_CR_frame:
  assumes "list_all2 (\<lambda>p e. CR p s = Some e) ps es" and "\<And>p. p \<in> set ps \<Longrightarrow> GcdEntries s' p = GcdEntries s p"
  shows "list_all2 (\<lambda>p e. CR p s' = Some e) ps es"
  using assms by (auto simp: list_all2_conv_all_nth CR_def)

lemma CoreMergeGcdMapEntry_backward:
  assumes g: "gcd_map s m (A @ q # D) (eA @ e # eD)" and len: "length A = length eA"
    and fit: "fits (PcdMaximumLinkedListLength s) (length (m # A @ q # D))"
  shows "\<exists>st s' A' eA' e'. CoreMergeGcdMapEntry q False m s = Some (st, s')
    \<and> gcd_map s' m (A' @ q # D) (eA' @ e' # eD) \<and> length A' = length eA' \<and> set A' \<subseteq> set A
    \<and> length A' \<le> length A
    \<and> gcd_step (set (m # A @ q # D)) s s' \<and> same_cover (eA @ [e]) (eA' @ [e'])"
proof -
  note c = gcd_map_split [of s m A "[q]" D eA "[e]" eD, simplified, OF g len]
  have crq: "CR q s = Some e" using c(3) by simp
  have bk: "Backward q s = Some (last (m # A))" using Backward_node [OF c(1)] .
  show ?thesis
  proof (cases A rule: rev_cases)
    case Nil
    then have "CoreMergeGcdMapEntry q False m s = Some (EFI_SUCCESS, s)"
      using bk by (simp add: CoreMergeGcdMapEntry_def)
    then show ?thesis using g len by (metis gcd_step_refl same_cover_refl order_refl)
  next
    case (snoc A0 p)
    then obtain eA0 d where eA: "eA = eA0 @ [d]" using len by (cases eA rule: rev_cases) auto
    have len0: "length A0 = length eA0" using len snoc eA by simp
    have crA: "list_all2 (\<lambda>p e. CR p s = Some e) A0 eA0" and crp: "CR p s = Some d"
      using c(2) len0 by (simp_all add: snoc eA list_all2_append)
    have dist: "distinct (m # A @ q # D)" using ring_distinct [OF c(1)] .
    have pm: "p \<noteq> m" using dist snoc by auto
    show ?thesis
    proof (cases "Mergeable e d")
      case False
      then have "CoreMergeGcdMapEntry q False m s = Some (EFI_UNSUPPORTED, s)"
        using bk crq crp pm by (simp add: CoreMergeGcdMapEntry_def snoc)
      then show ?thesis using g len by (metis gcd_step_refl same_cover_refl order_refl)
    next
      case True
      let ?e = "e\<lparr>BaseAddress := BaseAddress d\<rparr>"
      have r: "ring (GcdLinks s) (m # A0 @ p # q # D)"
        and fit': "fits (PcdMaximumLinkedListLength s) (length (m # A0 @ p # q # D))"
        using c(1) fit by (simp_all add: snoc)
      obtain h where h: "GcdRemove p (StoreEntry q ?e s) = Some (s\<lparr>GcdLinks := h, GcdEntries := (GcdEntries s)(q \<mapsto> ?e)\<rparr>)"
        "ring (h(p := None)) (m # A0 @ q # D)"
        "gcd_step (set (m # A0 @ p # q # D)) s
          (FreeEntry p (s\<lparr>GcdLinks := h, GcdEntries := (GcdEntries s)(q \<mapsto> ?e)\<rparr>))"
        using remove_and_free [OF r fit', of q ?e] by auto
      let ?s = "FreeEntry p (s\<lparr>GcdLinks := h, GcdEntries := (GcdEntries s)(q \<mapsto> ?e)\<rparr>)"
      have res: "CoreMergeGcdMapEntry q False m s = Some (EFI_SUCCESS, ?s)"
        using bk crq crp pm True h(1) by (simp add: CoreMergeGcdMapEntry_def snoc)
      have fr: "GcdEntries ?s x = GcdEntries s x" if "x \<noteq> p" "x \<noteq> q" for x
        using that by (simp add: FreeEntry_def)
      have "list_all2 (\<lambda>p e. CR p ?s = Some e) A0 eA0" "list_all2 (\<lambda>p e. CR p ?s = Some e) D eD"
        using dist by (auto simp: snoc intro!: list_all2_CR_frame [OF crA] list_all2_CR_frame [OF c(4)] fr)
      moreover have "CR q ?s = Some ?e" using crq dist by (auto simp: CR_iff FreeEntry_def snoc)
      ultimately have "gcd_map ?s m (A0 @ q # D) (eA0 @ ?e # eD)"
        using h(2) by (simp add: gcd_map_def FreeEntry_def list_all2_append len0 list_all2_appendI)
      moreover have "gcd_step (set (m # A @ q # D)) s ?s" using h(3) by (simp add: snoc)
      moreover have "same_cover (eA @ [e]) (eA0 @ [?e])"
      proof -
        have "space_of d = space_of e" using True crq crp Mergeable_sym by (simp add: space_of_eq_iff CR_iff)
        then have "same_cover [d, e] [?e]" by (intro same_cover_merge) simp_all
        from same_cover_context [OF this, of eA0 "[]"] show ?thesis by (simp add: eA)
      qed
      moreover have "set A0 \<subseteq> set A" "length A0 \<le> length A" by (auto simp: snoc)
      ultimately show ?thesis using res len0 by blast
    qed
  qed
qed

lemma CoreMergeGcdMapEntry_forward:
  assumes g: "gcd_map s m (A @ q # D) (eA @ e # eD)" and len: "length A = length eA"
    and fit: "fits (PcdMaximumLinkedListLength s) (length (m # A @ q # D))"
  shows "\<exists>st s' D' eD' e'. CoreMergeGcdMapEntry q True m s = Some (st, s')
    \<and> gcd_map s' m (A @ q # D') (eA @ e' # eD') \<and> length D' \<le> length D
    \<and> gcd_step (set (m # A @ q # D)) s s' \<and> same_cover (e # eD) (e' # eD')"
proof -
  note c = gcd_map_split [of s m A "[q]" D eA "[e]" eD, simplified, OF g len]
  have crq: "CR q s = Some e" using c(3) by simp
  have fw: "Forward q s = Some (hd (D @ [m]))" using Forward_node [OF c(1)] .
  show ?thesis
  proof (cases D)
    case Nil
    then have "CoreMergeGcdMapEntry q True m s = Some (EFI_SUCCESS, s)"
      using fw by (simp add: CoreMergeGcdMapEntry_def)
    then show ?thesis using g by (metis gcd_step_refl same_cover_refl order_refl)
  next
    case (Cons p D0)
    then obtain d eD0 where eD: "eD = d # eD0" and crp: "CR p s = Some d"
      and crD: "list_all2 (\<lambda>p e. CR p s = Some e) D0 eD0"
      using c(4) by (auto simp: list_all2_Cons1)
    have dist: "distinct (m # A @ q # D)" using ring_distinct [OF c(1)] .
    have pm: "p \<noteq> m" using dist Cons by auto
    show ?thesis
    proof (cases "Mergeable e d")
      case False
      then have "CoreMergeGcdMapEntry q True m s = Some (EFI_UNSUPPORTED, s)"
        using fw crq crp pm by (simp add: CoreMergeGcdMapEntry_def Cons)
      then show ?thesis using g by (metis gcd_step_refl same_cover_refl order_refl)
    next
      case True
      let ?e = "e\<lparr>EndAddress := EndAddress d\<rparr>"
      have r: "ring (GcdLinks s) (m # (A @ [q]) @ p # D0)"
        and fit': "fits (PcdMaximumLinkedListLength s) (length (m # (A @ [q]) @ p # D0))"
        using c(1) fit by (simp_all add: Cons)
      obtain h where h: "GcdRemove p (StoreEntry q ?e s) = Some (s\<lparr>GcdLinks := h, GcdEntries := (GcdEntries s)(q \<mapsto> ?e)\<rparr>)"
        "ring (h(p := None)) (m # (A @ [q]) @ D0)"
        "gcd_step (set (m # (A @ [q]) @ p # D0)) s
          (FreeEntry p (s\<lparr>GcdLinks := h, GcdEntries := (GcdEntries s)(q \<mapsto> ?e)\<rparr>))"
        using remove_and_free [OF r fit', of q ?e] by auto
      let ?s = "FreeEntry p (s\<lparr>GcdLinks := h, GcdEntries := (GcdEntries s)(q \<mapsto> ?e)\<rparr>)"
      have res: "CoreMergeGcdMapEntry q True m s = Some (EFI_SUCCESS, ?s)"
        using fw crq crp pm True h(1) by (simp add: CoreMergeGcdMapEntry_def Cons)
      have fr: "GcdEntries ?s x = GcdEntries s x" if "x \<noteq> p" "x \<noteq> q" for x
        using that by (simp add: FreeEntry_def)
      have "list_all2 (\<lambda>p e. CR p ?s = Some e) A eA" "list_all2 (\<lambda>p e. CR p ?s = Some e) D0 eD0"
        using dist by (auto simp: Cons intro!: list_all2_CR_frame [OF c(2)] list_all2_CR_frame [OF crD] fr)
      moreover have "CR q ?s = Some ?e" using crq dist by (auto simp: CR_iff FreeEntry_def Cons)
      ultimately have "gcd_map ?s m (A @ q # D0) (eA @ ?e # eD0)"
        using h(2) by (simp add: gcd_map_def FreeEntry_def list_all2_append len list_all2_appendI)
      moreover have "gcd_step (set (m # A @ q # D)) s ?s" using h(3) by (simp add: Cons)
      moreover have "same_cover (e # eD) (?e # eD0)"
      proof -
        have "space_of e = space_of d" using True crq crp by (simp add: space_of_eq_iff CR_iff)
        then have "same_cover [e, d] [?e]" by (intro same_cover_merge) simp_all
        from same_cover_context [OF this, of "[]" eD0] show ?thesis by (simp add: eD)
      qed
      moreover have "length D0 \<le> length D" by (simp add: Cons)
      ultimately show ?thesis using res by blast
    qed
  qed
qed

end
