(* ===== verification/Gcd_Cleanup.thy ===== *)
theory Gcd_Cleanup
  imports Gcd_Workers
begin

text \<open>
  The end of a change to a map of the Global Coherency Domain: the work entries that were not needed go
  back to the pool and neighbours that say the same are merged; and the beginning: two work entries
  are taken from the pool. Together with \<open>Gcd_Workers\<close> this gives \<open>change_stretch\<close>: what a whole change of
  a range does to a well-formed map.
\<close>

section \<open>The clean-up loop\<close>

lemma CleanupLoop_stretch:
  assumes "gcd_map s m (A @ S @ D) (eA @ eS @ eD)" and "length A = length eA" and "length S = length eS"
    and "A @ S \<noteq> []" and "fits (PcdMaximumLinkedListLength s) (length (m # A @ S @ D))"
  shows "\<exists>s' A' eA'. CleanupLoop (hd (S @ D @ [m])) (last (A @ S)) m s = Some s'
    \<and> gcd_map s' m (A' @ D) (eA' @ eD) \<and> length A' = length eA' \<and> A' \<noteq> [] \<and> last A' = last (A @ S)
    \<and> set A' \<subseteq> set (A @ S) \<and> length A' \<le> length (A @ S)
    \<and> gcd_step (set (m # A @ S @ D)) s s' \<and> same_cover (eA @ eS) eA'"
  using assms
proof (induction S arbitrary: A eA eS s)
  case Nil
  have "Forward (last A) s = Some (hd (D @ [m]))"
    using Nil.prems(1,4) Forward_last [of s m "[]" A D] by (simp add: gcd_map_def)
  then have "CleanupLoop (hd (D @ [m])) (last A) m s = Some s" by (simp add: CleanupLoop.simps)
  then show ?case using Nil.prems by (intro exI [of _ s] exI [of _ A] exI [of _ eA]) simp
next
  case (Cons q S)
  then obtain e es where eS: "eS = e # es" by (cases eS) auto
  let ?el = "last (A @ q # S)"
  have r: "ring (GcdLinks s) (m # A @ q # S @ D)" using Cons.prems(1) by (simp add: gcd_map_def)
  have stop: "Forward ?el s = Some (hd (D @ [m]))"
    using r Forward_last [of s m "[]" "A @ q # S" D] by simp
  have qs: "q \<noteq> hd (D @ [m])" using ring_distinct [OF r] by (cases D) auto
  have g: "gcd_map s m (A @ q # (S @ D)) (eA @ e # (es @ eD))" using Cons.prems(1) eS by simp
  have fit: "fits (PcdMaximumLinkedListLength s) (length (m # A @ q # (S @ D)))" using Cons.prems(5) by simp
  obtain st s1 A1 eA1 e1 where one: "CoreMergeGcdMapEntry q False m s = Some (st, s1)"
    "gcd_map s1 m (A1 @ q # (S @ D)) (eA1 @ e1 # (es @ eD))" "length A1 = length eA1" "set A1 \<subseteq> set A"
    "length A1 \<le> length A"
    "gcd_step (set (m # A @ q # (S @ D))) s s1" "same_cover (eA @ [e]) (eA1 @ [e1])"
    using CoreMergeGcdMapEntry_backward [OF g Cons.prems(2) fit] by blast
  have fw: "Forward q s1 = Some (hd (S @ D @ [m]))"
    using one(2) Forward_node [of s1 m A1 q "S @ D"] by (simp add: gcd_map_def)
  have el: "last ((A1 @ [q]) @ S) = ?el" by simp
  have "\<exists>s' A' eA'. CleanupLoop (hd (S @ D @ [m])) (last ((A1 @ [q]) @ S)) m s1 = Some s'
    \<and> gcd_map s' m (A' @ D) (eA' @ eD) \<and> length A' = length eA' \<and> A' \<noteq> [] \<and> last A' = last ((A1 @ [q]) @ S)
    \<and> set A' \<subseteq> set ((A1 @ [q]) @ S) \<and> length A' \<le> length ((A1 @ [q]) @ S)
    \<and> gcd_step (set (m # (A1 @ [q]) @ S @ D)) s1 s' \<and> same_cover ((eA1 @ [e1]) @ es) eA'"
  proof (rule Cons.IH)
    show "gcd_map s1 m ((A1 @ [q]) @ S @ D) ((eA1 @ [e1]) @ es @ eD)" using one(2) by simp
    show "length (A1 @ [q]) = length (eA1 @ [e1])" using one(3) by simp
    show "length S = length es" using Cons.prems(3) eS by simp
    show "(A1 @ [q]) @ S \<noteq> []" by simp
    show "fits (PcdMaximumLinkedListLength s1) (length (m # (A1 @ [q]) @ S @ D))"
      using fit one(5) gcd_step_simps(1) [OF one(6)] by (auto simp: fits_def)
  qed
  then obtain s' A' eA' where two: "CleanupLoop (hd (S @ D @ [m])) ?el m s1 = Some s'"
    "gcd_map s' m (A' @ D) (eA' @ eD)" "length A' = length eA'" "A' \<noteq> []" "last A' = ?el"
    "set A' \<subseteq> set ((A1 @ [q]) @ S)" "length A' \<le> length ((A1 @ [q]) @ S)"
    "gcd_step (set (m # (A1 @ [q]) @ S @ D)) s1 s'" "same_cover ((eA1 @ [e1]) @ es) eA'"
    unfolding el by blast
  have "CleanupLoop (hd ((q # S) @ D @ [m])) ?el m s = Some s'"
    using stop qs one(1) fw two(1) by (subst CleanupLoop.simps) simp
  moreover have "set A' \<subseteq> set (A @ q # S)" using two(6) one(4) by auto
  moreover have "length A' \<le> length (A @ q # S)" using two(7) one(5) by simp
  moreover have "gcd_step (set (m # A @ (q # S) @ D)) s s'"
    by (rule gcd_step_trans [OF one(6) two(8)]) (use one(4) in auto)
  moreover have "same_cover (eA @ eS) eA'"
    using same_cover_trans [OF same_cover_context [OF one(7), of "[]" es]] two(9) by (simp add: eS)
  ultimately show ?case using two(2-5) by blast
qed

section \<open>Cutting a stretch to a range\<close>

lemma tiles_after: "tiles lo hi es \<Longrightarrow> e \<in> set es \<Longrightarrow> lo \<le> unat (BaseAddress e) \<and> unat (EndAddress e) < hi"
proof (induction es arbitrary: lo)
  case (Cons d es)
  have "Suc (unat (EndAddress d)) \<le> hi" using Cons.prems(1) tiles_le [of _ hi es] by simp
  moreover have "lo \<le> Suc (unat (EndAddress d))" using Cons.prems(1) by (auto simp: word_le_nat_alt)
  ultimately show ?case using Cons by (auto dest: Cons.IH)
qed simp

lemma tiles_tl_above:
  assumes "tiles lo hi (e # es)" and "holds B e" and "d \<in> set es"
  shows "\<not> BaseAddress d < B"
proof -
  have "Suc (unat (EndAddress e)) \<le> unat (BaseAddress d)" using tiles_after [of _ hi es d] assms(1,3) by simp
  then show ?thesis using assms(2) by (simp add: holds_def word_le_nat_alt word_less_nat_alt)
qed

lemma tiles_butlast_below:
  assumes "tiles lo hi (es @ [e])" and "holds x e" and "d \<in> set es"
  shows "\<not> x < EndAddress d"
proof -
  obtain mid where "tiles lo mid es" "tiles mid hi [e]" using assms(1) tiles_append by blast
  then have "unat (EndAddress d) < unat (BaseAddress e)" using tiles_after [of lo mid es d] assms(3) by simp
  then show ?thesis using assms(2) by (simp add: holds_def word_le_nat_alt word_less_nat_alt)
qed

lemma clip_bottom_tiles:
  assumes t: "tiles lo hi (e # es)" and h: "holds B e"
  shows "tiles lo (unat B) (bots B (e # es))" and "tiles (unat B) hi (clip_bottom B (e # es))"
    and "same_cover (e # es) (bots B (e # es) @ clip_bottom B (e # es))"
proof -
  have e: "tiles lo (Suc (unat (EndAddress e))) [e]" using t by simp
  have "BaseAddress e < B \<or> BaseAddress e = B" using h by (auto simp: holds_def)
  then have "tiles lo (unat B) (bots B (e # es)) \<and> tiles (unat B) hi (clip_bottom B (e # es))
      \<and> same_cover (e # es) (bots B (e # es) @ clip_bottom B (e # es))"
  proof
    assume lt: "BaseAddress e < B"
    have sp: "tiles lo (Suc (unat (EndAddress e))) [e\<lparr>EndAddress := B - 1\<rparr>, e\<lparr>BaseAddress := B\<rparr>]"
      using tiles_split [OF e h lt] .
    have "same_cover [e] [e\<lparr>EndAddress := B - 1\<rparr>, e\<lparr>BaseAddress := B\<rparr>]"
      unfolding same_cover_def using tiles_split [OF _ h lt] space_at_split [OF _ h lt] by blast
    from same_cover_context [OF this, of "[]" es]
    have "same_cover (e # es) (bots B (e # es) @ clip_bottom B (e # es))"
      using lt by (simp add: bots_def cut_bottom_def)
    moreover have "tiles lo (unat B) (bots B (e # es))" "tiles (unat B) hi (clip_bottom B (e # es))"
      using sp t lt by (simp_all add: bots_def cut_bottom_def)
    ultimately show ?thesis by simp
  next
    assume "BaseAddress e = B"
    then show ?thesis using t by (simp add: bots_def cut_bottom_def)
  qed
  then show "tiles lo (unat B) (bots B (e # es))" "tiles (unat B) hi (clip_bottom B (e # es))"
    "same_cover (e # es) (bots B (e # es) @ clip_bottom B (e # es))" by simp_all
qed

lemma clip_top_tiles:
  assumes "tiles lo hi es" and "es \<noteq> []" and "holds (B + L - 1) (last es)"
  shows "tiles lo (Suc (unat (B + L - 1))) (clip_top (B + L - 1) es)
    \<and> tiles (Suc (unat (B + L - 1))) hi (tops B L es)
    \<and> same_cover es (clip_top (B + L - 1) es @ tops B L es)"
  using assms
proof (induction es arbitrary: lo)
  case (Cons e es)
  let ?x = "B + L - 1"
  show ?case
  proof (cases "es = []")
    case False
    have t: "tiles (Suc (unat (EndAddress e))) hi es" using Cons.prems(1) by simp
    have IH: "tiles (Suc (unat (EndAddress e))) (Suc (unat ?x)) (clip_top ?x es)"
      "tiles (Suc (unat ?x)) hi (tops B L es)" "same_cover es (clip_top ?x es @ tops B L es)"
      using Cons.IH [OF t False] Cons.prems(3) False by simp_all
    have "tops B L (e # es) = tops B L es" using False by (simp add: tops_def cut_top_def)
    moreover have "same_cover (e # es) (e # clip_top ?x es @ tops B L es)"
      using same_cover_context [OF IH(3), of "[e]" "[]"] by simp
    ultimately show ?thesis using IH(1,2) Cons.prems(1) False by (simp add: clip_top_Cons)
  next
    case True
    have h: "holds ?x e" using Cons.prems(3) True by simp
    show ?thesis
    proof (cases "?x < EndAddress e")
      case False
      then have "EndAddress e = ?x" using h by (auto simp: holds_def)
      then show ?thesis using Cons.prems(1) True by (simp add: tops_def cut_top_def)
    next
      case lt: True
      then have sx: "unat (?x + 1) = Suc (unat ?x)" by (rule unat_plus_one)
      have hx: "holds (?x + 1) e" "BaseAddress e < ?x + 1"
        using h lt sx by (simp_all add: holds_def word_le_nat_alt word_less_nat_alt)
      have t: "tiles lo hi [e]" using Cons.prems(1) True by simp
      have "same_cover [e] [e\<lparr>EndAddress := ?x + 1 - 1\<rparr>, e\<lparr>BaseAddress := ?x + 1\<rparr>]"
        unfolding same_cover_def using tiles_split [OF _ hx] space_at_split [OF _ hx] by blast
      moreover have "tiles lo hi [e\<lparr>EndAddress := ?x + 1 - 1\<rparr>, e\<lparr>BaseAddress := ?x + 1\<rparr>]"
        using tiles_split [OF t hx] .
      moreover have "?x + 1 - 1 = ?x" "?x + 1 = B + L" by simp_all
      moreover have "clip_top ?x (e # es) = [e\<lparr>EndAddress := ?x\<rparr>]"
        "tops B L (e # es) = [e\<lparr>BaseAddress := B + L\<rparr>]"
        using lt True by (simp_all add: tops_def cut_top_def)
      ultimately show ?thesis using True by simp
    qed
  qed
qed simp

section \<open>Giving work entries back\<close>

lemma gcd_step_same_pool:
  assumes "s' = s\<lparr>GcdLinks := h, GcdEntries := E\<rparr>" and "gcd_frame X s s'"
    and "\<And>p. p \<in> X \<Longrightarrow> GcdLinks s p \<noteq> None"
  shows "gcd_step X s s'"
proof -
  have "s' = s\<lparr>GcdLinks := h, GcdEntries := E, Pool := Pool s\<rparr>" using assms(1) by simp
  moreover have "gcd_pool_ok s'" if ok: "gcd_pool_ok s"
  proof -
    have P: "Pool s' = Pool s" using assms(1) by simp
    have "GcdLinks s' p = None \<and> GcdEntries s' p = None" if "p \<in> set (Pool s)" for p
    proof -
      have n: "GcdLinks s p = None \<and> GcdEntries s p = None" using ok that unfolding gcd_pool_ok_def by blast
      then have "p \<notin> X" using assms(3) by blast
      then show ?thesis using n assms(2) unfolding gcd_frame_def by simp
    qed
    then show ?thesis using ok P unfolding gcd_pool_ok_def by simp
  qed
  ultimately show ?thesis using assms(2) unfolding gcd_step_def by blast
qed

lemma FreeEntry_spare:
  assumes "gcd_map s m ps es" and "spare s T" and "T \<notin> set (m # ps)"
  shows "gcd_map (FreeEntry T s) m ps es" and "gcd_step {T} s (FreeEntry T s)"
    and "p \<noteq> T \<Longrightarrow> spare (FreeEntry T s) p = spare s p"
proof -
  have r: "ring (GcdLinks s) (m # ps)" and c: "list_all2 (\<lambda>p e. CR p s = Some e) ps es"
    using assms(1) by (simp_all add: gcd_map_def)
  have "ring (GcdLinks (FreeEntry T s)) (m # ps)"
    by (rule ring_cong [OF r]) (use assms(3) in \<open>auto simp: FreeEntry_def\<close>)
  moreover have "list_all2 (\<lambda>p e. CR p (FreeEntry T s) = Some e) ps es"
    by (rule list_all2_CR_frame [OF c]) (use assms(3) in \<open>auto simp: FreeEntry_def\<close>)
  ultimately show "gcd_map (FreeEntry T s) m ps es" by (simp add: gcd_map_def)
  have "gcd_frame {T} s (FreeEntry T s)" by (simp add: gcd_frame_def FreeEntry_def)
  moreover have "gcd_pool_ok (FreeEntry T s)" if ok: "gcd_pool_ok s"
  proof -
    have "T \<notin> set (Pool s)" "T \<noteq> NULL" using ok assms(2) unfolding gcd_pool_ok_def spare_def by auto
    then show ?thesis using ok by (auto simp: gcd_pool_ok_def FreeEntry_def)
  qed
  ultimately show "gcd_step {T} s (FreeEntry T s)" unfolding gcd_step_def FreeEntry_def by blast
  show "p \<noteq> T \<Longrightarrow> spare (FreeEntry T s) p = spare s p" by (simp add: spare_def FreeEntry_def)
qed

text \<open>A work entry is either in the list by now, or spare; giving it back keeps the map.\<close>

lemma FreeIfSpare:
  assumes g: "gcd_map s m ps es" and T: "T \<in> set ps \<or> (spare s T \<and> T \<notin> set (m # ps))"
  shows "\<exists>e. GcdEntries s T = Some e \<and> gcd_map (if Signature e = 0 then FreeEntry T s else s) m ps es
    \<and> gcd_step {T} s (if Signature e = 0 then FreeEntry T s else s)
    \<and> (\<forall>p. p \<noteq> T \<longrightarrow> spare (if Signature e = 0 then FreeEntry T s else s) p = spare s p)"
  using T
proof
  assume "T \<in> set ps"
  then obtain e where "CR T s = Some e"
    using g by (auto simp: gcd_map_def list_all2_conv_all_nth in_set_conv_nth)
  then have "GcdEntries s T = Some e" "Signature e \<noteq> 0" by (auto simp: CR_iff)
  then show ?thesis using g by simp
next
  assume "spare s T \<and> T \<notin> set (m # ps)"
  then have sp: "spare s T" "T \<notin> set (m # ps)" by blast+
  then obtain e where "GcdEntries s T = Some e" "Signature e = 0" unfolding spare_def by blast
  then show ?thesis using FreeEntry_spare [OF g sp] by simp
qed

lemma CoreCleanupGcdMapEntry_stretch:
  assumes g: "gcd_map s m (A @ S @ D) (eA @ eS @ eD)" and len: "length A = length eA" "length S = length eS"
    and ne: "S \<noteq> []" and fit: "fits (PcdMaximumLinkedListLength s) (length (m # A @ S @ D))"
    and T: "T \<in> set (A @ S @ D) \<or> (spare s T \<and> T \<notin> set (m # A @ S @ D))"
    and Bo: "Bo \<in> set (A @ S @ D) \<or> (spare s Bo \<and> Bo \<notin> set (m # A @ S @ D))" and TB: "T \<noteq> Bo"
  shows "\<exists>s' ps' es'. CoreCleanupGcdMapEntry T Bo (hd S) (last S) m s = Some (EFI_SUCCESS, s')
    \<and> gcd_map s' m ps' es' \<and> length ps' \<le> length (A @ S @ D)
    \<and> gcd_step (set (T # Bo # m # A @ S @ D)) s s' \<and> same_cover (eA @ eS @ eD) es'"
proof -
  let ?X = "set (T # Bo # m # A @ S @ D)"
  obtain t s1 where s1: "GcdEntries s T = Some t" "s1 = (if Signature t = 0 then FreeEntry T s else s)"
    "gcd_map s1 m (A @ S @ D) (eA @ eS @ eD)" "gcd_step {T} s s1" "\<forall>p. p \<noteq> T \<longrightarrow> spare s1 p = spare s p"
    using FreeIfSpare [OF g T] by auto
  have Bo1: "Bo \<in> set (A @ S @ D) \<or> (spare s1 Bo \<and> Bo \<notin> set (m # A @ S @ D))"
    using Bo s1(5) TB by metis
  obtain b s2 where s2: "GcdEntries s1 Bo = Some b" "s2 = (if Signature b = 0 then FreeEntry Bo s1 else s1)"
    "gcd_map s2 m (A @ S @ D) (eA @ eS @ eD)" "gcd_step {Bo} s1 s2"
    using FreeIfSpare [OF s1(3) Bo1] by auto
  have fit2: "fits (PcdMaximumLinkedListLength s2) (length (m # A @ S @ D))"
    using fit gcd_step_simps(1) [OF s1(4)] gcd_step_simps(1) [OF s2(4)] by simp
  have ne2: "A @ S \<noteq> []" using ne by simp
  obtain s3 A' eA' where s3: "CleanupLoop (hd (S @ D @ [m])) (last (A @ S)) m s2 = Some s3"
    "gcd_map s3 m (A' @ D) (eA' @ eD)" "length A' = length eA'" "A' \<noteq> []" "last A' = last (A @ S)"
    "set A' \<subseteq> set (A @ S)" "length A' \<le> length (A @ S)"
    "gcd_step (set (m # A @ S @ D)) s2 s3" "same_cover (eA @ eS) eA'"
    using CleanupLoop_stretch [OF s2(3) len ne2 fit2] by blast
  obtain A0 q where A': "A' = A0 @ [q]" using s3(4) by (metis rev_exhaust)
  obtain eA0 e where eA': "eA' = eA0 @ [e]" using s3(3) A' by (cases eA' rule: rev_cases) auto
  have q: "q = last S" using s3(5) A' ne by simp
  have g3: "gcd_map s3 m (A0 @ q # D) (eA0 @ e # eD)" "length A0 = length eA0"
    using s3(2,3) A' eA' by simp_all
  have fit3: "fits (PcdMaximumLinkedListLength s3) (length (m # A0 @ q # D))"
    using fit2 gcd_step_simps(1) [OF s3(8)] s3(7) A' by (auto simp: fits_def)
  obtain st s4 D' eD' e' where s4: "CoreMergeGcdMapEntry q True m s3 = Some (st, s4)"
    "gcd_map s4 m (A0 @ q # D') (eA0 @ e' # eD')" "length D' \<le> length D"
    "gcd_step (set (m # A0 @ q # D)) s3 s4" "same_cover (e # eD) (e' # eD')"
    using CoreMergeGcdMapEntry_forward [OF g3 fit3] by blast
  have "CoreCleanupGcdMapEntry T Bo (hd S) (last S) m s = Some (EFI_SUCCESS, s4)"
    using s1(1) s1(2) [symmetric] s2(1) s2(2) [symmetric] s3(1) s4(1) ne q
    by (simp add: CoreCleanupGcdMapEntry_def)
  moreover have "length (A0 @ q # D') \<le> length (A @ S @ D)" using s4(3) s3(7) A' by simp
  moreover have "gcd_step ?X s s4"
  proof -
    have "gcd_step ?X s s2" by (rule gcd_step_trans [OF s1(4) s2(4)]) auto
    moreover have "gcd_step ?X s2 s4"
      by (rule gcd_step_trans [OF s3(8) s4(4)]) (use s3(6) A' in auto)
    ultimately show ?thesis by (rule gcd_step_trans) simp_all
  qed
  moreover have "same_cover (eA @ eS @ eD) (eA0 @ e' # eD')"
  proof -
    have "same_cover (eA @ eS @ eD) (eA0 @ e # eD)"
      using same_cover_context [OF s3(9), of "[]" eD] eA' by simp
    moreover have "same_cover (eA0 @ e # eD) (eA0 @ e' # eD')"
      using same_cover_context [OF s4(5), of eA0 "[]"] by simp
    ultimately show ?thesis by (rule same_cover_trans)
  qed
  ultimately show ?thesis using s4(2) by blast
qed

section \<open>Taking work entries\<close>

lemma CoreAllocateGcdMapEntry_cases:
  assumes ok: "gcd_pool_ok s" and r: "ring (GcdLinks s) (m # ps)"
  shows "(length (Pool s) < 2 \<and> (\<exists>T Bo. CoreAllocateGcdMapEntry s = (EFI_OUT_OF_RESOURCES, T, Bo, s))) \<or>
    (\<exists>T Bo s'. 2 \<le> length (Pool s) \<and> CoreAllocateGcdMapEntry s = (EFI_SUCCESS, T, Bo, s')
       \<and> T = Pool s ! 0 \<and> Bo = Pool s ! 1 \<and> spare s' T \<and> spare s' Bo \<and> T \<noteq> Bo
       \<and> T \<notin> set (m # ps) \<and> Bo \<notin> set (m # ps) \<and> gcd_step {T, Bo} s s')"
proof (cases "Pool s")
  case Nil
  then show ?thesis by (simp add: CoreAllocateGcdMapEntry_def AllocateZeroEntry_def TakePool_def)
next
  case (Cons T P)
  have T: "T \<noteq> NULL" "GcdLinks s T = None" "GcdEntries s T = None"
    using ok Cons by (auto simp: gcd_pool_ok_def)
  show ?thesis
  proof (cases P)
    case Nil
    have "s\<lparr>GcdLinks := (GcdLinks s)(T := None), GcdEntries := (GcdEntries s)(T := None), Pool := [T]\<rparr> = s"
      using T(2,3) Cons Nil by (simp add: fun_upd_idem)
    then show ?thesis
      using T Cons Nil
      by (simp add: CoreAllocateGcdMapEntry_def AllocateZeroEntry_def TakePool_def FreeEntry_def)
  next
    case P: (Cons Bo P')
    have B: "Bo \<noteq> NULL" "GcdLinks s Bo = None" "GcdEntries s Bo = None" and TB: "T \<noteq> Bo"
      using ok Cons P by (auto simp: gcd_pool_ok_def)
    have out: "T \<notin> set (m # ps)" "Bo \<notin> set (m # ps)"
      using ring_mapped [OF r] T(2) B(2) by blast+
    let ?z = "\<lparr>ForwardLink = NULL, BackLink = NULL\<rparr>"
    let ?s = "s\<lparr>Pool := P', GcdLinks := (GcdLinks s)(T \<mapsto> ?z, Bo \<mapsto> ?z),
        GcdEntries := (GcdEntries s)(T \<mapsto> ZeroGcdMapEntry, Bo \<mapsto> ZeroGcdMapEntry)\<rparr>"
    have "CoreAllocateGcdMapEntry s = (EFI_SUCCESS, T, Bo, ?s)"
      using T B Cons P by (simp add: CoreAllocateGcdMapEntry_def AllocateZeroEntry_def TakePool_def)
    moreover have "spare ?s T" "spare ?s Bo" using T B by (auto simp: spare_def ZeroGcdMapEntry_def)
    moreover have "gcd_step {T, Bo} s ?s"
    proof -
      have "?s = s\<lparr>GcdLinks := (GcdLinks s)(T \<mapsto> ?z, Bo \<mapsto> ?z),
        GcdEntries := (GcdEntries s)(T \<mapsto> ZeroGcdMapEntry, Bo \<mapsto> ZeroGcdMapEntry), Pool := P'\<rparr>" by simp
      moreover have "gcd_frame {T, Bo} s ?s" by (simp add: gcd_frame_def)
      moreover have "gcd_pool_ok ?s" using ok Cons P by (auto simp: gcd_pool_ok_def)
      ultimately show ?thesis unfolding gcd_step_def by blast
    qed
    ultimately show ?thesis using TB out Cons P by auto
  qed
qed

lemma gcd_map_step:
  assumes "gcd_map s m ps es" and "gcd_step X s s'" and "X \<inter> set (m # ps) = {}"
  shows "gcd_map s' m ps es"
proof -
  have same: "GcdLinks s' p = GcdLinks s p \<and> GcdEntries s' p = GcdEntries s p" if "p \<in> set (m # ps)" for p
    using assms(2,3) that unfolding gcd_step_def gcd_frame_def by blast
  have "ring (GcdLinks s') (m # ps)"
    by (rule ring_cong [of "GcdLinks s"]) (use assms(1) same in \<open>simp_all add: gcd_map_def\<close>)
  moreover have "list_all2 (\<lambda>p e. CR p s' = Some e) ps es"
    by (rule list_all2_CR_frame [of s]) (use assms(1) same in \<open>simp_all add: gcd_map_def\<close>)
  ultimately show ?thesis by (simp add: gcd_map_def)
qed

section \<open>Changing a range\<close>

lemma replace_middle:
  assumes "tiles lo b X" and "tiles b c M" and "tiles b c M'" and "tiles c hi Z"
  shows "tiles lo hi (X @ M' @ Z)"
    and "space_at (X @ M' @ Z) v = (if b \<le> unat v \<and> unat v < c then space_at M' v else space_at (X @ M @ Z) v)"
proof -
  show "tiles lo hi (X @ M' @ Z)" using assms by (auto simp: tiles_append)
  have MZ: "tiles b hi (M @ Z)" "tiles b hi (M' @ Z)" using assms by (auto simp: tiles_append)
  have "b \<le> c" using tiles_le [OF assms(2)] .
  then show "space_at (X @ M' @ Z) v = (if b \<le> unat v \<and> unat v < c then space_at M' v else space_at (X @ M @ Z) v)"
    by (simp add: tiles_space_append [OF assms(1) MZ(1)] tiles_space_append [OF assms(1) MZ(2)]
        tiles_space_append [OF assms(2,4)] tiles_space_append [OF assms(3,4)])
qed

text \<open>What the entries of the range say after the updates \<open>U\<close>.\<close>

definition changed :: "(UINT64 \<Rightarrow> EFI_GCD_MAP_ENTRY \<Rightarrow> UINT64 \<times> EFI_GCD_MAP_ENTRY) \<Rightarrow> UINT64 \<Rightarrow> UINT64 \<Rightarrow> UINT64
    \<Rightarrow> EFI_GCD_MAP_ENTRY list \<Rightarrow> EFI_GCD_MAP_ENTRY list" where
  "changed U a B L eS = thread U a (clip_top (B + L - 1) (clip_bottom B eS))"

lemma tiles_thread:
  assumes "\<And>a e. BaseAddress (snd (U a e)) = BaseAddress e" and "\<And>a e. EndAddress (snd (U a e)) = EndAddress e"
  shows "tiles lo hi (thread U a es) = tiles lo hi es"
  by (induction es arbitrary: lo a) (simp_all add: assms)

lemma cut_tiles:
  assumes t: "tiles lo hi (eA @ eS @ eD)" and ne: "eS \<noteq> []" and B: "holds B (hd eS)"
    and x: "holds (B + L - 1) (last eS)" and Bx: "B \<le> B + L - 1"
    and U: "\<And>a e. BaseAddress (snd (U a e)) = BaseAddress e" "\<And>a e. EndAddress (snd (U a e)) = EndAddress e"
  shows "tiles lo hi (eA @ bots B eS @ changed U a B L eS @ tops B L eS @ eD)"
    and "space_at (eA @ bots B eS @ changed U a B L eS @ tops B L eS @ eD) v =
      (if B \<le> v \<and> v \<le> B + L - 1 then space_at (changed U a B L eS) v else space_at (eA @ eS @ eD) v)"
    and "B \<le> v \<Longrightarrow> v \<le> B + L - 1 \<Longrightarrow>
      space_at (clip_top (B + L - 1) (clip_bottom B eS)) v = space_at (eA @ eS @ eD) v"
proof -
  let ?x = "B + L - 1"
  obtain m1 m2 where m: "tiles lo m1 eA" "tiles m1 m2 eS" "tiles m2 hi eD" using t by (auto simp: tiles_append)
  obtain e es where eS: "eS = e # es" using ne by (cases eS) auto
  note b = clip_bottom_tiles [OF m(2) [unfolded eS] B [unfolded eS list.sel], folded eS]
  have ne': "clip_bottom B eS \<noteq> []" using eS by simp
  have x': "holds ?x (last (clip_bottom B eS))" using x Bx eS by (auto simp: holds_def)
  note c = clip_top_tiles [OF b(2) ne' x', simplified]
  let ?M = "clip_top ?x (clip_bottom B eS)"
  have M': "tiles (unat B) (Suc (unat ?x)) (changed U a B L eS)"
    unfolding changed_def using c tiles_thread [of U, OF U] by simp
  have cov: "same_cover eS (bots B eS @ ?M @ tops B L eS)"
    using same_cover_trans [OF b(3)] same_cover_context [of "clip_bottom B eS" "?M @ tops B L eS" "bots B eS" "[]"] c
    by simp
  have XB: "tiles lo (unat B) (eA @ bots B eS)" using m(1) b(1) by (auto simp: tiles_append)
  have ZT: "tiles (Suc (unat ?x)) hi (tops B L eS @ eD)" using c m(3) by (auto simp: tiles_append)
  note rep = replace_middle [OF XB _ M' ZT, of ?M]
  have M: "tiles (unat B) (Suc (unat ?x)) ?M" using c by simp
  show "tiles lo hi (eA @ bots B eS @ changed U a B L eS @ tops B L eS @ eD)" using rep(1) M by simp
  have old: "space_at ((eA @ bots B eS) @ ?M @ tops B L eS @ eD) v = space_at (eA @ eS @ eD) v"
    using same_cover_context [OF cov, of eA eD] t unfolding same_cover_def by simp
  have range: "(unat B \<le> unat v \<and> unat v < Suc (unat ?x)) = (B \<le> v \<and> v \<le> ?x)"
    by (auto simp: word_le_nat_alt)
  show "space_at (eA @ bots B eS @ changed U a B L eS @ tops B L eS @ eD) v =
      (if B \<le> v \<and> v \<le> ?x then space_at (changed U a B L eS) v else space_at (eA @ eS @ eD) v)"
    using rep(2) [OF M, of v] old range by simp
  show "B \<le> v \<Longrightarrow> v \<le> ?x \<Longrightarrow> space_at ?M v = space_at (eA @ eS @ eD) v"
    using replace_middle(2) [OF XB M M ZT, of v] old range by simp
qed

lemma change_stretch:
  assumes g: "gcd_map s m (A @ S @ D) (eA @ eS @ eD)" and len: "length A = length eA" "length S = length eS"
    and ne: "S \<noteq> []" and L: "L \<noteq> 0"
    and fit: "fits (PcdMaximumLinkedListLength s) (length (m # A @ S @ D) + 2)"
    and t: "tiles lo hi (eA @ eS @ eD)" and B: "holds B (hd eS)" and x: "holds (B + L - 1) (last eS)"
    and Bx: "B \<le> B + L - 1"
    and T: "spare s T" "T \<notin> set (m # A @ S @ D)" and Bo: "spare s Bo" "Bo \<notin> set (m # A @ S @ D)"
    and TB: "T \<noteq> Bo" and sig: "\<And>a e. Signature (snd (U a e)) = Signature e"
    and U: "\<And>a e. BaseAddress (snd (U a e)) = BaseAddress e" "\<And>a e. EndAddress (snd (U a e)) = EndAddress e"
  shows "\<exists>s1 s' ps' es'. InsertLoop U B L T Bo a (hd S) (last S) s = Some s1
    \<and> CoreCleanupGcdMapEntry T Bo (hd S) (last S) m s1 = Some (EFI_SUCCESS, s')
    \<and> gcd_map s' m ps' es' \<and> length ps' \<le> length (A @ S @ D) + 2
    \<and> gcd_step (set (T # Bo # m # A @ S @ D)) s s' \<and> tiles lo hi es'
    \<and> (\<forall>v. space_at es' v = (if B \<le> v \<and> v \<le> B + L - 1 then space_at (changed U a B L eS) v
          else space_at (eA @ eS @ eD) v))"
proof -
  obtain e es where eS: "eS = e # es" using len ne by (cases eS) auto
  obtain m1 m2 where m: "tiles m1 m2 eS" using t by (auto simp: tiles_append)
  have lo: "\<not> BaseAddress d < B" if "d \<in> set (tl eS)" for d
    using tiles_tl_above [of m1 m2 e es B d] m B that by (simp add: eS)
  have eS': "eS = butlast eS @ [last eS]" using eS by simp
  have hi: "\<not> B + L - 1 < EndAddress d" if "d \<in> set (butlast eS)" for d
    using tiles_butlast_below [of m1 m2 "butlast eS" "last eS" "B + L - 1" d] m eS' x that by simp
  have fit1: "fits (PcdMaximumLinkedListLength s) (Suc (length (m # A @ S @ D)))"
    using fit by (auto simp: fits_def)
  let ?Bp = "if cut_bottom B eS then [Bo] else []" and ?Tp = "if cut_top B L eS then [T] else []"
  obtain h E where i: "InsertLoop U B L T Bo a (hd S) (last S) s = Some (s\<lparr>GcdLinks := h, GcdEntries := E\<rparr>)"
    "gcd_map (s\<lparr>GcdLinks := h, GcdEntries := E\<rparr>) m (A @ ?Bp @ S @ ?Tp @ D)
        (eA @ bots B eS @ thread U a (clip_top (B + L - 1) (clip_bottom B eS)) @ tops B L eS @ eD)"
    "\<not> cut_top B L eS \<longrightarrow> h T = GcdLinks s T \<and> E T = GcdEntries s T"
    "\<not> cut_bottom B eS \<longrightarrow> h Bo = GcdLinks s Bo \<and> E Bo = GcdEntries s Bo"
    "gcd_frame (set (T # Bo # m # A @ S @ D)) s (s\<lparr>GcdLinks := h, GcdEntries := E\<rparr>)"
    using InsertLoop_stretch [where U = U and a = a, OF g len ne L fit1 lo hi T Bo TB sig] by blast
  let ?s = "s\<lparr>GcdLinks := h, GcdEntries := E\<rparr>"
  let ?M = "changed U a B L eS"
  have r: "ring (GcdLinks s) (m # A @ S @ D)" using g by (simp add: gcd_map_def)
  have "GcdLinks s p \<noteq> None" if "p \<in> set (T # Bo # m # A @ S @ D)" for p
    using that T(1) Bo(1) ring_mapped [OF r, of p] by (auto simp: spare_def)
  then have st: "gcd_step (set (T # Bo # m # A @ S @ D)) s ?s"
    using gcd_step_same_pool [OF refl i(5)] by blast
  have g1: "gcd_map ?s m ((A @ ?Bp) @ S @ (?Tp @ D)) ((eA @ bots B eS) @ ?M @ (tops B L eS @ eD))"
    using i(2) by (simp add: changed_def)
  have len1: "length (A @ ?Bp) = length (eA @ bots B eS)" "length S = length ?M"
    using len by (simp_all add: bots_def changed_def)
  have fit2: "fits (PcdMaximumLinkedListLength ?s) (length (m # (A @ ?Bp) @ S @ (?Tp @ D)))"
    using fit by (auto simp: fits_def)
  have T1: "T \<in> set ((A @ ?Bp) @ S @ ?Tp @ D) \<or> (spare ?s T \<and> T \<notin> set (m # (A @ ?Bp) @ S @ ?Tp @ D))"
    using T i(3) TB by (cases "cut_top B L eS") (simp_all add: spare_def)
  have B1: "Bo \<in> set ((A @ ?Bp) @ S @ ?Tp @ D) \<or> (spare ?s Bo \<and> Bo \<notin> set (m # (A @ ?Bp) @ S @ ?Tp @ D))"
    using Bo i(4) TB by (cases "cut_bottom B eS") (simp_all add: spare_def)
  obtain s' ps' es' where c: "CoreCleanupGcdMapEntry T Bo (hd S) (last S) m ?s = Some (EFI_SUCCESS, s')"
    "gcd_map s' m ps' es'" "length ps' \<le> length ((A @ ?Bp) @ S @ ?Tp @ D)"
    "gcd_step (set (T # Bo # m # (A @ ?Bp) @ S @ ?Tp @ D)) ?s s'"
    "same_cover ((eA @ bots B eS) @ ?M @ tops B L eS @ eD) es'"
    using CoreCleanupGcdMapEntry_stretch [OF g1 len1 ne fit2 T1 B1 TB] by blast
  have neS: "eS \<noteq> []" using eS by simp
  note cut = cut_tiles(1,2) [where U = U and a = a, OF t neS B x Bx U]
  have es': "tiles lo hi es'" "\<And>v. space_at es' v = space_at (eA @ bots B eS @ ?M @ tops B L eS @ eD) v"
    using c(5) cut(1) unfolding same_cover_def by simp_all
  have "\<forall>v. space_at es' v = (if B \<le> v \<and> v \<le> B + L - 1 then space_at ?M v else space_at (eA @ eS @ eD) v)"
    unfolding es'(2) cut(2) by blast
  moreover have "gcd_step (set (T # Bo # m # A @ S @ D)) s s'"
    by (rule gcd_step_trans [OF st c(4)]) auto
  moreover have "length ps' \<le> length (A @ S @ D) + 2" using c(3) by (simp split: if_splits)
  ultimately show ?thesis using i(1) c(1,2) es'(1) by blast
qed

lemma thread_map: "(\<And>e. U a e = (a, f e)) \<Longrightarrow> thread U a es = map f es"
  by (induction es) simp_all

text \<open>When every entry is changed the same way, the range says \<open>F\<close> of what it said.\<close>

lemma changed_uniform:
  assumes t: "tiles lo hi (eA @ eS @ eD)" and ne: "eS \<noteq> []" and B: "holds B (hd eS)"
    and x: "holds (B + L - 1) (last eS)" and Bx: "B \<le> B + L - 1"
    and U: "\<And>e. U a e = (a, f e)"
    and f: "\<And>e. BaseAddress (f e) = BaseAddress e" "\<And>e. EndAddress (f e) = EndAddress e"
      "\<And>e. space_of (f e) = F (space_of e)"
    and v: "B \<le> v" "v \<le> B + L - 1"
  shows "space_at (changed U a B L eS) v = map_option F (space_at (eA @ eS @ eD) v)"
proof -
  have "space_at (clip_top (B + L - 1) (clip_bottom B eS)) v = space_at (eA @ eS @ eD) v"
    using cut_tiles(3) [of lo hi eA eS eD B L "\<lambda>a e. (a, e)" v] t ne B x Bx v by simp
  then show ?thesis
    unfolding changed_def by (simp add: thread_map [of U a f, OF U] space_at_map [of f F, OF f])
qed

end
