(* ===== verification/Gcd_Space.thy ===== *)
theory Gcd_Space
  imports Gcd_Cleanup
begin

text \<open>
  The services of the Global Coherency Domain, \<open>src/MdeModulePkg/Core/Dxe/Gcd/Gcd.c\<close>: \<open>CoreConvertSpace\<close>
  (adding, freeing and removing space, changing attributes and capabilities), \<open>CoreAllocateSpace\<close>, and
  the functions of the DXE services table that call them.

  Arguments that stand for code outside the model: \<open>CoreRestoreTpl\<close>, which lowers the task priority
  level when a lock is released and may run notification functions, and \<open>SetMemoryAttributes\<close>, the
  member of the CPU architectural protocol, of which the code reads the status. The \<open>DEBUG\<close> output and
  the debug dump of the maps are left out.
\<close>

section \<open>Operation codes\<close>

abbreviation GCD_MEMORY_SPACE_OPERATION :: UINT64 where "GCD_MEMORY_SPACE_OPERATION \<equiv> 0x20"
abbreviation GCD_IO_SPACE_OPERATION :: UINT64 where "GCD_IO_SPACE_OPERATION \<equiv> 0x40"
abbreviation GCD_ADD_MEMORY_OPERATION :: UINT64 where "GCD_ADD_MEMORY_OPERATION \<equiv> 0x20"
abbreviation GCD_ALLOCATE_MEMORY_OPERATION :: UINT64 where "GCD_ALLOCATE_MEMORY_OPERATION \<equiv> 0x21"
abbreviation GCD_FREE_MEMORY_OPERATION :: UINT64 where "GCD_FREE_MEMORY_OPERATION \<equiv> 0x22"
abbreviation GCD_REMOVE_MEMORY_OPERATION :: UINT64 where "GCD_REMOVE_MEMORY_OPERATION \<equiv> 0x23"
abbreviation GCD_SET_ATTRIBUTES_MEMORY_OPERATION :: UINT64 where "GCD_SET_ATTRIBUTES_MEMORY_OPERATION \<equiv> 0x24"
abbreviation GCD_SET_CAPABILITIES_MEMORY_OPERATION :: UINT64 where "GCD_SET_CAPABILITIES_MEMORY_OPERATION \<equiv> 0x25"
abbreviation GCD_ADD_IO_OPERATION :: UINT64 where "GCD_ADD_IO_OPERATION \<equiv> 0x40"
abbreviation GCD_ALLOCATE_IO_OPERATION :: UINT64 where "GCD_ALLOCATE_IO_OPERATION \<equiv> 0x41"
abbreviation GCD_FREE_IO_OPERATION :: UINT64 where "GCD_FREE_IO_OPERATION \<equiv> 0x42"
abbreviation GCD_REMOVE_IO_OPERATION :: UINT64 where "GCD_REMOVE_IO_OPERATION \<equiv> 0x43"

type_synonym 's restore = "EFI_TPL \<Rightarrow> 's \<Rightarrow> 's option"

section \<open>Locks\<close>

definition CoreAcquireGcdMemoryLock :: "'a GCD_STATE_scheme \<Rightarrow> 'a GCD_STATE_scheme option" where
  "CoreAcquireGcdMemoryLock s = CoreAcquireLock mGcdMemorySpaceLock s"

definition CoreReleaseGcdMemoryLock ::
  "'a GCD_STATE_scheme restore \<Rightarrow> 'a GCD_STATE_scheme \<Rightarrow> 'a GCD_STATE_scheme option" where
  "CoreReleaseGcdMemoryLock R s = CoreReleaseLock R mGcdMemorySpaceLock s"

definition CoreAcquireGcdIoLock :: "'a GCD_STATE_scheme \<Rightarrow> 'a GCD_STATE_scheme option" where
  "CoreAcquireGcdIoLock s = CoreAcquireLock mGcdIoSpaceLock s"

definition CoreReleaseGcdIoLock ::
  "'a GCD_STATE_scheme restore \<Rightarrow> 'a GCD_STATE_scheme \<Rightarrow> 'a GCD_STATE_scheme option" where
  "CoreReleaseGcdIoLock R s = CoreReleaseLock R mGcdIoSpaceLock s"

text \<open>The choice of the map by the operation code at the beginning, and the release at \<open>Done\<close>.\<close>

definition LockMap :: "UINT64 \<Rightarrow> 'a GCD_STATE_scheme \<Rightarrow> (ptr \<times> 'a GCD_STATE_scheme) option" where
  "LockMap Operation s =
     (if Operation AND GCD_MEMORY_SPACE_OPERATION \<noteq> 0 then do {
        s \<leftarrow> CoreAcquireGcdMemoryLock s;
        Some (mGcdMemorySpaceMap, s)
      }
      else if Operation AND GCD_IO_SPACE_OPERATION \<noteq> 0 then do {
        s \<leftarrow> CoreAcquireGcdIoLock s;
        Some (mGcdIoSpaceMap, s)
      }
      else None)"

definition UnlockMap ::
  "'a GCD_STATE_scheme restore \<Rightarrow> UINT64 \<Rightarrow> 'a GCD_STATE_scheme \<Rightarrow> 'a GCD_STATE_scheme option" where
  "UnlockMap R Operation s = do {
     s \<leftarrow> (if Operation AND GCD_MEMORY_SPACE_OPERATION \<noteq> 0 then CoreReleaseGcdMemoryLock R s else Some s);
     if Operation AND GCD_IO_SPACE_OPERATION \<noteq> 0 then CoreReleaseGcdIoLock R s else Some s
   }"

section \<open>CoreConvertSpace\<close>

definition ConverToCpuArchAttributes :: "UINT64 \<Rightarrow> UINT64" where
  "ConverToCpuArchAttributes Attr =
     (let CpuArchAttributes = Attr AND EFI_MEMORY_ATTRIBUTE_MASK in
      if Attr AND EFI_MEMORY_UC = EFI_MEMORY_UC then CpuArchAttributes OR EFI_MEMORY_UC
      else if Attr AND EFI_MEMORY_WC = EFI_MEMORY_WC then CpuArchAttributes OR EFI_MEMORY_WC
      else if Attr AND EFI_MEMORY_WT = EFI_MEMORY_WT then CpuArchAttributes OR EFI_MEMORY_WT
      else if Attr AND EFI_MEMORY_WB = EFI_MEMORY_WB then CpuArchAttributes OR EFI_MEMORY_WB
      else if Attr AND EFI_MEMORY_UCE = EFI_MEMORY_UCE then CpuArchAttributes OR EFI_MEMORY_UCE
      else if Attr AND EFI_MEMORY_WP = EFI_MEMORY_WP then CpuArchAttributes OR EFI_MEMORY_WP
      else CpuArchAttributes)"

text \<open>The first \<open>switch\<close>: \<open>EFI_SUCCESS\<close> stands for \<open>break\<close>.\<close>

definition ConvertCheck ::
  "UINT64 \<Rightarrow> EFI_PHYSICAL_ADDRESS \<Rightarrow> UINT64 \<Rightarrow> UINT64 \<Rightarrow> UINT64 \<Rightarrow> EFI_GCD_MAP_ENTRY \<Rightarrow> EFI_STATUS" where
  "ConvertCheck Operation Base Length Caps Attr Entry =
     (if Operation = GCD_ADD_MEMORY_OPERATION then
        if GcdMemoryType Entry \<noteq> EfiGcdMemoryTypeNonExistent \<or> ImageHandle Entry \<noteq> NULL
        then EFI_ACCESS_DENIED else EFI_SUCCESS
      else if Operation = GCD_ADD_IO_OPERATION then
        if GcdIoType Entry \<noteq> EfiGcdIoTypeNonExistent \<or> ImageHandle Entry \<noteq> NULL
        then EFI_ACCESS_DENIED else EFI_SUCCESS
      else if Operation = GCD_FREE_MEMORY_OPERATION \<or> Operation = GCD_FREE_IO_OPERATION then
        if ImageHandle Entry = NULL then EFI_NOT_FOUND else EFI_SUCCESS
      else if Operation = GCD_REMOVE_MEMORY_OPERATION then
        if GcdMemoryType Entry = EfiGcdMemoryTypeNonExistent then EFI_NOT_FOUND
        else if ImageHandle Entry \<noteq> NULL then EFI_ACCESS_DENIED else EFI_SUCCESS
      else if Operation = GCD_REMOVE_IO_OPERATION then
        if GcdIoType Entry = EfiGcdIoTypeNonExistent then EFI_NOT_FOUND
        else if ImageHandle Entry \<noteq> NULL then EFI_ACCESS_DENIED else EFI_SUCCESS
      else if Operation = GCD_SET_ATTRIBUTES_MEMORY_OPERATION then
        if Attr AND EFI_MEMORY_RUNTIME \<noteq> 0 \<and> (Base AND EFI_PAGE_MASK \<noteq> 0 \<or> Length AND EFI_PAGE_MASK \<noteq> 0)
        then EFI_INVALID_PARAMETER
        else if Capabilities Entry AND Attr \<noteq> Attr then EFI_UNSUPPORTED else EFI_SUCCESS
      else if Operation = GCD_SET_CAPABILITIES_MEMORY_OPERATION then
        if Base AND EFI_PAGE_MASK \<noteq> 0 \<or> Length AND EFI_PAGE_MASK \<noteq> 0 then EFI_INVALID_PARAMETER
        else if Caps AND Attributes Entry \<noteq> Attributes Entry then EFI_UNSUPPORTED else EFI_SUCCESS
      else EFI_SUCCESS)"

text \<open>The second \<open>switch\<close>, on the variable \<open>Attributes\<close> and the entry.\<close>

definition ConvertUpdate ::
  "UINT64 \<Rightarrow> UINT32 \<Rightarrow> UINT32 \<Rightarrow> UINT64 \<Rightarrow> UINT64 \<Rightarrow> UINT64 \<Rightarrow> EFI_GCD_MAP_ENTRY \<Rightarrow> UINT64 \<times> EFI_GCD_MAP_ENTRY" where
  "ConvertUpdate Operation MemoryType IoType Caps CpuArchAttributes Attr Entry =
     (if Operation = GCD_ADD_MEMORY_OPERATION then
        (Attr, Entry\<lparr>GcdMemoryType := MemoryType,
                 Capabilities := (if MemoryType = EfiGcdMemoryTypeMemoryMappedIo
                                  then Caps OR EFI_MEMORY_RUNTIME OR EFI_MEMORY_PORT_IO
                                  else Caps OR EFI_MEMORY_RUNTIME)\<rparr>)
      else if Operation = GCD_ADD_IO_OPERATION then (Attr, Entry\<lparr>GcdIoType := IoType\<rparr>)
      else if Operation = GCD_FREE_MEMORY_OPERATION \<or> Operation = GCD_FREE_IO_OPERATION then
        (Attr, Entry\<lparr>ImageHandle := NULL, DeviceHandle := NULL\<rparr>)
      else if Operation = GCD_REMOVE_MEMORY_OPERATION then
        (Attr, Entry\<lparr>GcdMemoryType := EfiGcdMemoryTypeNonExistent, Capabilities := 0\<rparr>)
      else if Operation = GCD_REMOVE_IO_OPERATION then (Attr, Entry\<lparr>GcdIoType := EfiGcdIoTypeNonExistent\<rparr>)
      else if Operation = GCD_SET_ATTRIBUTES_MEMORY_OPERATION then
        let Attr = (if CpuArchAttributes = 0
                    then Attr OR (Attributes Entry AND (EFI_CACHE_ATTRIBUTE_MASK OR EFI_MEMORY_ATTRIBUTE_MASK))
                    else Attr)
        in (Attr, Entry\<lparr>Attributes := Attr\<rparr>)
      else if Operation = GCD_SET_CAPABILITIES_MEMORY_OPERATION then (Attr, Entry\<lparr>Capabilities := Caps\<rparr>)
      else (Attr, Entry))"

text \<open>The call of the CPU protocol between allocation of the work entries and the change.\<close>

definition ConvertCpuStatus ::
  "(UINT64 \<Rightarrow> UINT64 \<Rightarrow> UINT64 \<Rightarrow> EFI_STATUS) \<Rightarrow> bool \<Rightarrow> UINT64 \<Rightarrow> EFI_PHYSICAL_ADDRESS \<Rightarrow> UINT64 \<Rightarrow> UINT64 \<Rightarrow> EFI_STATUS" where
  "ConvertCpuStatus SetMemoryAttributes Cpu Operation Base Length Attr =
     (if Operation = GCD_SET_ATTRIBUTES_MEMORY_OPERATION \<and> ConverToCpuArchAttributes Attr \<noteq> 0 then
        if \<not> Cpu then EFI_NOT_AVAILABLE_YET
        else SetMemoryAttributes Base Length (ConverToCpuArchAttributes Attr)
      else EFI_SUCCESS)"

text \<open>The part of \<open>CoreConvertSpace\<close> that runs under the lock.\<close>

definition ConvertLocked ::
  "(UINT64 \<Rightarrow> UINT64 \<Rightarrow> UINT64 \<Rightarrow> EFI_STATUS) \<Rightarrow> UINT64 \<Rightarrow> UINT32 \<Rightarrow> UINT32 \<Rightarrow> EFI_PHYSICAL_ADDRESS \<Rightarrow> UINT64
    \<Rightarrow> UINT64 \<Rightarrow> UINT64 \<Rightarrow> ptr \<Rightarrow> 'a GCD_STATE_scheme \<Rightarrow> (EFI_STATUS \<times> 'a GCD_STATE_scheme) option" where
  "ConvertLocked SetMemoryAttributes Operation MemoryType IoType Base Length Caps Attr Map s = do {
     (Status, StartLink, EndLink) \<leftarrow> CoreSearchGcdMapEntry Base Length Map s;
     if EFI_ERROR Status then Some (EFI_UNSUPPORTED, s)
     else do {
       ASSERT (StartLink \<noteq> NULL \<and> EndLink \<noteq> NULL);
       (Status, _) \<leftarrow> CheckLoop (ConvertCheck Operation Base Length Caps Attr) StartLink EndLink s;
       if EFI_ERROR Status then Some (Status, s)
       else do {
         let (Status, TopEntry, BottomEntry, s) = CoreAllocateGcdMapEntry s;
         if EFI_ERROR Status then Some (EFI_OUT_OF_RESOURCES, s)
         else do {
           ASSERT (TopEntry \<noteq> NULL \<and> BottomEntry \<noteq> NULL);
           let CpuArchAttributes =
             (if Operation = GCD_SET_ATTRIBUTES_MEMORY_OPERATION then ConverToCpuArchAttributes Attr else 0);
           let Status = ConvertCpuStatus SetMemoryAttributes (gCpu s) Operation Base Length Attr;
           if EFI_ERROR Status then Some (Status, FreeEntry BottomEntry (FreeEntry TopEntry s))
           else do {
             s \<leftarrow> InsertLoop (ConvertUpdate Operation MemoryType IoType Caps CpuArchAttributes)
                   Base Length TopEntry BottomEntry Attr StartLink EndLink s;
             CoreCleanupGcdMapEntry TopEntry BottomEntry StartLink EndLink Map s
           }
         }
       }
     }
   }"

definition CoreConvertSpace ::
  "'a GCD_STATE_scheme restore \<Rightarrow> (UINT64 \<Rightarrow> UINT64 \<Rightarrow> UINT64 \<Rightarrow> EFI_STATUS) \<Rightarrow> UINT64 \<Rightarrow> UINT32 \<Rightarrow> UINT32
    \<Rightarrow> EFI_PHYSICAL_ADDRESS \<Rightarrow> UINT64 \<Rightarrow> UINT64 \<Rightarrow> UINT64
    \<Rightarrow> 'a GCD_STATE_scheme \<Rightarrow> (EFI_STATUS \<times> 'a GCD_STATE_scheme) option" where
  "CoreConvertSpace R SetMemoryAttributes Operation MemoryType IoType Base Length Caps Attr s =
     (if Length = 0 then Some (EFI_INVALID_PARAMETER, s)
      else do {
        (Map, s) \<leftarrow> LockMap Operation s;
        (Status, s) \<leftarrow> ConvertLocked SetMemoryAttributes Operation MemoryType IoType Base Length Caps Attr Map s;
        s \<leftarrow> UnlockMap R Operation s;
        Some (Status, s)
      })"

section \<open>CoreAllocateSpace\<close>

abbreviation EfiGcdAllocateAnySearchBottomUp :: UINT32 where "EfiGcdAllocateAnySearchBottomUp \<equiv> 0"
abbreviation EfiGcdAllocateMaxAddressSearchBottomUp :: UINT32 where "EfiGcdAllocateMaxAddressSearchBottomUp \<equiv> 1"
abbreviation EfiGcdAllocateAddress :: UINT32 where "EfiGcdAllocateAddress \<equiv> 2"
abbreviation EfiGcdAllocateAnySearchTopDown :: UINT32 where "EfiGcdAllocateAnySearchTopDown \<equiv> 3"
abbreviation EfiGcdAllocateMaxAddressSearchTopDown :: UINT32 where "EfiGcdAllocateMaxAddressSearchTopDown \<equiv> 4"
abbreviation EfiGcdMaxAllocateType :: UINT32 where "EfiGcdMaxAllocateType \<equiv> 5"

definition CoreAllocateSpaceCheckEntry ::
  "UINT64 \<Rightarrow> UINT32 \<Rightarrow> UINT32 \<Rightarrow> EFI_GCD_MAP_ENTRY \<Rightarrow> EFI_STATUS" where
  "CoreAllocateSpaceCheckEntry Operation MemoryType IoType Entry =
     (if ImageHandle Entry \<noteq> NULL then EFI_NOT_FOUND
      else if Operation = GCD_ALLOCATE_MEMORY_OPERATION then
        if GcdMemoryType Entry \<noteq> MemoryType then EFI_NOT_FOUND else EFI_SUCCESS
      else if Operation = GCD_ALLOCATE_IO_OPERATION then
        if GcdIoType Entry \<noteq> IoType then EFI_NOT_FOUND else EFI_SUCCESS
      else EFI_UNSUPPORTED)"

text \<open>
  The search for a free range: the result is the pair of links when one is found, and the value
  \<open>*BaseAddress\<close> has at the end in any case. The failing exits all report \<open>EFI_NOT_FOUND\<close>.
\<close>

partial_function (option) AllocateSearchLoop ::
  "(EFI_GCD_MAP_ENTRY \<Rightarrow> EFI_STATUS) \<Rightarrow> bool \<Rightarrow> UINT64 \<Rightarrow> UINT64 \<Rightarrow> UINT64 \<Rightarrow> ptr \<Rightarrow> ptr \<Rightarrow> EFI_PHYSICAL_ADDRESS
    \<Rightarrow> 'a GCD_STATE_scheme \<Rightarrow> ((ptr \<times> ptr) option \<times> EFI_PHYSICAL_ADDRESS) option" where
  "AllocateSearchLoop Check TopDown AlignmentMask MaxAddress Length Map Link Base s =
     (if Link = Map then Some (None, Base)
      else do {
        Entry \<leftarrow> CR Link s;
        Link \<leftarrow> (if TopDown then Backward Link s else Forward Link s);
        if EFI_ERROR (Check Entry) then
          AllocateSearchLoop Check TopDown AlignmentMask MaxAddress Length Map Link Base s
        else if TopDown \<and> BaseAddress Entry + Length > MaxAddress then
          AllocateSearchLoop Check TopDown AlignmentMask MaxAddress Length Map Link Base s
        else if TopDown \<and> Length > EndAddress Entry + 1 then Some (None, Base)
        else do {
          let Base =
            (if TopDown then
               ((if EndAddress Entry > MaxAddress then MaxAddress else EndAddress Entry) + 1 - Length)
                 AND NOT AlignmentMask
             else (BaseAddress Entry + AlignmentMask) AND NOT AlignmentMask);
          if \<not> TopDown \<and> Base + Length - 1 > MaxAddress then Some (None, Base)
          else do {
            (Status, StartLink, EndLink) \<leftarrow> CoreSearchGcdMapEntry Base Length Map s;
            if EFI_ERROR Status then Some (None, Base)
            else do {
              ASSERT (StartLink \<noteq> NULL \<and> EndLink \<noteq> NULL);
              (Status, SubLink) \<leftarrow> CheckLoop Check StartLink EndLink s;
              if EFI_ERROR Status then
                AllocateSearchLoop Check TopDown AlignmentMask MaxAddress Length Map SubLink Base s
              else Some (Some (StartLink, EndLink), Base)
            }
          }
        }
      })"

text \<open>The first half under the lock: the links of the range to use, or the failing status.\<close>

definition AllocateSelect ::
  "UINT64 \<Rightarrow> UINT32 \<Rightarrow> UINT32 \<Rightarrow> UINT32 \<Rightarrow> nat \<Rightarrow> UINT64 \<Rightarrow> EFI_PHYSICAL_ADDRESS \<Rightarrow> ptr
    \<Rightarrow> 'a GCD_STATE_scheme \<Rightarrow> ((EFI_STATUS + ptr \<times> ptr) \<times> EFI_PHYSICAL_ADDRESS) option" where
  "AllocateSelect Operation AllocateType MemoryType IoType Alignment Length Base Map s =
     (let AlignmentMask = push_bit Alignment 1 - 1;
          Check = CoreAllocateSpaceCheckEntry Operation MemoryType IoType in
      if AllocateType = EfiGcdAllocateAddress then
        if Base AND AlignmentMask \<noteq> 0 then Some (Inl EFI_NOT_FOUND, Base)
        else do {
          (Status, StartLink, EndLink) \<leftarrow> CoreSearchGcdMapEntry Base Length Map s;
          if EFI_ERROR Status then Some (Inl EFI_NOT_FOUND, Base)
          else do {
            ASSERT (StartLink \<noteq> NULL \<and> EndLink \<noteq> NULL);
            (Status, _) \<leftarrow> CheckLoop Check StartLink EndLink s;
            Some (if EFI_ERROR Status then Inl Status else Inr (StartLink, EndLink), Base)
          }
        }
      else do {
        Last \<leftarrow> Backward Map s;
        Entry \<leftarrow> CR Last s;
        let MaxAddress =
          (if AllocateType = EfiGcdAllocateMaxAddressSearchBottomUp \<or>
              AllocateType = EfiGcdAllocateMaxAddressSearchTopDown then Base else EndAddress Entry);
        let TopDown =
          (AllocateType = EfiGcdAllocateMaxAddressSearchTopDown \<or> AllocateType = EfiGcdAllocateAnySearchTopDown);
        Link \<leftarrow> (if TopDown then Backward Map s else Forward Map s);
        (Found, Base) \<leftarrow> AllocateSearchLoop Check TopDown AlignmentMask MaxAddress Length Map Link Base s;
        Some (case Found of None \<Rightarrow> Inl EFI_NOT_FOUND | Some Links \<Rightarrow> Inr Links, Base)
      })"

definition AllocateLocked ::
  "UINT64 \<Rightarrow> UINT32 \<Rightarrow> UINT32 \<Rightarrow> UINT32 \<Rightarrow> nat \<Rightarrow> UINT64 \<Rightarrow> EFI_PHYSICAL_ADDRESS \<Rightarrow> ptr \<Rightarrow> ptr \<Rightarrow> ptr
    \<Rightarrow> 'a GCD_STATE_scheme \<Rightarrow> (EFI_STATUS \<times> EFI_PHYSICAL_ADDRESS \<times> 'a GCD_STATE_scheme) option" where
  "AllocateLocked Operation AllocateType MemoryType IoType Alignment Length Base ImageHdl DeviceHdl Map s = do {
     (Selected, Base) \<leftarrow>
       AllocateSelect Operation AllocateType MemoryType IoType Alignment Length Base Map s;
     case Selected of
       Inl Status \<Rightarrow> Some (Status, Base, s)
     | Inr (StartLink, EndLink) \<Rightarrow> do {
         let (Status, TopEntry, BottomEntry, s) = CoreAllocateGcdMapEntry s;
         if EFI_ERROR Status then Some (EFI_OUT_OF_RESOURCES, Base, s)
         else do {
           ASSERT (TopEntry \<noteq> NULL \<and> BottomEntry \<noteq> NULL);
           s \<leftarrow> InsertLoop (\<lambda>a Entry. (a, Entry\<lparr>ImageHandle := ImageHdl, DeviceHandle := DeviceHdl\<rparr>))
                 Base Length TopEntry BottomEntry 0 StartLink EndLink s;
           (Status, s) \<leftarrow> CoreCleanupGcdMapEntry TopEntry BottomEntry StartLink EndLink Map s;
           Some (Status, Base, s)
         }
       }
   }"

text \<open>\<open>BaseAddress\<close> is \<open>None\<close> for a \<open>NULL\<close> pointer; the result carries the value it points to.\<close>

definition CoreAllocateSpace ::
  "'a GCD_STATE_scheme restore \<Rightarrow> UINT64 \<Rightarrow> UINT32 \<Rightarrow> UINT32 \<Rightarrow> UINT32 \<Rightarrow> nat \<Rightarrow> UINT64
    \<Rightarrow> EFI_PHYSICAL_ADDRESS option \<Rightarrow> ptr \<Rightarrow> ptr
    \<Rightarrow> 'a GCD_STATE_scheme \<Rightarrow> (EFI_STATUS \<times> EFI_PHYSICAL_ADDRESS option \<times> 'a GCD_STATE_scheme) option" where
  "CoreAllocateSpace R Operation AllocateType MemoryType IoType Alignment Length Base ImageHdl DeviceHdl s =
     (if AllocateType \<ge> EfiGcdMaxAllocateType then Some (EFI_INVALID_PARAMETER, Base, s)
      else if MemoryType \<ge> EfiGcdMemoryTypeMaximum then Some (EFI_INVALID_PARAMETER, Base, s)
      else if IoType \<ge> EfiGcdIoTypeMaximum then Some (EFI_INVALID_PARAMETER, Base, s)
      else case Base of
          None \<Rightarrow> Some (EFI_INVALID_PARAMETER, Base, s)
        | Some Addr \<Rightarrow>
            if ImageHdl = NULL then Some (EFI_INVALID_PARAMETER, Base, s)
            else if Alignment \<ge> 64 then Some (EFI_NOT_FOUND, Base, s)
            else if Length = 0 then Some (EFI_INVALID_PARAMETER, Base, s)
            else do {
              (Map, s) \<leftarrow> LockMap Operation s;
              (Status, Addr, s) \<leftarrow>
                AllocateLocked Operation AllocateType MemoryType IoType Alignment Length Addr ImageHdl DeviceHdl Map s;
              s \<leftarrow> UnlockMap R Operation s;
              Some (Status, Some Addr, s)
            })"

section \<open>The DXE services\<close>

definition CoreInternalAddMemorySpace ::
  "'a GCD_STATE_scheme restore \<Rightarrow> (UINT64 \<Rightarrow> UINT64 \<Rightarrow> UINT64 \<Rightarrow> EFI_STATUS) \<Rightarrow> UINT32
    \<Rightarrow> EFI_PHYSICAL_ADDRESS \<Rightarrow> UINT64 \<Rightarrow> UINT64 \<Rightarrow> 'a GCD_STATE_scheme \<Rightarrow> (EFI_STATUS \<times> 'a GCD_STATE_scheme) option" where
  "CoreInternalAddMemorySpace R Sma MemoryType Base Length Caps s =
     (if MemoryType \<le> EfiGcdMemoryTypeNonExistent \<or> MemoryType \<ge> EfiGcdMemoryTypeMaximum
      then Some (EFI_INVALID_PARAMETER, s)
      else CoreConvertSpace R Sma GCD_ADD_MEMORY_OPERATION MemoryType 0 Base Length Caps 0 s)"

definition CoreAllocateMemorySpace ::
  "'a GCD_STATE_scheme restore \<Rightarrow> UINT32 \<Rightarrow> UINT32 \<Rightarrow> nat \<Rightarrow> UINT64 \<Rightarrow> EFI_PHYSICAL_ADDRESS option \<Rightarrow> ptr \<Rightarrow> ptr
    \<Rightarrow> 'a GCD_STATE_scheme \<Rightarrow> (EFI_STATUS \<times> EFI_PHYSICAL_ADDRESS option \<times> 'a GCD_STATE_scheme) option" where
  "CoreAllocateMemorySpace R AllocateType MemoryType Alignment Length Base ImageHdl DeviceHdl s =
     CoreAllocateSpace R GCD_ALLOCATE_MEMORY_OPERATION AllocateType MemoryType 0 Alignment Length Base ImageHdl DeviceHdl s"

definition CoreFreeMemorySpace ::
  "'a GCD_STATE_scheme restore \<Rightarrow> (UINT64 \<Rightarrow> UINT64 \<Rightarrow> UINT64 \<Rightarrow> EFI_STATUS) \<Rightarrow> EFI_PHYSICAL_ADDRESS \<Rightarrow> UINT64
    \<Rightarrow> 'a GCD_STATE_scheme \<Rightarrow> (EFI_STATUS \<times> 'a GCD_STATE_scheme) option" where
  "CoreFreeMemorySpace R Sma Base Length s =
     CoreConvertSpace R Sma GCD_FREE_MEMORY_OPERATION 0 0 Base Length 0 0 s"

definition CoreRemoveMemorySpace ::
  "'a GCD_STATE_scheme restore \<Rightarrow> (UINT64 \<Rightarrow> UINT64 \<Rightarrow> UINT64 \<Rightarrow> EFI_STATUS) \<Rightarrow> EFI_PHYSICAL_ADDRESS \<Rightarrow> UINT64
    \<Rightarrow> 'a GCD_STATE_scheme \<Rightarrow> (EFI_STATUS \<times> 'a GCD_STATE_scheme) option" where
  "CoreRemoveMemorySpace R Sma Base Length s =
     CoreConvertSpace R Sma GCD_REMOVE_MEMORY_OPERATION 0 0 Base Length 0 0 s"

definition CoreSetMemorySpaceAttributes ::
  "'a GCD_STATE_scheme restore \<Rightarrow> (UINT64 \<Rightarrow> UINT64 \<Rightarrow> UINT64 \<Rightarrow> EFI_STATUS) \<Rightarrow> EFI_PHYSICAL_ADDRESS \<Rightarrow> UINT64 \<Rightarrow> UINT64
    \<Rightarrow> 'a GCD_STATE_scheme \<Rightarrow> (EFI_STATUS \<times> 'a GCD_STATE_scheme) option" where
  "CoreSetMemorySpaceAttributes R Sma Base Length Attr s =
     CoreConvertSpace R Sma GCD_SET_ATTRIBUTES_MEMORY_OPERATION 0 0 Base Length 0 Attr s"

text \<open>
  \<open>CoreUpdateMemoryAttributes\<close> of \<open>Mem/Page.c\<close>, which copies new capabilities into the memory map of the
  page allocator, is an argument: address, number of pages, attributes.
\<close>

definition CoreSetMemorySpaceCapabilities ::
  "'a GCD_STATE_scheme restore \<Rightarrow> (UINT64 \<Rightarrow> UINT64 \<Rightarrow> UINT64 \<Rightarrow> EFI_STATUS)
    \<Rightarrow> (UINT64 \<Rightarrow> UINT64 \<Rightarrow> UINT64 \<Rightarrow> 'a GCD_STATE_scheme \<Rightarrow> 'a GCD_STATE_scheme option)
    \<Rightarrow> EFI_PHYSICAL_ADDRESS \<Rightarrow> UINT64 \<Rightarrow> UINT64
    \<Rightarrow> 'a GCD_STATE_scheme \<Rightarrow> (EFI_STATUS \<times> 'a GCD_STATE_scheme) option" where
  "CoreSetMemorySpaceCapabilities R Sma CoreUpdateMemoryAttributes Base Length Caps s = do {
     (Status, s) \<leftarrow> CoreConvertSpace R Sma GCD_SET_CAPABILITIES_MEMORY_OPERATION 0 0 Base Length Caps 0 s;
     if \<not> EFI_ERROR Status then do {
       s \<leftarrow> CoreUpdateMemoryAttributes Base (drop_bit EFI_PAGE_SHIFT Length) (Caps AND NOT EFI_MEMORY_RUNTIME) s;
       Some (Status, s)
     }
     else Some (Status, s)
   }"

definition CoreAddIoSpace ::
  "'a GCD_STATE_scheme restore \<Rightarrow> (UINT64 \<Rightarrow> UINT64 \<Rightarrow> UINT64 \<Rightarrow> EFI_STATUS) \<Rightarrow> UINT32
    \<Rightarrow> EFI_PHYSICAL_ADDRESS \<Rightarrow> UINT64 \<Rightarrow> 'a GCD_STATE_scheme \<Rightarrow> (EFI_STATUS \<times> 'a GCD_STATE_scheme) option" where
  "CoreAddIoSpace R Sma IoType Base Length s =
     (if IoType \<le> EfiGcdIoTypeNonExistent \<or> IoType \<ge> EfiGcdIoTypeMaximum then Some (EFI_INVALID_PARAMETER, s)
      else CoreConvertSpace R Sma GCD_ADD_IO_OPERATION 0 IoType Base Length 0 0 s)"

definition CoreAllocateIoSpace ::
  "'a GCD_STATE_scheme restore \<Rightarrow> UINT32 \<Rightarrow> UINT32 \<Rightarrow> nat \<Rightarrow> UINT64 \<Rightarrow> EFI_PHYSICAL_ADDRESS option \<Rightarrow> ptr \<Rightarrow> ptr
    \<Rightarrow> 'a GCD_STATE_scheme \<Rightarrow> (EFI_STATUS \<times> EFI_PHYSICAL_ADDRESS option \<times> 'a GCD_STATE_scheme) option" where
  "CoreAllocateIoSpace R AllocateType IoType Alignment Length Base ImageHdl DeviceHdl s =
     CoreAllocateSpace R GCD_ALLOCATE_IO_OPERATION AllocateType 0 IoType Alignment Length Base ImageHdl DeviceHdl s"

definition CoreFreeIoSpace ::
  "'a GCD_STATE_scheme restore \<Rightarrow> (UINT64 \<Rightarrow> UINT64 \<Rightarrow> UINT64 \<Rightarrow> EFI_STATUS) \<Rightarrow> EFI_PHYSICAL_ADDRESS \<Rightarrow> UINT64
    \<Rightarrow> 'a GCD_STATE_scheme \<Rightarrow> (EFI_STATUS \<times> 'a GCD_STATE_scheme) option" where
  "CoreFreeIoSpace R Sma Base Length s = CoreConvertSpace R Sma GCD_FREE_IO_OPERATION 0 0 Base Length 0 0 s"

definition CoreRemoveIoSpace ::
  "'a GCD_STATE_scheme restore \<Rightarrow> (UINT64 \<Rightarrow> UINT64 \<Rightarrow> UINT64 \<Rightarrow> EFI_STATUS) \<Rightarrow> EFI_PHYSICAL_ADDRESS \<Rightarrow> UINT64
    \<Rightarrow> 'a GCD_STATE_scheme \<Rightarrow> (EFI_STATUS \<times> 'a GCD_STATE_scheme) option" where
  "CoreRemoveIoSpace R Sma Base Length s = CoreConvertSpace R Sma GCD_REMOVE_IO_OPERATION 0 0 Base Length 0 0 s"

section \<open>Descriptors\<close>

record EFI_GCD_MEMORY_SPACE_DESCRIPTOR =
  DescBaseAddress :: EFI_PHYSICAL_ADDRESS
  DescLength :: UINT64
  DescCapabilities :: UINT64
  DescAttributes :: UINT64
  DescGcdMemoryType :: UINT32
  DescImageHandle :: ptr
  DescDeviceHandle :: ptr

record EFI_GCD_IO_SPACE_DESCRIPTOR =
  IoDescBaseAddress :: EFI_PHYSICAL_ADDRESS
  IoDescLength :: UINT64
  IoDescGcdIoType :: UINT32
  IoDescImageHandle :: ptr
  IoDescDeviceHandle :: ptr

definition BuildMemoryDescriptor :: "EFI_GCD_MAP_ENTRY \<Rightarrow> EFI_GCD_MEMORY_SPACE_DESCRIPTOR" where
  "BuildMemoryDescriptor Entry =
     \<lparr>DescBaseAddress = BaseAddress Entry,
      DescLength = EndAddress Entry - BaseAddress Entry + 1,
      DescCapabilities = Capabilities Entry,
      DescAttributes = Attributes Entry,
      DescGcdMemoryType = GcdMemoryType Entry,
      DescImageHandle = ImageHandle Entry,
      DescDeviceHandle = DeviceHandle Entry\<rparr>"

definition BuildIoDescriptor :: "EFI_GCD_MAP_ENTRY \<Rightarrow> EFI_GCD_IO_SPACE_DESCRIPTOR" where
  "BuildIoDescriptor Entry =
     \<lparr>IoDescBaseAddress = BaseAddress Entry,
      IoDescLength = EndAddress Entry - BaseAddress Entry + 1,
      IoDescGcdIoType = GcdIoType Entry,
      IoDescImageHandle = ImageHandle Entry,
      IoDescDeviceHandle = DeviceHandle Entry\<rparr>"

text \<open>\<open>Wanted\<close> is false for a \<open>NULL\<close> descriptor pointer.\<close>

definition CoreGetMemorySpaceDescriptor ::
  "'a GCD_STATE_scheme restore \<Rightarrow> EFI_PHYSICAL_ADDRESS \<Rightarrow> bool \<Rightarrow> 'a GCD_STATE_scheme
    \<Rightarrow> (EFI_STATUS \<times> EFI_GCD_MEMORY_SPACE_DESCRIPTOR option \<times> 'a GCD_STATE_scheme) option" where
  "CoreGetMemorySpaceDescriptor R Base Wanted s =
     (if \<not> Wanted then Some (EFI_INVALID_PARAMETER, None, s)
      else do {
        s \<leftarrow> CoreAcquireGcdMemoryLock s;
        (Status, StartLink, EndLink) \<leftarrow> CoreSearchGcdMapEntry Base 1 mGcdMemorySpaceMap s;
        (Status, Descriptor) \<leftarrow>
          (if EFI_ERROR Status then Some (EFI_NOT_FOUND, None)
           else do {
             ASSERT (StartLink \<noteq> NULL \<and> EndLink \<noteq> NULL);
             Entry \<leftarrow> CR StartLink s;
             Some (Status, Some (BuildMemoryDescriptor Entry))
           });
        s \<leftarrow> CoreReleaseGcdMemoryLock R s;
        Some (Status, Descriptor, s)
      })"

definition CoreGetIoSpaceDescriptor ::
  "'a GCD_STATE_scheme restore \<Rightarrow> EFI_PHYSICAL_ADDRESS \<Rightarrow> bool \<Rightarrow> 'a GCD_STATE_scheme
    \<Rightarrow> (EFI_STATUS \<times> EFI_GCD_IO_SPACE_DESCRIPTOR option \<times> 'a GCD_STATE_scheme) option" where
  "CoreGetIoSpaceDescriptor R Base Wanted s =
     (if \<not> Wanted then Some (EFI_INVALID_PARAMETER, None, s)
      else do {
        s \<leftarrow> CoreAcquireGcdIoLock s;
        (Status, StartLink, EndLink) \<leftarrow> CoreSearchGcdMapEntry Base 1 mGcdIoSpaceMap s;
        (Status, Descriptor) \<leftarrow>
          (if EFI_ERROR Status then Some (EFI_NOT_FOUND, None)
           else do {
             ASSERT (StartLink \<noteq> NULL \<and> EndLink \<noteq> NULL);
             Entry \<leftarrow> CR StartLink s;
             Some (Status, Some (BuildIoDescriptor Entry))
           });
        s \<leftarrow> CoreReleaseGcdIoLock R s;
        Some (Status, Descriptor, s)
      })"

section \<open>Snapshots of a whole map\<close>

text \<open>The loop that copies the entries, from \<open>Link\<close> on.\<close>

partial_function (option) FillLoop ::
  "(EFI_GCD_MAP_ENTRY \<Rightarrow> 'd) \<Rightarrow> ptr \<Rightarrow> ptr \<Rightarrow> 'd list \<Rightarrow> 'a GCD_STATE_scheme \<Rightarrow> 'd list option" where
  "FillLoop Build Map Link Filled s =
     (if Link \<noteq> Map then do {
        Entry \<leftarrow> CR Link s;
        Link \<leftarrow> Forward Link s;
        FillLoop Build Map Link (Filled @ [Build Entry]) s
      }
      else Some Filled)"

text \<open>
  The buffer is one pool address. \<open>CoreGetMemorySpaceMap\<close> allocates it outside the lock and starts over
  when the number of entries has changed meanwhile.
\<close>

partial_function (option) GetMemorySpaceMapLoop ::
  "'a GCD_STATE_scheme restore \<Rightarrow> nat \<Rightarrow> ptr \<Rightarrow> 'a GCD_STATE_scheme
    \<Rightarrow> (EFI_STATUS \<times> nat \<times> ptr \<times> EFI_GCD_MEMORY_SPACE_DESCRIPTOR list \<times> 'a GCD_STATE_scheme) option" where
  "GetMemorySpaceMapLoop R NumberOfDescriptors MemorySpaceMap s = do {
     DescriptorCount \<leftarrow> CoreCountGcdMapEntry mGcdMemorySpaceMap s;
     if DescriptorCount = NumberOfDescriptors \<and> MemorySpaceMap \<noteq> NULL then do {
       Link \<leftarrow> Forward mGcdMemorySpaceMap s;
       Descriptors \<leftarrow> FillLoop BuildMemoryDescriptor mGcdMemorySpaceMap Link [] s;
       s \<leftarrow> CoreReleaseGcdMemoryLock R s;
       Some (EFI_SUCCESS, NumberOfDescriptors, MemorySpaceMap, Descriptors, s)
     }
     else do {
       s \<leftarrow> CoreReleaseGcdMemoryLock R s;
       let s = (if MemorySpaceMap \<noteq> NULL then s\<lparr>Pool := MemorySpaceMap # Pool s\<rparr> else s);
       let (MemorySpaceMap, s) = TakePool s;
       if MemorySpaceMap = NULL then Some (EFI_OUT_OF_RESOURCES, 0, NULL, [], s)
       else do {
         s \<leftarrow> CoreAcquireGcdMemoryLock s;
         GetMemorySpaceMapLoop R DescriptorCount MemorySpaceMap s
       }
     }
   }"

definition CoreGetMemorySpaceMap ::
  "'a GCD_STATE_scheme restore \<Rightarrow> bool \<Rightarrow> bool \<Rightarrow> 'a GCD_STATE_scheme
    \<Rightarrow> (EFI_STATUS \<times> nat \<times> ptr \<times> EFI_GCD_MEMORY_SPACE_DESCRIPTOR list \<times> 'a GCD_STATE_scheme) option" where
  "CoreGetMemorySpaceMap R NumberWanted MapWanted s =
     (if \<not> NumberWanted then Some (EFI_INVALID_PARAMETER, 0, NULL, [], s)
      else if \<not> MapWanted then Some (EFI_INVALID_PARAMETER, 0, NULL, [], s)
      else do {
        s \<leftarrow> CoreAcquireGcdMemoryLock s;
        GetMemorySpaceMapLoop R 0 NULL s
      })"

definition CoreGetIoSpaceMap ::
  "'a GCD_STATE_scheme restore \<Rightarrow> bool \<Rightarrow> bool \<Rightarrow> 'a GCD_STATE_scheme
    \<Rightarrow> (EFI_STATUS \<times> nat \<times> ptr \<times> EFI_GCD_IO_SPACE_DESCRIPTOR list \<times> 'a GCD_STATE_scheme) option" where
  "CoreGetIoSpaceMap R NumberWanted MapWanted s =
     (if \<not> NumberWanted then Some (EFI_INVALID_PARAMETER, 0, NULL, [], s)
      else if \<not> MapWanted then Some (EFI_INVALID_PARAMETER, 0, NULL, [], s)
      else do {
        s \<leftarrow> CoreAcquireGcdIoLock s;
        NumberOfDescriptors \<leftarrow> CoreCountGcdMapEntry mGcdIoSpaceMap s;
        let (IoSpaceMap, s) = TakePool s;
        if IoSpaceMap = NULL then do {
          s \<leftarrow> CoreReleaseGcdIoLock R s;
          Some (EFI_OUT_OF_RESOURCES, NumberOfDescriptors, NULL, [], s)
        }
        else do {
          Link \<leftarrow> Forward mGcdIoSpaceMap s;
          Descriptors \<leftarrow> FillLoop BuildIoDescriptor mGcdIoSpaceMap Link [] s;
          s \<leftarrow> CoreReleaseGcdIoLock R s;
          Some (EFI_SUCCESS, NumberOfDescriptors, IoSpaceMap, Descriptors, s)
        }
      })"

end
