(* ===== verification/Gcd_Correct.thy ===== *)
theory Gcd_Correct
  imports Gcd_Space
begin

text \<open>
  Correctness of the services of the Global Coherency Domain: on a well-formed map and a range that does
  not pass the end of the address space, \<open>CoreConvertSpace\<close> and \<open>CoreAllocateSpace\<close> return, succeed
  exactly when the documented conditions hold, change what the map says about the addresses of the
  range as documented and about no other address, and keep the map well-formed; a failing call
  changes nothing.
\<close>

section \<open>Entries and addresses\<close>

lemma tiles_space_unique:
  assumes "tiles lo hi es" and "e \<in> set es" and "holds a e"
  shows "space_at es a = Some (space_of e)"
proof -
  obtain xs ys where es: "es = xs @ e # ys" using assms(2) by (meson split_list)
  then obtain mid where mid: "tiles lo mid xs" "tiles mid hi (e # ys)" using assms(1) by (auto simp: tiles_append)
  have "mid \<le> unat a" using tiles_outside [OF mid(2), of e a] assms(3) by simp
  then show ?thesis using tiles_space_append [OF mid, of a] assms(3) by (simp add: es space_at_Cons)
qed

lemma find_holds:
  assumes "space_at es a = Some v"
  obtains e where "e \<in> set es" "holds a e" "v = space_of e"
proof -
  obtain e where "find (holds a) es = Some e" "v = space_of e" using assms by (auto simp: space_at_def)
  then show ?thesis using that by (metis (mono_tags, lifting) find_Some_iff nth_mem)
qed

text \<open>The entries of the stretch that a search finds are those that hold an address of the range.\<close>

lemma stretch_meets:
  assumes m: "tiles m1 m2 eS" and B: "holds B (hd eS)" and x: "holds x (last eS)" and Bx: "B \<le> x"
    and e: "e \<in> set eS"
  shows "\<exists>a. B \<le> a \<and> a \<le> x \<and> holds a e"
proof -
  obtain d ds where eS: "eS = d # ds" using e by (cases eS) auto
  show ?thesis
  proof (cases "e = d")
    case True
    then show ?thesis using B Bx eS by auto
  next
    case False
    then have "e \<in> set ds" using e eS by simp
    then have lo: "\<not> BaseAddress e < B" using tiles_tl_above [of m1 m2 d ds B e] m B eS by simp
    have le: "BaseAddress e \<le> EndAddress e"
      using m e by (metis split_list tiles.simps(2) tiles_append)
    have "BaseAddress e \<le> x"
    proof (cases "e = last eS")
      case True
      then show ?thesis using x by (simp add: holds_def)
    next
      case False
      have eS': "eS = butlast eS @ [last eS]" using eS by simp
      then have "e \<in> set (butlast eS)"
        using e False by (metis in_set_butlast_appendI rotate1.simps(2) set_ConsD set_rotate1)
      then have "\<not> x < EndAddress e"
        using tiles_butlast_below [of m1 m2 "butlast eS" "last eS" x e] m eS' x by simp
      then show ?thesis using le by auto
    qed
    then show ?thesis using lo le by (intro exI [of _ "BaseAddress e"]) (auto simp: holds_def)
  qed
qed

lemma stretch_within:
  assumes t: "tiles lo hi (eA @ eS @ eD)" and ne: "eS \<noteq> []" and B: "holds B (hd eS)"
    and x: "holds x (last eS)" and a: "B \<le> a" "a \<le> x" and e: "e \<in> set (eA @ eS @ eD)" "holds a e"
  shows "e \<in> set eS"
proof -
  obtain m1 m2 where m: "tiles lo m1 eA" "tiles m1 m2 eS" "tiles m2 hi eD" using t by (auto simp: tiles_append)
  have "m1 \<le> unat B" using tiles_outside [OF m(2), of "hd eS" B] ne B by simp
  moreover have "unat x < m2" using tiles_outside [OF m(2), of "last eS" x] ne x by simp
  ultimately have "m1 \<le> unat a" "unat a < m2" using a by (auto simp: word_le_nat_alt)
  then have "e \<notin> set eA" "e \<notin> set eD"
    using tiles_outside [OF m(1) _ e(2)] tiles_outside [OF m(3) _ e(2)] by auto
  then show ?thesis using e(1) by simp
qed

lemma stretch_addresses:
  assumes t: "tiles lo hi (eA @ eS @ eD)" and ne: "eS \<noteq> []" and B: "holds B (hd eS)"
    and x: "holds x (last eS)" and Bx: "B \<le> x"
  shows "(\<forall>e\<in>set eS. P (space_of e)) \<longleftrightarrow>
    (\<forall>a v. B \<le> a \<longrightarrow> a \<le> x \<longrightarrow> space_at (eA @ eS @ eD) a = Some v \<longrightarrow> P v)"
proof
  assume "\<forall>e\<in>set eS. P (space_of e)"
  then show "\<forall>a v. B \<le> a \<longrightarrow> a \<le> x \<longrightarrow> space_at (eA @ eS @ eD) a = Some v \<longrightarrow> P v"
    using stretch_within [OF t ne B x] by (metis find_holds)
next
  obtain m1 m2 where m: "tiles m1 m2 eS" using t by (auto simp: tiles_append)
  assume all: "\<forall>a v. B \<le> a \<longrightarrow> a \<le> x \<longrightarrow> space_at (eA @ eS @ eD) a = Some v \<longrightarrow> P v"
  show "\<forall>e\<in>set eS. P (space_of e)"
  proof
    fix e assume e: "e \<in> set eS"
    obtain a where "B \<le> a" "a \<le> x" "holds a e" using stretch_meets [OF m B x Bx e] by blast
    moreover have "space_at (eA @ eS @ eD) a = Some (space_of e)"
      using tiles_space_unique [OF t, of e a] e \<open>holds a e\<close> by simp
    ultimately show "P (space_of e)" using all by blast
  qed
qed

section \<open>One change of a range\<close>

text \<open>The work entries come from the front of the pool; both functions that change a range share this step.\<close>

lemma allocate_and_change:
  assumes g: "gcd_map s m (A @ S @ D) (eA @ eS @ eD)" and len: "length A = length eA" "length S = length eS"
    and ne: "S \<noteq> []" and L: "L \<noteq> 0" and ok: "gcd_pool_ok s"
    and fit: "fits (PcdMaximumLinkedListLength s) (length (A @ S @ D) + 3)"
    and t: "tiles lo hi (eA @ eS @ eD)" and B: "holds B (hd eS)" and x: "holds (B + L - 1) (last eS)"
    and Bx: "B \<le> B + L - 1" and al: "CoreAllocateGcdMapEntry s = (EFI_SUCCESS, T, Bo, s1)"
    and sig: "\<And>a e. Signature (snd (U a e)) = Signature e"
    and U: "\<And>a e. BaseAddress (snd (U a e)) = BaseAddress e" "\<And>a e. EndAddress (snd (U a e)) = EndAddress e"
  shows "T \<noteq> NULL \<and> Bo \<noteq> NULL \<and> gcd_step (set (take 2 (Pool s))) s s1 \<and> gcd_pool_ok s1
    \<and> gcd_map s1 m (A @ S @ D) (eA @ eS @ eD) \<and> gcd_map (FreeEntry Bo (FreeEntry T s1)) m (A @ S @ D) (eA @ eS @ eD)
    \<and> gcd_step (set (take 2 (Pool s))) s (FreeEntry Bo (FreeEntry T s1))
    \<and> (\<exists>s2 s' ps' es'. InsertLoop U B L T Bo a (hd S) (last S) s1 = Some s2
        \<and> CoreCleanupGcdMapEntry T Bo (hd S) (last S) m s2 = Some (EFI_SUCCESS, s')
        \<and> gcd_map s' m ps' es' \<and> length ps' \<le> length (A @ S @ D) + 2
        \<and> gcd_step (set (m # A @ S @ D) \<union> set (take 2 (Pool s))) s s' \<and> tiles lo hi es'
        \<and> (\<forall>v. space_at es' v = (if B \<le> v \<and> v \<le> B + L - 1 then space_at (changed U a B L eS) v
              else space_at (eA @ eS @ eD) v)))"
proof -
  have r: "ring (GcdLinks s) (m # A @ S @ D)" using g by (simp add: gcd_map_def)
  have w: "2 \<le> length (Pool s)" "T = Pool s ! 0" "Bo = Pool s ! 1" "spare s1 T" "spare s1 Bo" "T \<noteq> Bo"
    "T \<notin> set (m # A @ S @ D)" "Bo \<notin> set (m # A @ S @ D)" "gcd_step {T, Bo} s s1"
    using CoreAllocateGcdMapEntry_cases [OF ok r] al by auto
  have tk: "{T, Bo} = set (take 2 (Pool s))"
  proof -
    obtain p q ps where "Pool s = p # q # ps" using w(1) by (metis Suc_le_length_iff numeral_2_eq_2)
    then show ?thesis using w(2,3) by simp
  qed
  have g1: "gcd_map s1 m (A @ S @ D) (eA @ eS @ eD)"
    by (rule gcd_map_step [OF g w(9)]) (use w(7,8) in blast)
  have ok1: "gcd_pool_ok s1" using w(9) ok unfolding gcd_step_def by blast
  note f1 = FreeEntry_spare [OF g1 w(4,7)]
  have sB: "spare (FreeEntry T s1) Bo" using f1(3) [of Bo] w(5,6) by simp
  note f2 = FreeEntry_spare [OF f1(1) sB w(8)]
  have "gcd_step {T, Bo} s1 (FreeEntry Bo (FreeEntry T s1))"
    by (rule gcd_step_trans [OF f1(2) f2(2)]) auto
  with w(9) have stf: "gcd_step {T, Bo} s (FreeEntry Bo (FreeEntry T s1))"
    by (rule gcd_step_trans) auto
  have fit1: "fits (PcdMaximumLinkedListLength s1) (length (m # A @ S @ D) + 2)"
    using fit gcd_step_simps(1) [OF w(9)] by (simp add: numeral_3_eq_3 add.commute add.left_commute)
  obtain s2 s' ps' es' where c: "InsertLoop U B L T Bo a (hd S) (last S) s1 = Some s2"
    "CoreCleanupGcdMapEntry T Bo (hd S) (last S) m s2 = Some (EFI_SUCCESS, s')"
    "gcd_map s' m ps' es'" "length ps' \<le> length (A @ S @ D) + 2"
    "gcd_step (set (T # Bo # m # A @ S @ D)) s1 s'" "tiles lo hi es'"
    "\<forall>v. space_at es' v = (if B \<le> v \<and> v \<le> B + L - 1 then space_at (changed U a B L eS) v
          else space_at (eA @ eS @ eD) v)"
    using change_stretch [where U = U and a = a,
        OF g1 len ne L fit1 t B x Bx w(4,7,5,8,6) sig U] by blast
  have "gcd_step (set (m # A @ S @ D) \<union> set (take 2 (Pool s))) s s'"
    by (rule gcd_step_trans [OF w(9) c(5)]) (use tk in auto)
  moreover have "T \<noteq> NULL" "Bo \<noteq> NULL" using w(4,5) unfolding spare_def by blast+
  ultimately show ?thesis using c g1 ok1 f2(1) stf w(9) unfolding tk by blast
qed

section \<open>CoreConvertSpace\<close>

definition page_aligned :: "UINT64 \<Rightarrow> bool" where
  "page_aligned x \<longleftrightarrow> x AND EFI_PAGE_MASK = 0"

definition admits :: "UINT64 \<Rightarrow> UINT64 \<Rightarrow> UINT64 \<Rightarrow> UINT64 \<Rightarrow> UINT64 \<Rightarrow> EFI_GCD_MAP_ENTRY \<Rightarrow> bool" where
  "admits Op B L Caps Attr v \<longleftrightarrow>
     (Op = GCD_ADD_MEMORY_OPERATION \<longrightarrow> GcdMemoryType v = EfiGcdMemoryTypeNonExistent)
     \<and> (Op = GCD_ADD_IO_OPERATION \<longrightarrow> GcdIoType v = EfiGcdIoTypeNonExistent)
     \<and> (Op = GCD_REMOVE_MEMORY_OPERATION \<longrightarrow> GcdMemoryType v \<noteq> EfiGcdMemoryTypeNonExistent)
     \<and> (Op = GCD_REMOVE_IO_OPERATION \<longrightarrow> GcdIoType v \<noteq> EfiGcdIoTypeNonExistent)
     \<and> (Op \<in> {GCD_ADD_MEMORY_OPERATION, GCD_ADD_IO_OPERATION, GCD_REMOVE_MEMORY_OPERATION, GCD_REMOVE_IO_OPERATION}
          \<longrightarrow> ImageHandle v = NULL)
     \<and> (Op \<in> {GCD_FREE_MEMORY_OPERATION, GCD_FREE_IO_OPERATION} \<longrightarrow> ImageHandle v \<noteq> NULL)
     \<and> (Op = GCD_SET_ATTRIBUTES_MEMORY_OPERATION \<longrightarrow> Attr AND NOT (Capabilities v) = 0
          \<and> (Attr AND EFI_MEMORY_RUNTIME = 0 \<or> page_aligned B \<and> page_aligned L))
     \<and> (Op = GCD_SET_CAPABILITIES_MEMORY_OPERATION \<longrightarrow> Attributes v AND NOT Caps = 0 \<and> page_aligned B \<and> page_aligned L)"

definition convert_allowed ::
  "UINT64 \<Rightarrow> UINT64 \<Rightarrow> UINT64 \<Rightarrow> UINT64 \<Rightarrow> UINT64 \<Rightarrow> EFI_GCD_MAP_ENTRY list \<Rightarrow> bool" where
  "convert_allowed Op B L Caps Attr es \<longleftrightarrow>
     (\<forall>a v. B \<le> a \<longrightarrow> a \<le> B + L - 1 \<longrightarrow> space_at es a = Some v \<longrightarrow> admits Op B L Caps Attr v)"

lemma word_subset_iff: "x AND y = y \<longleftrightarrow> y AND NOT x = 0" for x y :: "'w::len word"
  by (auto simp: bit_eq_iff bit_simps)

lemma ConvertCheck_admits: "ConvertCheck Op B L Caps Attr v = EFI_SUCCESS \<longleftrightarrow> admits Op B L Caps Attr v"
  by (auto simp: ConvertCheck_def admits_def page_aligned_def word_subset_iff)

lemma convert_allowed_check:
  "convert_allowed Op B L Caps Attr es \<longleftrightarrow>
     (\<forall>a v. B \<le> a \<longrightarrow> a \<le> B + L - 1 \<longrightarrow> space_at es a = Some v \<longrightarrow> ConvertCheck Op B L Caps Attr v = EFI_SUCCESS)"
  by (simp add: convert_allowed_def ConvertCheck_admits)

text \<open>
  What an operation makes of the space at one address, member by member; for \<open>SET_ATTRIBUTES\<close> in the case that the
  attributes include CPU attributes.
\<close>

definition convert_space :: "UINT64 \<Rightarrow> UINT32 \<Rightarrow> UINT32 \<Rightarrow> UINT64 \<Rightarrow> UINT64 \<Rightarrow> EFI_GCD_MAP_ENTRY \<Rightarrow> EFI_GCD_MAP_ENTRY" where
  "convert_space Op Mt It Caps Attr v = v\<lparr>
     Capabilities := (if Op = GCD_ADD_MEMORY_OPERATION
                      then Caps OR EFI_MEMORY_RUNTIME OR (if Mt = EfiGcdMemoryTypeMemoryMappedIo then EFI_MEMORY_PORT_IO else 0)
                      else if Op = GCD_REMOVE_MEMORY_OPERATION then 0
                      else if Op = GCD_SET_CAPABILITIES_MEMORY_OPERATION then Caps else Capabilities v),
     Attributes := (if Op = GCD_SET_ATTRIBUTES_MEMORY_OPERATION then Attr else Attributes v),
     GcdMemoryType := (if Op = GCD_ADD_MEMORY_OPERATION then Mt
                       else if Op = GCD_REMOVE_MEMORY_OPERATION then EfiGcdMemoryTypeNonExistent else GcdMemoryType v),
     GcdIoType := (if Op = GCD_ADD_IO_OPERATION then It
                   else if Op = GCD_REMOVE_IO_OPERATION then EfiGcdIoTypeNonExistent else GcdIoType v),
     ImageHandle := (if Op \<in> {GCD_FREE_MEMORY_OPERATION, GCD_FREE_IO_OPERATION} then NULL else ImageHandle v),
     DeviceHandle := (if Op \<in> {GCD_FREE_MEMORY_OPERATION, GCD_FREE_IO_OPERATION} then NULL else DeviceHandle v)\<rparr>"

lemma convert_space_update: "convert_space Op Mt It Caps Attr v = snd (ConvertUpdate Op Mt It Caps 1 Attr v)"
  by (rule EFI_GCD_MAP_ENTRY.equality) (simp_all add: convert_space_def ConvertUpdate_def or.assoc)

text \<open>
  The change a successful operation makes to what the map says: nothing outside the range; inside, every
  address is converted. Setting attributes without CPU attributes is left open inside the range.
\<close>

definition converted :: "UINT64 \<Rightarrow> UINT32 \<Rightarrow> UINT32 \<Rightarrow> UINT64 \<Rightarrow> UINT64 \<Rightarrow> UINT64 \<Rightarrow> UINT64
    \<Rightarrow> EFI_GCD_MAP_ENTRY list \<Rightarrow> EFI_GCD_MAP_ENTRY list \<Rightarrow> bool" where
  "converted Op Mt It B L Caps Attr es ds \<longleftrightarrow>
     (\<forall>a. \<not> (B \<le> a \<and> a \<le> B + L - 1) \<longrightarrow> space_at ds a = space_at es a)
     \<and> (Op = GCD_SET_ATTRIBUTES_MEMORY_OPERATION \<and> ConverToCpuArchAttributes Attr = 0 \<or>
        (\<forall>a. B \<le> a \<longrightarrow> a \<le> B + L - 1 \<longrightarrow>
           space_at ds a = map_option (convert_space Op Mt It Caps Attr) (space_at es a)))"

lemma ConvertCheck_space_of [simp]:
  "ConvertCheck Op B L Caps Attr (space_of e) = ConvertCheck Op B L Caps Attr e"
  by (simp add: ConvertCheck_def space_of_def)

lemma ConvertUpdate_keeps:
  "Signature (snd (ConvertUpdate Op Mt It Caps c a e)) = Signature e"
  "BaseAddress (snd (ConvertUpdate Op Mt It Caps c a e)) = BaseAddress e"
  "EndAddress (snd (ConvertUpdate Op Mt It Caps c a e)) = EndAddress e"
  by (simp_all add: ConvertUpdate_def Let_def)

lemma ConvertUpdate_space:
  "space_of (snd (ConvertUpdate Op Mt It Caps c a e)) = snd (ConvertUpdate Op Mt It Caps c a (space_of e))"
  by (simp add: ConvertUpdate_def space_of_def Let_def)

lemma ConvertUpdate_uniform:
  assumes "Op = GCD_SET_ATTRIBUTES_MEMORY_OPERATION \<longrightarrow> c \<noteq> 0"
  shows "ConvertUpdate Op Mt It Caps c a e = (a, convert_space Op Mt It Caps a e)"
  using assms by (simp add: ConvertUpdate_def convert_space_update Let_def)

lemma find_zip_None:
  assumes "length ps = length es"
  shows "find (\<lambda>(p, e). P e) (zip ps es) = None \<longleftrightarrow> (\<forall>e\<in>set es. \<not> P e)"
  using assms by (induction ps es rule: list_induct2) auto

lemma ConvertLocked_spec:
  assumes g: "gcd_map s m ps es" and t: "tiles 0 hi es" and ok: "gcd_pool_ok s"
    and fit: "fits (PcdMaximumLinkedListLength s) (length ps + 3)"
    and L: "L \<noteq> 0" and wrap: "unat B + unat L \<le> 2 ^ 64"
  shows "\<exists>st s' ps' es'. ConvertLocked Sma Op Mt It B L Caps Attr m s = Some (st, s')
    \<and> gcd_map s' m ps' es' \<and> tiles 0 hi es' \<and> length ps' \<le> length ps + 2
    \<and> gcd_step (set (m # ps) \<union> set (take 2 (Pool s))) s s'
    \<and> (st = EFI_SUCCESS \<longleftrightarrow> unat B + unat L \<le> hi \<and> convert_allowed Op B L Caps Attr es
          \<and> 2 \<le> length (Pool s) \<and> ConvertCpuStatus Sma (gCpu s) Op B L Attr = EFI_SUCCESS)
    \<and> (if st = EFI_SUCCESS then converted Op Mt It B L Caps Attr es es' else es' = es)"
proof (cases "unat B + unat L \<le> hi")
  case False
  then obtain st where "CoreSearchGcdMapEntry B L m s = Some (EFI_NOT_FOUND, st, NULL)"
    using CoreSearchGcdMapEntry_not_found [OF g t L _ _ wrap] by auto
  then have "ConvertLocked Sma Op Mt It B L Caps Attr m s = Some (EFI_UNSUPPORTED, s)"
    by (simp add: ConvertLocked_def)
  then show ?thesis using g t False
    by (intro exI [of _ EFI_UNSUPPORTED] exI [of _ s] exI [of _ ps] exI [of _ es]) simp
next
  case True
  obtain A S D eA eS eD where f: "ps = A @ S @ D" "es = eA @ eS @ eD" "length A = length eA"
    "length S = length eS" "S \<noteq> []" "holds B (hd eS)" "holds (B + L - 1) (last eS)"
    "CoreSearchGcdMapEntry B L m s = Some (EFI_SUCCESS, hd S, last S)"
    by (rule CoreSearchGcdMapEntry_found [OF g t L le0 True])
  note g' = g [unfolded f(1,2)] and t' = t [unfolded f(2)]
  have neS: "eS \<noteq> []" using f(4,5) by auto
  have nn: "hd S \<noteq> NULL" "last S \<noteq> NULL"
  proof -
    have "ring (GcdLinks s) (m # A @ S @ D)" using g' by (simp add: gcd_map_def)
    then show "hd S \<noteq> NULL" "last S \<noteq> NULL" using ring_not_NULL f(5) by auto
  qed
  have "unat L \<noteq> 0" using L by (simp add: unat_eq_zero)
  then have Bx: "B \<le> B + L - 1" using unat_last [OF L wrap] by (simp add: word_le_nat_alt)
  let ?C = "ConvertCheck Op B L Caps Attr"
  have allow: "(\<forall>e\<in>set eS. ?C e = EFI_SUCCESS) \<longleftrightarrow> convert_allowed Op B L Caps Attr es"
    using stretch_addresses [OF t' neS f(6,7) Bx, of "\<lambda>v. ?C v = EFI_SUCCESS"]
    by (simp add: convert_allowed_check f(2))
  note chk = CheckLoop_stretch [OF g' f(3-5), of ?C]
  have chk0: "find (\<lambda>(p, e). EFI_ERROR (?C e)) (zip S eS) = None \<longleftrightarrow> convert_allowed Op B L Caps Attr es"
    using find_zip_None [OF f(4), of "\<lambda>e. EFI_ERROR (?C e)"] allow by (simp add: not_EFI_ERROR_iff)
  show ?thesis
  proof (cases "convert_allowed Op B L Caps Attr es")
    case False
    then obtain p e where pe: "find (\<lambda>(p, e). EFI_ERROR (?C e)) (zip S eS) = Some (p, e)"
      using chk0 by auto
    then have err: "EFI_ERROR (?C e)" by (auto simp: find_Some_iff)
    then have "ConvertLocked Sma Op Mt It B L Caps Attr m s = Some (?C e, s)"
      using f(8) nn chk pe by (simp add: ConvertLocked_def)
    then show ?thesis using g t False err
      by (intro exI [of _ "?C e"] exI [of _ s] exI [of _ ps] exI [of _ es]) (auto simp: EFI_ERROR_def)
  next
    case allowed: True
    then have chkS: "CheckLoop ?C (hd S) (last S) s = Some (EFI_SUCCESS, hd (D @ [m]))"
      using chk chk0 by simp
    have r: "ring (GcdLinks s) (m # ps)" using g by (simp add: gcd_map_def)
    show ?thesis
    proof (cases "2 \<le> length (Pool s)")
      case False
      then obtain T Bo where "CoreAllocateGcdMapEntry s = (EFI_OUT_OF_RESOURCES, T, Bo, s)"
        using CoreAllocateGcdMapEntry_cases [OF ok r] by auto
      then have "ConvertLocked Sma Op Mt It B L Caps Attr m s = Some (EFI_OUT_OF_RESOURCES, s)"
        using f(8) nn chkS by (simp add: ConvertLocked_def)
      then show ?thesis using g t False
        by (intro exI [of _ EFI_OUT_OF_RESOURCES] exI [of _ s] exI [of _ ps] exI [of _ es]) simp
    next
      case pool: True
      then obtain T Bo s1 where al: "CoreAllocateGcdMapEntry s = (EFI_SUCCESS, T, Bo, s1)"
        using CoreAllocateGcdMapEntry_cases [OF ok r] by auto
      let ?c = "if Op = GCD_SET_ATTRIBUTES_MEMORY_OPERATION then ConverToCpuArchAttributes Attr else 0"
      let ?U = "ConvertUpdate Op Mt It Caps ?c"
      have fit': "fits (PcdMaximumLinkedListLength s) (length (A @ S @ D) + 3)" using fit f(1) by simp
      note ac = allocate_and_change [where U = ?U and a = Attr,
          OF g' f(3-5) L ok fit' t' f(6,7) Bx al ConvertUpdate_keeps]
      have cpu: "gCpu s1 = gCpu s" using ac gcd_step_simps(5) by blast
      let ?st = "ConvertCpuStatus Sma (gCpu s) Op B L Attr"
      show ?thesis
      proof (cases "?st = EFI_SUCCESS")
        case False
        then have "EFI_ERROR ?st" by (simp add: EFI_ERROR_def)
        then have "ConvertLocked Sma Op Mt It B L Caps Attr m s = Some (?st, FreeEntry Bo (FreeEntry T s1))"
          using f(8) nn chkS al ac cpu by (simp add: ConvertLocked_def)
        moreover have "gcd_step (set (m # ps) \<union> set (take 2 (Pool s))) s (FreeEntry Bo (FreeEntry T s1))"
          using ac by (blast intro: gcd_step_trans [OF _ gcd_step_refl])
        moreover have "gcd_map (FreeEntry Bo (FreeEntry T s1)) m ps es" using ac f(1,2) by simp
        ultimately show ?thesis using t False
          by (intro exI [of _ ?st] exI [of _ "FreeEntry Bo (FreeEntry T s1)"] exI [of _ ps] exI [of _ es]) simp
      next
        case cpuok: True
        obtain s2 s' ps' es' where c: "InsertLoop ?U B L T Bo Attr (hd S) (last S) s1 = Some s2"
          "CoreCleanupGcdMapEntry T Bo (hd S) (last S) m s2 = Some (EFI_SUCCESS, s')"
          "gcd_map s' m ps' es'" "length ps' \<le> length (A @ S @ D) + 2"
          "gcd_step (set (m # A @ S @ D) \<union> set (take 2 (Pool s))) s s'" "tiles 0 hi es'"
          "\<forall>v. space_at es' v = (if B \<le> v \<and> v \<le> B + L - 1 then space_at (changed ?U Attr B L eS) v
              else space_at (eA @ eS @ eD) v)"
          using ac by blast
        have "ConvertLocked Sma Op Mt It B L Caps Attr m s = Some (EFI_SUCCESS, s')"
          using f(8) nn chkS al ac cpu cpuok c(1,2) by (simp add: ConvertLocked_def)
        moreover have "space_at (changed ?U Attr B L eS) v =
            map_option (convert_space Op Mt It Caps Attr) (space_at (eA @ eS @ eD) v)"
          if "B \<le> v" "v \<le> B + L - 1" and uni: "Op = GCD_SET_ATTRIBUTES_MEMORY_OPERATION \<longrightarrow> ConverToCpuArchAttributes Attr \<noteq> 0" for v
        proof (rule changed_uniform [OF t' neS f(6,7) Bx])
          show "?U Attr e = (Attr, convert_space Op Mt It Caps Attr e)" for e
            using uni by (intro ConvertUpdate_uniform) simp
        qed (use that in \<open>simp_all add: convert_space_update ConvertUpdate_keeps ConvertUpdate_space\<close>)
        then have "converted Op Mt It B L Caps Attr es es'" unfolding converted_def f(2) c(7) [rule_format] by auto
        ultimately show ?thesis using c(3-6) True allowed pool cpuok f(1)
          by (intro exI [of _ EFI_SUCCESS] exI [of _ s'] exI [of _ ps'] exI [of _ es']) simp
      qed
    qed
  qed
qed

end
