(* ===== verification/Gcd_Services.thy ===== *)
theory Gcd_Services
  imports Gcd_Correct
begin

text \<open>
  The services of the Global Coherency Domain as a whole: each acquires the lock of its map, changes the
  map, releases the lock. The state at the moment the lock has been released and the task priority level
  is about to be restored is described completely, so that nothing is assumed about the notification
  functions that restoring the level may run.
\<close>

section \<open>Both maps\<close>

lemma chain_closed:
  assumes "chain h (x # ys)" and "x \<in> Y" and "\<And>y z. y \<in> Y \<Longrightarrow> GetForwardLink h y = Some z \<Longrightarrow> z \<in> Y"
  shows "set ys \<subseteq> Y"
  using assms(1,2)
proof (induction ys arbitrary: x)
  case (Cons y ys)
  then have "y \<in> Y" using assms(3) [of x y] by (simp add: linked_def)
  then show ?case using Cons.IH [of y] Cons.prems(1) by simp
qed simp

lemma ring_closed:
  assumes "ring h ns" and "y \<in> set ns" and "GetForwardLink h y = Some z"
  shows "z \<in> set ns"
proof -
  obtain xs ys where ns: "ns = xs @ y # ys" using assms(2) by (meson split_list)
  then have "z = hd (ys @ xs @ [y])" using ring_next [of h xs y ys] assms(1,3) by simp
  then show ?thesis using ns by (cases ys; cases xs) auto
qed

text \<open>Two rings of one heap that share a node are the same ring.\<close>

lemma rings_meet:
  assumes "ring h ns" and "ring h ms" and "x \<in> set ns" and "x \<in> set ms"
  shows "set ns \<subseteq> set ms"
proof -
  obtain xs ys where ns: "ns = xs @ x # ys" using assms(3) by (meson split_list)
  then have "ring h (x # ys @ xs)" using ring_rotate [of h xs "x # ys"] assms(1) by simp
  then have "chain h (x # (ys @ xs) @ [x])" by (simp add: ring_def)
  then have "set ((ys @ xs) @ [x]) \<subseteq> set ms"
    by (rule chain_closed) (use assms(4) ring_closed [OF assms(2)] in blast)+
  then show ?thesis using ns by auto
qed

text \<open>
  The map with head \<open>m\<close> has the entries \<open>es\<close> and covers the addresses below \<open>h\<close>; the same for the other
  map; the two have no entry in common, and free memory is not in use.
\<close>

definition gcd_wf :: "'a GCD_STATE_scheme \<Rightarrow> ptr \<Rightarrow> nat \<Rightarrow> EFI_GCD_MAP_ENTRY list \<Rightarrow> ptr \<Rightarrow> nat
    \<Rightarrow> EFI_GCD_MAP_ENTRY list \<Rightarrow> bool" where
  "gcd_wf s m h es m' h' es' \<longleftrightarrow>
     (\<exists>ps ps'. gcd_map s m ps es \<and> gcd_map s m' ps' es' \<and> set (m # ps) \<inter> set (m' # ps') = {})
     \<and> tiles 0 h es \<and> tiles 0 h' es' \<and> gcd_pool_ok s"

lemma gcd_wf_sym: "gcd_wf s m h es m' h' es' \<longleftrightarrow> gcd_wf s m' h' es' m h es"
  unfolding gcd_wf_def by blast

lemma gcd_wf_step:
  assumes "gcd_map s m ps es" and "gcd_map s m' ps' es'" and "set (m # ps) \<inter> set (m' # ps') = {}"
    and "tiles 0 h' es'" and ok: "gcd_pool_ok s"
    and st: "gcd_step (set (m # ps) \<union> set (take 2 (Pool s))) s s1"
    and "gcd_map s1 m qs ds" and "tiles 0 h ds"
  shows "gcd_wf s1 m h ds m' h' es'"
proof -
  have "p \<notin> set (Pool s)" if "p \<in> set (m' # ps')" for p
    using ring_mapped [of "GcdLinks s" "m' # ps'" p] that assms(2) ok by (auto simp: gcd_map_def gcd_pool_ok_def)
  then have "(set (m # ps) \<union> set (take 2 (Pool s))) \<inter> set (m' # ps') = {}"
    using assms(3) by (meson disjoint_iff Un_iff in_set_takeD)
  then have g': "gcd_map s1 m' ps' es'" by (rule gcd_map_step [OF assms(2) st])
  have "set (m # qs) \<inter> set (m' # ps') = {}"
  proof (rule ccontr)
    assume "set (m # qs) \<inter> set (m' # ps') \<noteq> {}"
    then have "set (m # qs) \<subseteq> set (m' # ps')"
      using rings_meet [of "GcdLinks s1" "m # qs" "m' # ps'"] assms(7) g' by (auto simp: gcd_map_def)
    then show False using assms(3) by auto
  qed
  moreover have "gcd_pool_ok s1" using st ok unfolding gcd_step_def by blast
  ultimately show ?thesis unfolding gcd_wf_def using assms(4,7,8) g' by blast
qed

lemma gcd_wf_cong:
  assumes "GcdLinks s' = GcdLinks s" and "GcdEntries s' = GcdEntries s" and "Pool s' = Pool s"
  shows "gcd_wf s' m h es m' h' es' = gcd_wf s m h es m' h' es'"
proof -
  have "CR p s' = CR p s" for p using assms(2) by (simp add: CR_def)
  then have "gcd_map s' n ps ds = gcd_map s n ps ds" for n ps ds using assms(1) by (simp add: gcd_map_def)
  then show ?thesis using assms by (simp add: gcd_wf_def gcd_pool_ok_def)
qed

section \<open>Operations under a lock\<close>

definition lock_of :: "UINT64 \<Rightarrow> lock_id" where
  "lock_of Op = (if Op AND GCD_MEMORY_SPACE_OPERATION \<noteq> 0 then mGcdMemorySpaceLock else mGcdIoSpaceLock)"

definition map_of_op :: "UINT64 \<Rightarrow> ptr" where
  "map_of_op Op = (if Op AND GCD_MEMORY_SPACE_OPERATION \<noteq> 0 then mGcdMemorySpaceMap else mGcdIoSpaceMap)"

definition one_map :: "UINT64 \<Rightarrow> bool" where
  "one_map Op \<longleftrightarrow> (Op AND GCD_MEMORY_SPACE_OPERATION \<noteq> 0) = (Op AND GCD_IO_SPACE_OPERATION = 0)"

text \<open>The state in which the level is restored: the lock is free again.\<close>

definition released :: "lock_id \<Rightarrow> 'a DXE_CORE_scheme \<Rightarrow> 'a DXE_CORE_scheme" where
  "released l s = s\<lparr>Locks := (Locks s)(l := (Locks s l)\<lparr>LockState := EfiLockReleased\<rparr>)\<rparr>"

lemma LockMap_eq:
  assumes "one_map Op"
  shows "LockMap Op s = (if lock_free (lock_of Op) s then Some (map_of_op Op, acquired (lock_of Op) s) else None)"
  using assms by (auto simp: LockMap_def one_map_def lock_of_def map_of_op_def CoreAcquireGcdMemoryLock_def
      CoreAcquireGcdIoLock_def CoreAcquireLock_eq)

lemma UnlockMap_eq:
  assumes "one_map Op" and "LockState (Locks s (lock_of Op)) = EfiLockAcquired"
  shows "UnlockMap R Op s = R (OwnerTpl (Locks s (lock_of Op))) (released (lock_of Op) s)"
  using assms by (cases "Op AND GCD_MEMORY_SPACE_OPERATION = 0")
    (auto simp: UnlockMap_def one_map_def lock_of_def released_def CoreReleaseGcdMemoryLock_def
      CoreReleaseGcdIoLock_def CoreReleaseLock_eq)

lemma gcd_wf_locks:
  "gcd_wf (acquired l s) m h es m' h' es' = gcd_wf s m h es m' h' es'"
  "gcd_wf (released l s) m h es m' h' es' = gcd_wf s m h es m' h' es'"
  by (rule gcd_wf_cong; simp add: acquired_def released_def)+

text \<open>What a service leaves behind apart from the map: the lock is free, its level remembered.\<close>

definition lock_passed :: "lock_id \<Rightarrow> 'a GCD_STATE_scheme \<Rightarrow> 'a GCD_STATE_scheme \<Rightarrow> bool" where
  "lock_passed l s s' \<longleftrightarrow>
     Locks s' = (Locks s)(l := (Locks s l)\<lparr>OwnerTpl := gEfiCurrentTpl s\<rparr>)
     \<and> gEfiCurrentTpl s' = LockTpl (Locks s l) \<and> gCpu s' = gCpu s \<and> gSmmBase2 s' = gSmmBase2 s
     \<and> PcdVerifyNodeInList s' = PcdVerifyNodeInList s
     \<and> PcdMaximumLinkedListLength s' = PcdMaximumLinkedListLength s \<and> GCD_STATE.more s' = GCD_STATE.more s"

lemma lock_passed_released:
  assumes "lock_free l s" and "gcd_step X (acquired l s) s'"
  shows "lock_passed l s (released l s')" "LockState (Locks s' l) = EfiLockAcquired"
    "OwnerTpl (Locks s' l) = gEfiCurrentTpl s"
proof -
  note st = gcd_step_simps [OF assms(2)]
  have more: "GCD_STATE.more (acquired l s) = GCD_STATE.more s" by (simp add: acquired_def)
  have "LockState (Locks s l) = EfiLockReleased" using assms(1) by (simp add: lock_free_def)
  then show "lock_passed l s (released l s')"
    by (auto simp: lock_passed_def released_def st more acquired_def intro!: EFI_LOCK.equality)
  show "LockState (Locks s' l) = EfiLockAcquired" "OwnerTpl (Locks s' l) = gEfiCurrentTpl s" by (simp_all add: st)
qed

lemma bind_return_pair: "Option.bind r (\<lambda>s. Some (st, s)) = map_option (Pair st) r"
  by (cases r) simp_all

section \<open>Converting\<close>

lemma CoreConvertSpace_locked:
  assumes one: "one_map Op" and lock: "lock_free (lock_of Op) s"
    and wf: "gcd_wf s (map_of_op Op) h es m' h' es'"
    and fit: "fits (PcdMaximumLinkedListLength s) (length es + 3)"
    and L: "L \<noteq> 0" and wrap: "unat B + unat L \<le> 2 ^ 64"
  shows "\<exists>st s1 ds. CoreConvertSpace R Sma Op Mt It B L Caps Attr s = map_option (Pair st) (R (gEfiCurrentTpl s) s1)
    \<and> gcd_wf s1 (map_of_op Op) h ds m' h' es' \<and> lock_passed (lock_of Op) s s1
    \<and> (st = EFI_SUCCESS \<longleftrightarrow> unat B + unat L \<le> h \<and> convert_allowed Op B L Caps Attr es
          \<and> 2 \<le> length (Pool s) \<and> ConvertCpuStatus Sma (gCpu s) Op B L Attr = EFI_SUCCESS)
    \<and> (if st = EFI_SUCCESS then converted Op Mt It B L Caps Attr es ds else ds = es)"
proof -
  let ?l = "lock_of Op" and ?m = "map_of_op Op"
  let ?s = "acquired ?l s"
  have wf': "gcd_wf ?s ?m h es m' h' es'" using wf by (simp add: gcd_wf_locks)
  then obtain ps ps' where g: "gcd_map ?s ?m ps es" "gcd_map ?s m' ps' es'"
    "set (?m # ps) \<inter> set (m' # ps') = {}" and t: "tiles 0 h es" "tiles 0 h' es'" and ok: "gcd_pool_ok ?s"
    unfolding gcd_wf_def by blast
  have fit': "fits (PcdMaximumLinkedListLength ?s) (length ps + 3)"
    using fit gcd_map_length [OF g(1)] by simp
  obtain st s' qs ds where c: "ConvertLocked Sma Op Mt It B L Caps Attr ?m ?s = Some (st, s')"
    "gcd_map s' ?m qs ds" "tiles 0 h ds" "gcd_step (set (?m # ps) \<union> set (take 2 (Pool ?s))) ?s s'"
    "st = EFI_SUCCESS \<longleftrightarrow> unat B + unat L \<le> h \<and> convert_allowed Op B L Caps Attr es
          \<and> 2 \<le> length (Pool ?s) \<and> ConvertCpuStatus Sma (gCpu ?s) Op B L Attr = EFI_SUCCESS"
    "if st = EFI_SUCCESS then converted Op Mt It B L Caps Attr es ds else ds = es"
    using ConvertLocked_spec [OF g(1) t(1) ok fit' L wrap, of Sma Op Mt It Caps Attr] by blast
  note rel = lock_passed_released [OF lock c(4)]
  have "gcd_wf s' ?m h ds m' h' es'" by (rule gcd_wf_step [OF g t(2) ok c(4) c(2,3)])
  then have "gcd_wf (released ?l s') ?m h ds m' h' es'" by (simp add: gcd_wf_locks)
  moreover have "CoreConvertSpace R Sma Op Mt It B L Caps Attr s
      = map_option (Pair st) (R (gEfiCurrentTpl s) (released ?l s'))"
    using L lock c(1) rel(2,3) one
    by (simp add: CoreConvertSpace_def LockMap_eq UnlockMap_eq bind_return_pair)
  ultimately show ?thesis using c(5) [unfolded acquired_simps] c(6) rel(1) by blast
qed

end
