(* ===== verification/Word_Align.thy ===== *)
theory Word_Align
  imports Dxe_Prelude
begin

unbundle bit_operations_syntax

text \<open>
  Rounding addresses to powers of two with masks, as the sources write it: \<open>Value & ~Mask\<close> rounds down,
  \<open>(Value + Mask) & ~Mask\<close> rounds up, \<open>Value & Mask\<close> is zero on multiples.
\<close>

lemma align_mask: "push_bit n 1 - 1 = (mask n :: UINT64)"
  by (simp add: mask_eq_exp_minus_1 push_bit_eq_mult)

lemma unat_mask_part: "unat (w AND mask n :: UINT64) = unat w mod 2 ^ n"
  by (simp flip: take_bit_eq_mask take_bit_eq_mod add: unsigned_take_bit_eq)

lemma align_down: "(w AND NOT (mask n) :: UINT64) = w - (w AND mask n)"
proof -
  have "w AND NOT (w AND mask n) = w AND NOT (mask n)" by (auto intro!: bit_eqI simp: bit_simps)
  moreover have "NOT w AND (w AND mask n) = 0" by (auto intro!: bit_eqI simp: bit_simps)
  ultimately show ?thesis using disjunctive_diff_eq_and_not [of w "w AND mask n"] by metis
qed

lemma unat_align_down: "unat (w AND NOT (mask n) :: UINT64) = unat w - unat w mod 2 ^ n"
proof -
  have "unat (w AND mask n) \<le> unat w" unfolding unat_mask_part by simp
  then have "w AND mask n \<le> w" by (simp add: word_le_nat_alt)
  then show ?thesis unfolding align_down by (simp add: unat_sub unat_mask_part)
qed

lemma aligned_iff: "w AND mask n = 0 \<longleftrightarrow> 2 ^ n dvd unat (w :: UINT64)"
  by (metis dvd_eq_mod_eq_0 unat_0 unat_eq_zero unat_mask_part)

lemma unat_align_up:
  assumes "unat (b :: UINT64) \<le> 2 ^ 63" "n < 64"
  shows "unat ((b + mask n) AND NOT (mask n)) = (unat b + (2 ^ n - 1)) div 2 ^ n * 2 ^ n"
proof -
  have m: "unat (mask n :: UINT64) = 2 ^ n - 1"
  proof -
    have "uint (mask n :: UINT64) = mask n" using assms(2) by (simp add: uint_mask_eq min_def)
    also have "\<dots> = int (2 ^ n - 1)" by (simp add: mask_eq_exp_minus_1 of_nat_diff)
    finally show ?thesis by (metis nat_int unat_eq_nat_uint)
  qed
  have p: "(2::nat) ^ n \<le> 2 ^ 63" using assms(2) by (intro power_increasing) auto
  have "unat (b + mask n) = unat b + (2 ^ n - 1)"
    using assms p by (subst unat_add_lem [THEN iffD1]) (simp_all add: m)
  then show ?thesis by (simp add: unat_align_down minus_mod_eq_div_mult)
qed

text \<open>Rounding up gives the least multiple that is not below.\<close>

lemma round_up_least:
  fixes a b x :: nat
  assumes "0 < a"
  shows "b \<le> (b + (a - 1)) div a * a" "a dvd x \<Longrightarrow> b \<le> x \<Longrightarrow> (b + (a - 1)) div a * a \<le> x"
    "(b + (a - 1)) div a * a < b + a"
proof -
  have "(b + (a - 1)) mod a < a" using assms by simp
  moreover have "(b + (a - 1)) div a * a + (b + (a - 1)) mod a = b + (a - 1)" by simp
  ultimately show "b \<le> (b + (a - 1)) div a * a" "(b + (a - 1)) div a * a < b + a" using assms by linarith+
  assume "a dvd x" "b \<le> x"
  then obtain k where k: "x = k * a" by (metis dvd_def mult.commute)
  then have "(b + (a - 1)) div a \<le> (k * a + (a - 1)) div a" using \<open>b \<le> x\<close> by (intro div_le_mono) simp
  also have "\<dots> = k" using assms by (subst div_mult_self3) simp_all
  finally show "(b + (a - 1)) div a * a \<le> x" unfolding k by (rule mult_le_mono1)
qed

lemma unat_add_no_wrap: "unat (x :: UINT64) + unat y < 2 ^ 64 \<Longrightarrow> unat (x + y) = unat x + unat y"
  by (subst unat_add_lem [THEN iffD1]) simp_all

end
