(* ===== verification/Gcd_Allocate.thy ===== *)
theory Gcd_Allocate
  imports Gcd_Services Word_Align
begin

text \<open>
  \<open>CoreAllocateSpace\<close>: the search loops end and what they select is free, aligned and below the limit; the
  search from the bottom finds the lowest such range whenever there is one; the change that follows gives
  the range to the image and touches nothing else.
\<close>

section \<open>Ranges that can be allocated\<close>

definition usable :: "(EFI_GCD_MAP_ENTRY \<Rightarrow> EFI_STATUS) \<Rightarrow> nat \<Rightarrow> UINT64 \<Rightarrow> UINT64 \<Rightarrow> EFI_GCD_MAP_ENTRY list
    \<Rightarrow> EFI_PHYSICAL_ADDRESS \<Rightarrow> bool" where
  "usable Check n L Limit es X \<longleftrightarrow>
     2 ^ n dvd unat X \<and> unat X + unat L \<le> 2 ^ 64 \<and> X + L - 1 \<le> Limit
     \<and> (\<forall>a. X \<le> a \<longrightarrow> a \<le> X + L - 1 \<longrightarrow> (\<exists>v. space_at es a = Some v \<and> Check v = EFI_SUCCESS))"

text \<open>The links \<open>p\<close> and \<open>q\<close> delimit the entries that hold the range, all of which pass the check.\<close>

definition located :: "(EFI_GCD_MAP_ENTRY \<Rightarrow> EFI_STATUS) \<Rightarrow> UINT64 \<Rightarrow> ptr list \<Rightarrow> EFI_GCD_MAP_ENTRY list
    \<Rightarrow> ptr \<Rightarrow> ptr \<Rightarrow> EFI_PHYSICAL_ADDRESS \<Rightarrow> bool" where
  "located Check L ps es p q X \<longleftrightarrow>
     (\<exists>A S D eA eS eD. ps = A @ S @ D \<and> es = eA @ eS @ eD \<and> length A = length eA \<and> length S = length eS
        \<and> S \<noteq> [] \<and> p = hd S \<and> q = last S \<and> holds X (hd eS) \<and> holds (X + L - 1) (last eS)
        \<and> (\<forall>e\<in>set eS. Check e = EFI_SUCCESS))"

lemma last_address:
  fixes X L :: UINT64
  assumes "L \<noteq> 0" and "unat X + unat L \<le> 2 ^ 64"
  shows "unat (X + L - 1) = unat X + unat L - 1" "X \<le> X + L - 1" "0 < unat L"
proof -
  show l: "0 < unat L" using assms(1) by (simp add: unat_gt_0)
  show u: "unat (X + L - 1) = unat X + unat L - 1" using assms by (rule unat_last)
  show "X \<le> X + L - 1" using u l by (simp add: word_le_nat_alt)
qed

lemma usable_end:
  assumes "usable Check n L Limit es X" and "tiles 0 hi es" and "L \<noteq> 0"
  shows "unat X + unat L \<le> hi"
proof -
  note x = last_address [of L X]
  have w: "unat X + unat L \<le> 2 ^ 64" using assms(1) by (simp add: usable_def)
  then obtain v where "space_at es (X + L - 1) = Some v" using assms(1,3) x by (auto simp: usable_def)
  then obtain e where "e \<in> set es" "holds (X + L - 1) e" using find_holds by blast
  then show ?thesis using tiles_outside [OF assms(2)] x(1,3) [OF assms(3) w] by fastforce
qed

lemma usable_check:
  assumes "usable Check n L Limit es X" and "tiles 0 hi es" and "X \<le> a" "a \<le> X + L - 1"
    and "e \<in> set es" "holds a e" and C: "\<And>e. Check (space_of e) = Check e"
  shows "Check e = EFI_SUCCESS"
proof -
  obtain v where "space_at es a = Some v" "Check v = EFI_SUCCESS" using assms(1,3,4) unfolding usable_def by blast
  then show ?thesis using tiles_space_unique [OF assms(2,5,6)] C [of e] by simp
qed

text \<open>A candidate address: searched, and every entry on the way checked.\<close>

lemma candidate:
  assumes g: "gcd_map s m ps es" and t: "tiles 0 hi es" and L: "L \<noteq> 0" and X: "unat X + unat L \<le> hi"
    and hi: "hi \<le> 2 ^ 64" and C: "\<And>e. Check (space_of e) = Check e"
  obtains
    (ok) p q x where "CoreSearchGcdMapEntry X L m s = Some (EFI_SUCCESS, p, q)" "p \<noteq> NULL" "q \<noteq> NULL"
      "CheckLoop Check p q s = Some (EFI_SUCCESS, x)" "located Check L ps es p q X"
      "\<And>a. X \<le> a \<Longrightarrow> a \<le> X + L - 1 \<Longrightarrow> \<exists>v. space_at es a = Some v \<and> Check v = EFI_SUCCESS"
  | (bad) p q P r Q eP e eQ a where "CoreSearchGcdMapEntry X L m s = Some (EFI_SUCCESS, p, q)" "p \<noteq> NULL" "q \<noteq> NULL"
      "CheckLoop Check p q s = Some (Check e, r)" "Check e \<noteq> EFI_SUCCESS" "ps = P @ r # Q" "es = eP @ e # eQ"
      "length P = length eP" "X \<le> a" "a \<le> X + L - 1" "holds a e"
proof -
  obtain A S D eA eS eD where f: "ps = A @ S @ D" "es = eA @ eS @ eD" "length A = length eA"
    "length S = length eS" "S \<noteq> []" "holds X (hd eS)" "holds (X + L - 1) (last eS)"
    "CoreSearchGcdMapEntry X L m s = Some (EFI_SUCCESS, hd S, last S)"
    by (rule CoreSearchGcdMapEntry_found [OF g t L le0 X])
  note g' = g [unfolded f(1,2)] and t' = t [unfolded f(2)]
  note la = last_address [OF L order_trans [OF X hi]]
  have neS: "eS \<noteq> []" using f(4,5) by auto
  have "ring (GcdLinks s) (m # A @ S @ D)" using g' by (simp add: gcd_map_def)
  then have nn: "hd S \<noteq> NULL" "last S \<noteq> NULL" using ring_not_NULL f(5) by auto
  note chk = CheckLoop_stretch [OF g' f(3-5), of Check]
  show ?thesis
  proof (cases "find (\<lambda>(p, e). EFI_ERROR (Check e)) (zip S eS)")
    case None
    then have all: "\<forall>e\<in>set eS. Check e = EFI_SUCCESS"
      using find_zip_None [OF f(4), of "\<lambda>e. EFI_ERROR (Check e)"] by (simp add: not_EFI_ERROR_iff)
    have loc: "located Check L ps es (hd S) (last S) X" using f all unfolding located_def by blast
    have "\<forall>a v. X \<le> a \<longrightarrow> a \<le> X + L - 1 \<longrightarrow> space_at es a = Some v \<longrightarrow> Check v = EFI_SUCCESS"
      using stretch_addresses [OF t' neS f(6,7) la(2), of "\<lambda>v. Check v = EFI_SUCCESS"] all C f(2) by simp
    moreover have "\<exists>v. space_at es a = Some v" if "a \<le> X + L - 1" for a
      using tiles_covers [OF t, of a] that la X by (auto simp: word_le_nat_alt)
    ultimately have "\<exists>v. space_at es a = Some v \<and> Check v = EFI_SUCCESS" if "X \<le> a" "a \<le> X + L - 1" for a
      using that by blast
    then show ?thesis using ok [OF f(8) nn _ loc] chk None by simp
  next
    case (Some pe)
    obtain r e where pe: "pe = (r, e)" by (cases pe)
    then obtain i where i: "i < length S" "r = S ! i" "e = eS ! i" "EFI_ERROR (Check e)"
      using Some f(4) by (auto simp: find_Some_iff)
    have S: "S = take i S @ r # drop (Suc i) S" "eS = take i eS @ e # drop (Suc i) eS"
      using i f(4) by (simp_all add: id_take_nth_drop)
    have "e \<in> set eS" using i f(4) by simp
    moreover obtain m1 m2 where "tiles m1 m2 eS" using t' by (auto simp: tiles_append)
    ultimately obtain a where a: "X \<le> a" "a \<le> X + L - 1" "holds a e"
      using stretch_meets f(6,7) la(2) by blast
    have "ps = (A @ take i S) @ r # drop (Suc i) S @ D" "es = (eA @ take i eS) @ e # drop (Suc i) eS @ eD"
      using S f(1,2) by (metis append.assoc append_Cons)+
    moreover have "length (A @ take i S) = length (eA @ take i eS)" using f(3,4) by simp
    moreover have "CheckLoop Check (hd S) (last S) s = Some (Check e, r)" using chk Some pe by simp
    moreover have "Check e \<noteq> EFI_SUCCESS" using i(4) by (auto simp: EFI_ERROR_def)
    ultimately show ?thesis using bad [OF f(8) nn] a by blast
  qed
qed

section \<open>The search from the bottom\<close>

lemma map_entry:
  assumes "gcd_map s m (P @ q # Q) (eP @ e # eQ)" and "length P = length eP"
  shows "q \<noteq> m" "CR q s = Some e" "Forward q s = Some (hd (Q @ [m]))" "Backward q s = Some (last (m # P))"
proof -
  have r: "ring (GcdLinks s) (m # P @ q # Q)" using assms(1) by (simp add: gcd_map_def)
  then show "q \<noteq> m" by (auto dest: ring_distinct)
  show "Forward q s = Some (hd (Q @ [m]))" "Backward q s = Some (last (m # P))"
    using Forward_node [OF r] Backward_node [OF r] .
  show "CR q s = Some e" using assms by (auto simp: gcd_map_def list_all2_append)
qed

lemma tiles_functional: "tiles lo x es \<Longrightarrow> tiles lo y es \<Longrightarrow> x = y"
  by (induction es arbitrary: lo) auto

lemma tiles_entry:
  assumes "tiles 0 hi (eP @ e # eQ)"
  shows "tiles 0 (unat (BaseAddress e)) eP" "tiles (Suc (unat (EndAddress e))) hi eQ"
    "unat (EndAddress e) < hi" "BaseAddress e \<le> EndAddress e"
proof -
  obtain mid where m: "tiles 0 mid eP" "tiles mid hi (e # eQ)" using assms by (auto simp: tiles_append)
  then show "tiles 0 (unat (BaseAddress e)) eP" "tiles (Suc (unat (EndAddress e))) hi eQ" "BaseAddress e \<le> EndAddress e"
    by auto
  then show "unat (EndAddress e) < hi" using tiles_le by fastforce
qed

lemma tiles_lower:
  assumes t: "tiles 0 hi es" and e: "e \<in> set es" "e' \<in> set es" and d: "space_of e \<noteq> space_of e'"
    and a: "holds a e'" and ab: "BaseAddress e \<le> a"
  shows "BaseAddress e < BaseAddress e'"
proof (rule ccontr)
  assume "\<not> BaseAddress e < BaseAddress e'"
  then have "holds (BaseAddress e) e'" using a ab by (auto simp: holds_def)
  moreover have "holds (BaseAddress e) e" using t e(1) by (metis holds_def order_refl split_list tiles_entry(4))
  ultimately show False using tiles_space_unique [OF t] e d by (metis option.inject)
qed

lemma align_up_facts:
  fixes b :: UINT64
  assumes "unat b \<le> 2 ^ 63" and "n < 64"
  shows "b \<le> (b + mask n) AND NOT (mask n)" "2 ^ n dvd unat ((b + mask n) AND NOT (mask n))"
    "2 ^ n dvd unat x \<Longrightarrow> b \<le> x \<Longrightarrow> (b + mask n) AND NOT (mask n) \<le> x"
    "unat ((b + mask n) AND NOT (mask n)) \<le> 2 ^ 63"
proof -
  note u = unat_align_up [OF assms]
  have p: "0 < (2 :: nat) ^ n" by simp
  show "b \<le> (b + mask n) AND NOT (mask n)" unfolding word_le_nat_alt u by (rule round_up_least(1) [OF p])
  show "2 ^ n dvd unat ((b + mask n) AND NOT (mask n))" unfolding u by simp
  show "(b + mask n) AND NOT (mask n) \<le> x" if "2 ^ n dvd unat x" "b \<le> x" for x
    using round_up_least(2) [OF p] that unfolding word_le_nat_alt u by blast
  have "(2 :: nat) ^ n dvd 2 ^ 63" using assms(2) by (intro le_imp_power_dvd) simp
  then show "unat ((b + mask n) AND NOT (mask n)) \<le> 2 ^ 63"
    unfolding u using round_up_least(2) [OF p] assms(1) by blast
qed

lemma search_bottom_up:
  assumes g: "gcd_map s m ps es" and t: "tiles 0 hi es" and hi: "hi \<le> 2 ^ 63"
    and L: "L \<noteq> 0" "unat L \<le> 2 ^ 63" and n: "n < 64" and C: "\<And>e. Check (space_of e) = Check e"
    and ps: "ps = P @ Q" "es = eP @ eQ" "length P = length eP" and mid: "tiles 0 mid eP"
    and inv: "\<And>X. usable Check n L Limit es X \<Longrightarrow> mid \<le> unat X"
  shows "\<exists>r B'. AllocateSearchLoop Check False (mask n) Limit L m (hd (Q @ [m])) B s = Some (r, B') \<and>
    (case r of None \<Rightarrow> \<forall>X. \<not> usable Check n L Limit es X
     | Some (p, q) \<Rightarrow> located Check L ps es p q B' \<and> usable Check n L Limit es B'
         \<and> (\<forall>X. usable Check n L Limit es X \<longrightarrow> B' \<le> X))"
  using ps mid inv
proof (induction "hi - mid" arbitrary: P Q eP eQ mid B rule: less_induct)
  case less
  note t' = t [unfolded less.prems(2)]
  have cov: "\<exists>e\<in>set es. holds X e" if "usable Check n L Limit es X" for X
    using that L(1) last_address(2) [of L X] find_holds unfolding usable_def by (metis order_refl)
  show ?case
  proof (cases Q)
    case Nil
    then have "eQ = []" using gcd_map_length [OF g] less.prems(1-3) by simp
    then have "\<not> usable Check n L Limit es X" for X
      using cov [of X] less.prems(2,4,5) tiles_outside [of 0 mid eP _ X] by fastforce
    then show ?thesis using Nil by (subst AllocateSearchLoop.simps) simp
  next
    case (Cons q Q')
    then obtain e eQ' where eQ: "eQ = e # eQ'"
      using gcd_map_length [OF g] less.prems(1-3) by (cases eQ) auto
    note en = map_entry [OF g [unfolded less.prems(1,2) Cons eQ] less.prems(3)]
    note te = tiles_entry [OF t' [unfolded eQ]]
    have mid: "mid = unat (BaseAddress e)"
    proof -
      obtain x where "tiles 0 x eP" "tiles x hi (e # eQ')" using t' eQ by (auto simp: tiles_append)
      then show ?thesis using less.prems(4) te(1) by (metis tiles_functional)
    qed
    have ees: "e \<in> set es" using less.prems(2) eQ by simp
    have lt: "hi - Suc (unat (EndAddress e)) < hi - mid" using te(3,4) mid by (simp add: word_le_nat_alt)
    show ?thesis
    proof (cases "Check e = EFI_SUCCESS")
      case False
      have "Suc (unat (EndAddress e)) \<le> unat X" if X: "usable Check n L Limit es X" for X
      proof (rule ccontr)
        assume "\<not> ?thesis"
        then have "holds X e" using less.prems(5) [OF X] mid by (simp add: holds_def word_le_nat_alt)
        then show False
          using usable_check [OF X t order_refl _ ees _ C] X L(1) last_address(2) [of L X] False by (simp add: usable_def)
      qed
      moreover have "tiles 0 (Suc (unat (EndAddress e))) (eP @ [e])" using te by (auto simp: tiles_append)
      ultimately show ?thesis
        using less.hyps [OF lt, of "P @ [q]" Q' "eP @ [e]" eQ' B] less.prems(1-3) Cons eQ False
        by (subst AllocateSearchLoop.simps) (simp add: en Let_def EFI_ERROR_def)
    next
      case True
      let ?c = "(BaseAddress e + mask n) AND NOT (mask n)"
      have "unat (BaseAddress e) \<le> 2 ^ 63" using te(3,4) hi by (simp add: word_le_nat_alt)
      note al = align_up_facts [OF this n]
      have w: "unat ?c + unat L \<le> 2 ^ 64" using al(4) L(2) by simp
      note la = last_address [OF L(1) w]
      have cX: "?c \<le> X" "unat X + unat L \<le> 2 ^ 64" "unat X + unat L \<le> hi" "X + L - 1 \<le> Limit"
        if X: "usable Check n L Limit es X" for X
      proof -
        show "unat X + unat L \<le> 2 ^ 64" "X + L - 1 \<le> Limit" using X by (simp_all add: usable_def)
        show "unat X + unat L \<le> hi" by (rule usable_end [OF X t L(1)])
        show "?c \<le> X" using al(3) [of X] X less.prems(5) [OF X] mid by (simp add: usable_def word_le_nat_alt)
      qed
      have cX': "?c + L - 1 \<le> X + L - 1" if X: "usable Check n L Limit es X" for X
        using cX(1) [OF X] la(1) last_address(1) [OF L(1) cX(2) [OF X]] by (simp add: word_le_nat_alt)
      note step = AllocateSearchLoop.simps [of Check False "mask n" Limit L m q B s]
      consider "?c + L - 1 > Limit" | "hi < unat ?c + unat L" | "?c + L - 1 \<le> Limit" "unat ?c + unat L \<le> hi"
        by (meson linorder_not_le)
      then show ?thesis
      proof cases
        case 1
        then have "\<not> usable Check n L Limit es X" for X using cX(4) cX' by (meson leD order_trans)
        then show ?thesis using step 1 True Cons by (simp add: en Let_def)
      next
        case 2
        then have "\<not> usable Check n L Limit es X" for X
          using cX(1,3) [of X] by (auto simp: word_le_nat_alt)
        moreover obtain x where "CoreSearchGcdMapEntry ?c L m s = Some (EFI_NOT_FOUND, x, NULL)"
          using CoreSearchGcdMapEntry_not_found [OF g t L(1) le0 2 w] by blast
        ultimately show ?thesis using step True Cons by (cases "?c + L - 1 > Limit") (simp_all add: en Let_def)
      next
        case 3
        have hi': "hi \<le> 2 ^ 64" using hi by simp
        from g t L(1) 3(2) hi' C show ?thesis
        proof (cases rule: candidate)
          case (ok p1 q1 x)
          then have "usable Check n L Limit es ?c" using al(2) w 3(1) by (simp add: usable_def)
          moreover have "AllocateSearchLoop Check False (mask n) Limit L m q B s = Some (Some (p1, q1), ?c)"
            using step True ok(1-4) 3(1) by (simp add: en Let_def)
          ultimately show ?thesis using ok(5) cX(1) Cons by simp
        next
          case (bad p1 q1 P2 r Q2 eP2 e2 eQ2 a)
          have e2: "e2 \<in> set es" using bad(7) by simp
          note t2 = tiles_entry [OF t [unfolded bad(7)]]
          have "BaseAddress e < BaseAddress e2"
            using tiles_lower [OF t ees e2 _ bad(11)] C [of e] C [of e2] True bad(5,9) al(1) by (metis order_trans)
          then have lt2: "hi - unat (BaseAddress e2) < hi - mid"
            using te(3,4) mid by (simp add: word_le_nat_alt word_less_nat_alt)
          have "unat (BaseAddress e2) \<le> unat X" if X: "usable Check n L Limit es X" for X
          proof (rule ccontr)
            assume "\<not> ?thesis"
            then have "X \<le> a" using bad(11) by (simp add: holds_def word_le_nat_alt)
            moreover have "a \<le> X + L - 1" using bad(10) cX' [OF X] by (rule order_trans)
            ultimately show False using usable_check [OF X t _ _ e2 bad(11) C] bad(5) by blast
          qed
          note ih = less.hyps [OF lt2 bad(6-8) t2(1) this, of ?c]
          have "AllocateSearchLoop Check False (mask n) Limit L m q B s =
              AllocateSearchLoop Check False (mask n) Limit L m r ?c s"
            using step True bad(1-5) leD [OF 3(1)] by (simp add: en Let_def EFI_ERROR_def)
          then show ?thesis using ih Cons by simp
        qed
      qed
    qed
  qed
qed

section \<open>The search from the top\<close>

lemma tiles_upper:
  assumes t: "tiles 0 hi es" and e: "e \<in> set es" "e' \<in> set es" and d: "space_of e \<noteq> space_of e'"
    and a: "holds a e'" and ab: "a \<le> EndAddress e"
  shows "EndAddress e' < EndAddress e"
proof (rule ccontr)
  assume "\<not> EndAddress e' < EndAddress e"
  then have "holds (EndAddress e) e'" using a ab by (auto simp: holds_def)
  moreover have "holds (EndAddress e) e" using t e(1) by (metis holds_def order_refl split_list tiles_entry(4))
  ultimately show False using tiles_space_unique [OF t] e d by (metis option.inject)
qed

text \<open>The candidate below the end of an entry, or below the limit.\<close>

lemma align_down_facts:
  fixes x L c :: UINT64 and n :: nat
  assumes "unat x < 2 ^ 63" and "L \<noteq> 0" and "unat L \<le> Suc (unat x)"
    and c_def: "c = (x + 1 - L) AND NOT (mask n)"
  shows "2 ^ n dvd unat c" "unat c + unat L \<le> Suc (unat x)"
proof -
  have x1: "unat (x + 1) = Suc (unat x)" using assms(1) by (subst unat_add_no_wrap) simp_all
  have "L \<le> x + 1" using assms(3) x1 by (simp add: word_le_nat_alt)
  then have "unat (x + 1 - L) = Suc (unat x) - unat L" using x1 by (simp add: unat_sub)
  then have u: "unat c = (Suc (unat x) - unat L) - (Suc (unat x) - unat L) mod 2 ^ n"
    by (simp add: c_def unat_align_down)
  show "2 ^ n dvd unat c" unfolding u by (simp add: minus_mod_eq_mult_div)
  show "unat c + unat L \<le> Suc (unat x)" unfolding u using assms(3) by simp
qed

lemma search_top_down:
  assumes g: "gcd_map s m ps es" and t: "tiles 0 hi es" and hi: "hi \<le> 2 ^ 63"
    and L: "L \<noteq> 0" "unat L \<le> 2 ^ 63" and C: "\<And>e. Check (space_of e) = Check e"
    and ps: "ps = P @ Q" "es = eP @ eQ" "length P = length eP" and mid: "tiles 0 mid eP"
  shows "\<exists>r B'. AllocateSearchLoop Check True (mask n) Limit L m (last (m # P)) B s = Some (r, B') \<and>
    (case r of None \<Rightarrow> True | Some (p, q) \<Rightarrow> located Check L ps es p q B' \<and> usable Check n L Limit es B')"
  using ps mid
proof (induction mid arbitrary: P Q eP eQ B rule: less_induct)
  case (less mid)
  show ?case
  proof (cases P rule: rev_cases)
    case Nil
    then show ?thesis by (subst AllocateSearchLoop.simps) simp
  next
    case (snoc P' q)
    then obtain eP' e where eP: "eP = eP' @ [e]" using less.prems(3) by (cases eP rule: rev_cases) auto
    have len: "length P' = length eP'" using less.prems(3) snoc eP by simp
    have ps': "ps = P' @ q # Q" "es = eP' @ e # eQ" using less.prems(1,2) snoc eP by simp_all
    note en = map_entry [OF g [unfolded ps'] len] and te = tiles_entry [OF t [unfolded ps'(2)]]
    have ees: "e \<in> set es" using ps' by simp
    have mid: "mid = Suc (unat (EndAddress e))"
      using less.prems(4) eP by (auto simp: tiles_append)
    have lt: "unat (BaseAddress e) < mid" using te(4) mid by (simp add: word_le_nat_alt)
    note ih = less.IH [OF lt ps' len te(1)]
    define x where "x = (if EndAddress e > Limit then Limit else EndAddress e)"
    define c where "c = (x + 1 - L) AND NOT (mask n)"
    note step = AllocateSearchLoop.simps [of Check True "mask n" Limit L m q B s]
    have goes: "AllocateSearchLoop Check True (mask n) Limit L m q B s =
        AllocateSearchLoop Check True (mask n) Limit L m (last (m # P')) B s"
      if "Check e \<noteq> EFI_SUCCESS \<or> Limit < BaseAddress e + L"
      using step that by (auto simp: en not_EFI_ERROR_iff)
    have e1: "unat (EndAddress e + 1) = Suc (unat (EndAddress e))"
      using te(3) hi by (subst unat_add_no_wrap) simp_all
    consider "Check e \<noteq> EFI_SUCCESS \<or> Limit < BaseAddress e + L"
      | "Check e = EFI_SUCCESS" "\<not> Limit < BaseAddress e + L" "EndAddress e + 1 < L"
      | "Check e = EFI_SUCCESS" "BaseAddress e + L \<le> Limit" "L \<le> EndAddress e + 1"
      by (meson linorder_not_le)
    then show ?thesis
    proof cases
      case 1
      then show ?thesis using goes ih [of B] snoc by simp
    next
      case 2
      then show ?thesis using step snoc by (simp add: en)
    next
      case 3
      have xe: "x \<le> EndAddress e" "x \<le> Limit" by (auto simp: x_def)
      have xs: "unat x < 2 ^ 63" using xe(1) te(3) hi by (simp add: word_le_nat_alt)
      have "unat (BaseAddress e) + unat L < 2 ^ 64"
        using te(3,4) hi L(2) by (simp add: word_le_nat_alt)
      then have "unat (BaseAddress e) + unat L \<le> unat Limit"
        using 3(2) unat_add_no_wrap by (simp add: word_le_nat_alt)
      then have "unat L \<le> Suc (unat x)" using 3(3) e1 by (simp add: x_def word_le_nat_alt)
      note al = align_down_facts [OF xs L(1) this c_def]
      have w: "unat c + unat L \<le> 2 ^ 64" using al(2) xs by simp
      note la = last_address [OF L(1) w]
      have cx: "c + L - 1 \<le> x" using la(1,3) al(2) by (simp add: word_le_nat_alt)
      have chi: "unat c + unat L \<le> hi" "hi \<le> 2 ^ 64" using al(2) xe(1) te(3) hi by (simp_all add: word_le_nat_alt)
      from g t L(1) chi C show ?thesis
      proof (cases rule: candidate)
        case (ok p1 q1 y)
        have "usable Check n L Limit es c"
          using al(1) w order_trans [OF cx xe(2)] ok(6) unfolding usable_def by blast
        moreover have "AllocateSearchLoop Check True (mask n) Limit L m q B s = Some (Some (p1, q1), c)"
          using step 3(1) leD [OF 3(2)] leD [OF 3(3)] ok(1-4) unfolding Let_def c_def x_def by (simp add: en)
        ultimately show ?thesis using ok(5) snoc by simp
      next
        case (bad p1 q1 P2 r Q2 eP2 e2 eQ2 a)
        have e2: "e2 \<in> set es" using bad(7) by simp
        note t2 = tiles_entry [OF t [unfolded bad(7)]]
        have "EndAddress e2 < EndAddress e"
          using tiles_upper [OF t ees e2 _ bad(11)] C [of e] C [of e2] 3(1) bad(5,10) cx xe(1) by (metis order_trans)
        then have lt2: "Suc (unat (EndAddress e2)) < mid" using mid by (simp add: word_less_nat_alt)
        have "tiles 0 (Suc (unat (EndAddress e2))) (eP2 @ [e2])" using t2 by (auto simp: tiles_append)
        then have ih2: "\<exists>r' B'. AllocateSearchLoop Check True (mask n) Limit L m r c s = Some (r', B') \<and>
            (case r' of None \<Rightarrow> True | Some (p, q) \<Rightarrow> located Check L ps es p q B' \<and> usable Check n L Limit es B')"
          using less.IH [OF lt2, of "P2 @ [r]" Q2 "eP2 @ [e2]" eQ2 c] bad(6-8) by simp
        have "AllocateSearchLoop Check True (mask n) Limit L m q B s =
            AllocateSearchLoop Check True (mask n) Limit L m r c s"
          using step 3(1) leD [OF 3(2)] leD [OF 3(3)] bad(1-5) unfolding Let_def c_def x_def
          by (simp add: en EFI_ERROR_def)
        then show ?thesis using ih2 snoc by simp
      qed
    qed
  qed
qed

section \<open>Selecting a range\<close>

definition top_down :: "UINT32 \<Rightarrow> bool" where
  "top_down Ty \<longleftrightarrow> Ty = EfiGcdAllocateMaxAddressSearchTopDown \<or> Ty = EfiGcdAllocateAnySearchTopDown"

definition alloc_limit :: "UINT32 \<Rightarrow> EFI_PHYSICAL_ADDRESS \<Rightarrow> EFI_GCD_MAP_ENTRY list \<Rightarrow> UINT64" where
  "alloc_limit Ty B es =
     (if Ty = EfiGcdAllocateAddress then - 1
      else if Ty = EfiGcdAllocateMaxAddressSearchBottomUp \<or> Ty = EfiGcdAllocateMaxAddressSearchTopDown then B
      else EndAddress (last es))"

text \<open>The base addresses a request may be satisfied with.\<close>

definition free_for :: "UINT64 \<Rightarrow> UINT32 \<Rightarrow> UINT32 \<Rightarrow> EFI_GCD_MAP_ENTRY \<Rightarrow> bool" where
  "free_for Op Mt It v \<longleftrightarrow> ImageHandle v = NULL
     \<and> (Op = GCD_ALLOCATE_MEMORY_OPERATION \<and> GcdMemoryType v = Mt \<or> Op = GCD_ALLOCATE_IO_OPERATION \<and> GcdIoType v = It)"

definition may_allocate :: "UINT64 \<Rightarrow> UINT32 \<Rightarrow> UINT32 \<Rightarrow> UINT32 \<Rightarrow> nat \<Rightarrow> UINT64 \<Rightarrow> EFI_PHYSICAL_ADDRESS
    \<Rightarrow> EFI_GCD_MAP_ENTRY list \<Rightarrow> EFI_PHYSICAL_ADDRESS \<Rightarrow> bool" where
  "may_allocate Op Ty Mt It n L B es X \<longleftrightarrow>
     2 ^ n dvd unat X \<and> unat X + unat L \<le> 2 ^ 64 \<and> X + L - 1 \<le> alloc_limit Ty B es
     \<and> (\<forall>a. X \<le> a \<longrightarrow> a \<le> X + L - 1 \<longrightarrow> (\<exists>v. space_at es a = Some v \<and> free_for Op Mt It v))
     \<and> (Ty = EfiGcdAllocateAddress \<longrightarrow> X = B)"

lemma CoreAllocateSpaceCheckEntry_free: "CoreAllocateSpaceCheckEntry Op Mt It v = EFI_SUCCESS \<longleftrightarrow> free_for Op Mt It v"
  by (auto simp: CoreAllocateSpaceCheckEntry_def free_for_def)

lemma may_allocate_usable:
  "may_allocate Op Ty Mt It n L B es X \<longleftrightarrow>
     usable (CoreAllocateSpaceCheckEntry Op Mt It) n L (alloc_limit Ty B es) es X
     \<and> (Ty = EfiGcdAllocateAddress \<longrightarrow> X = B)"
  by (auto simp: may_allocate_def usable_def CoreAllocateSpaceCheckEntry_free)

lemma CoreAllocateSpaceCheckEntry_space_of [simp]:
  "CoreAllocateSpaceCheckEntry Op Mt It (space_of e) = CoreAllocateSpaceCheckEntry Op Mt It e"
  by (simp add: CoreAllocateSpaceCheckEntry_def space_of_def)

lemma AllocateSelect_address:
  assumes g: "gcd_map s m ps es" and t: "tiles 0 hi es" and hi: "hi \<le> 2 ^ 63" and L: "L \<noteq> 0"
    and wrap: "unat B + unat L \<le> 2 ^ 64" and Ty: "Ty = EfiGcdAllocateAddress"
  shows "\<exists>r. AllocateSelect Op Ty Mt It n L B m s = Some (r, B) \<and>
    (case r of Inl st \<Rightarrow> st \<noteq> EFI_SUCCESS \<and> (\<forall>X. \<not> may_allocate Op Ty Mt It n L B es X)
     | Inr (p, q) \<Rightarrow> located (CoreAllocateSpaceCheckEntry Op Mt It) L ps es p q B \<and> may_allocate Op Ty Mt It n L B es B)"
proof -
  let ?C = "CoreAllocateSpaceCheckEntry Op Mt It"
  have hi': "hi \<le> 2 ^ 64" using hi by simp
  note sel = AllocateSelect_def [of Op Ty Mt It n L B m s, unfolded align_mask Let_def]
  consider "B AND mask n \<noteq> 0" | "B AND mask n = 0" "hi < unat B + unat L" | "B AND mask n = 0" "unat B + unat L \<le> hi"
    by (meson linorder_not_le)
  then show ?thesis
  proof cases
    case 1
    then have "\<not> may_allocate Op Ty Mt It n L B es X" for X
      using Ty by (auto simp: may_allocate_usable usable_def aligned_iff)
    then show ?thesis using sel 1 Ty by simp
  next
    case 2
    then have "\<not> may_allocate Op Ty Mt It n L B es X" for X
      using usable_end [OF _ t L, of ?C n _ X] Ty by (fastforce simp: may_allocate_usable)
    moreover obtain x where "CoreSearchGcdMapEntry B L m s = Some (EFI_NOT_FOUND, x, NULL)"
      using CoreSearchGcdMapEntry_not_found [OF g t L le0 2(2) wrap] by blast
    ultimately show ?thesis using sel 2 Ty by simp
  next
    case 3
    from g t L 3(2) hi' CoreAllocateSpaceCheckEntry_space_of [of Op Mt It] show ?thesis
    proof (cases rule: candidate)
      case (ok p q x)
      have "usable ?C n L (- 1) es B" unfolding usable_def using ok(6) wrap 3(1) by (simp add: aligned_iff)
      then have "may_allocate Op Ty Mt It n L B es B" using Ty by (simp add: may_allocate_usable alloc_limit_def)
      then show ?thesis using sel 3 Ty ok(1-5) by simp
    next
      case (bad p q P r Q eP e eQ a)
      have "e \<in> set es" using bad(7) by simp
      then have "\<not> may_allocate Op Ty Mt It n L B es X" for X
        using usable_check [OF _ t bad(9,10) _ bad(11), of ?C n] bad(5) Ty by (auto simp: may_allocate_usable)
      then show ?thesis using sel 3 Ty bad(1-5) by (simp add: EFI_ERROR_def)
    qed
  qed
qed

lemma AllocateSelect_search:
  assumes g: "gcd_map s m ps es" and t: "tiles 0 hi es" and hi: "hi \<le> 2 ^ 63" "es \<noteq> []"
    and L: "L \<noteq> 0" "unat L \<le> 2 ^ 63" and n: "n < 64" and Ty: "Ty \<noteq> EfiGcdAllocateAddress"
  shows "\<exists>r B'. AllocateSelect Op Ty Mt It n L B m s = Some (r, B') \<and>
    (case r of Inl st \<Rightarrow> st = EFI_NOT_FOUND \<and> (\<not> top_down Ty \<longrightarrow> (\<forall>X. \<not> may_allocate Op Ty Mt It n L B es X))
     | Inr (p, q) \<Rightarrow> located (CoreAllocateSpaceCheckEntry Op Mt It) L ps es p q B'
         \<and> may_allocate Op Ty Mt It n L B es B'
         \<and> (\<not> top_down Ty \<longrightarrow> (\<forall>X. may_allocate Op Ty Mt It n L B es X \<longrightarrow> B' \<le> X)))"
proof -
  let ?C = "CoreAllocateSpaceCheckEntry Op Mt It"
  let ?T = "Ty = EfiGcdAllocateMaxAddressSearchTopDown \<or> Ty = EfiGcdAllocateAnySearchTopDown"
  have len: "length ps = length es" using g by (rule gcd_map_length)
  obtain ps' q es' e where l: "ps = ps' @ [q]" "es = es' @ [e]" "length ps' = length es'"
    using hi(2) len by (metis append_butlast_last_id length_append_singleton length_greater_0_conv
        length_butlast)
  have r: "ring (GcdLinks s) (m # ps)" using g by (simp add: gcd_map_def)
  have bk: "Backward m s = Some q" using ring_prev [of "GcdLinks s" "[]" m ps] r l(1) by simp
  have cr: "CR q s = Some e" using map_entry(2) [of s m ps' q "[]" es' e "[]"] g l by simp
  have fw: "Forward m s = Some (hd (ps @ [m]))" using Forward_head [OF r] .
  have may: "may_allocate Op Ty Mt It n L B es X \<longleftrightarrow> usable ?C n L (alloc_limit Ty B es) es X" for X
    using Ty by (simp add: may_allocate_usable)
  have lim: "(if Ty = EfiGcdAllocateMaxAddressSearchBottomUp \<or> Ty = EfiGcdAllocateMaxAddressSearchTopDown
      then B else EndAddress e) = alloc_limit Ty B es" using Ty l(2) by (simp add: alloc_limit_def)
  note C = CoreAllocateSpaceCheckEntry_space_of [of Op Mt It]
  have sel: "AllocateSelect Op Ty Mt It n L B m s = do {
      Link \<leftarrow> (if ?T then Some q else Some (hd (ps @ [m])));
      (Found, Base) \<leftarrow> AllocateSearchLoop ?C ?T (mask n) (alloc_limit Ty B es) L m Link B s;
      Some (case Found of None \<Rightarrow> Inl EFI_NOT_FOUND | Some Links \<Rightarrow> Inr Links, Base) }"
    unfolding AllocateSelect_def Let_def align_mask using Ty by (simp add: bk cr fw lim)
  show ?thesis
  proof (cases ?T)
    case True
    then have td: "top_down Ty" by (simp add: top_down_def)
    obtain f B' where "AllocateSearchLoop ?C True (mask n) (alloc_limit Ty B es) L m (last (m # ps)) B s = Some (f, B')"
      "case f of None \<Rightarrow> True | Some (p, q) \<Rightarrow> located ?C L ps es p q B' \<and> usable ?C n L (alloc_limit Ty B es) es B'"
      using search_top_down [where Check = ?C and P = ps and Q = "[]" and eP = es and eQ = "[]" and mid = hi and n = n,
          OF g t hi(1) L C] len t by fastforce
    then show ?thesis using sel True td l(1) may by (cases f) auto
  next
    case False
    then have td: "\<not> top_down Ty" by (simp add: top_down_def)
    obtain f B' where "AllocateSearchLoop ?C False (mask n) (alloc_limit Ty B es) L m (hd (ps @ [m])) B s = Some (f, B')"
      "case f of None \<Rightarrow> \<forall>X. \<not> usable ?C n L (alloc_limit Ty B es) es X
       | Some (p, q) \<Rightarrow> located ?C L ps es p q B' \<and> usable ?C n L (alloc_limit Ty B es) es B'
           \<and> (\<forall>X. usable ?C n L (alloc_limit Ty B es) es X \<longrightarrow> B' \<le> X)"
      using search_bottom_up [where Check = ?C and P = "[]" and Q = ps and eP = "[]" and eQ = es and mid = 0,
          OF g t hi(1) L n C] by fastforce
    then show ?thesis using sel False td may by (cases f) auto
  qed
qed

text \<open>Both ways of selecting, in one statement.\<close>

lemma AllocateSelect_spec:
  assumes g: "gcd_map s m ps es" and t: "tiles 0 hi es" and hi: "hi \<le> 2 ^ 63" "es \<noteq> []"
    and L: "L \<noteq> 0" "unat L \<le> 2 ^ 63" and n: "n < 64"
    and B: "Ty = EfiGcdAllocateAddress \<longrightarrow> unat B + unat L \<le> 2 ^ 64"
  obtains
    (none) st B' where "AllocateSelect Op Ty Mt It n L B m s = Some (Inl st, B')" "st \<noteq> EFI_SUCCESS"
      "\<And>X. \<not> top_down Ty \<Longrightarrow> \<not> may_allocate Op Ty Mt It n L B es X"
  | (some) p q B' where "AllocateSelect Op Ty Mt It n L B m s = Some (Inr (p, q), B')"
      "located (CoreAllocateSpaceCheckEntry Op Mt It) L ps es p q B'" "may_allocate Op Ty Mt It n L B es B'"
      "\<And>X. \<not> top_down Ty \<Longrightarrow> may_allocate Op Ty Mt It n L B es X \<Longrightarrow> B' \<le> X"
proof (cases "Ty = EfiGcdAllocateAddress")
  case True
  then obtain r where r: "AllocateSelect Op Ty Mt It n L B m s = Some (r, B)"
    "case r of Inl st \<Rightarrow> st \<noteq> EFI_SUCCESS \<and> (\<forall>X. \<not> may_allocate Op Ty Mt It n L B es X)
     | Inr (p, q) \<Rightarrow> located (CoreAllocateSpaceCheckEntry Op Mt It) L ps es p q B \<and> may_allocate Op Ty Mt It n L B es B"
    using AllocateSelect_address [OF g t hi(1) L(1) _ True] B by blast
  have one: "X = B" if "may_allocate Op Ty Mt It n L B es X" for X
    using that True by (simp add: may_allocate_usable)
  show ?thesis
  proof (cases r)
    case (Inl st)
    then show ?thesis using none [OF r(1) [unfolded Inl]] r(2) by simp
  next
    case (Inr pq)
    obtain p q where pq: "pq = (p, q)" by (cases pq)
    show ?thesis
      by (rule some [OF r(1) [unfolded Inr pq]]) (use r(2) Inr pq one in \<open>simp_all, blast?\<close>)
  qed
next
  case False
  then obtain r B' where r: "AllocateSelect Op Ty Mt It n L B m s = Some (r, B')"
    "case r of Inl st \<Rightarrow> st = EFI_NOT_FOUND \<and> (\<not> top_down Ty \<longrightarrow> (\<forall>X. \<not> may_allocate Op Ty Mt It n L B es X))
     | Inr (p, q) \<Rightarrow> located (CoreAllocateSpaceCheckEntry Op Mt It) L ps es p q B'
         \<and> may_allocate Op Ty Mt It n L B es B'
         \<and> (\<not> top_down Ty \<longrightarrow> (\<forall>X. may_allocate Op Ty Mt It n L B es X \<longrightarrow> B' \<le> X))"
    using AllocateSelect_search [OF g t hi L n False] by blast
  show ?thesis
  proof (cases r)
    case (Inl st)
    then show ?thesis using none [OF r(1) [unfolded Inl]] r(2) by simp
  next
    case (Inr pq)
    obtain p q where pq: "pq = (p, q)" by (cases pq)
    show ?thesis by (rule some [OF r(1) [unfolded Inr pq]]) (use r(2) Inr pq in simp_all)
  qed
qed

section \<open>Giving the range to the image\<close>

definition owned :: "ptr \<Rightarrow> ptr \<Rightarrow> EFI_GCD_MAP_ENTRY \<Rightarrow> EFI_GCD_MAP_ENTRY" where
  "owned I D v = v\<lparr>ImageHandle := I, DeviceHandle := D\<rparr>"

lemma owned_keeps:
  "Signature (owned I D e) = Signature e" "BaseAddress (owned I D e) = BaseAddress e"
  "EndAddress (owned I D e) = EndAddress e" "space_of (owned I D e) = owned I D (space_of e)"
  by (simp_all add: owned_def space_of_def)

lemma AllocateLocked_spec:
  assumes g: "gcd_map s m ps es" and t: "tiles 0 hi es" and hi: "hi \<le> 2 ^ 63" "es \<noteq> []"
    and ok: "gcd_pool_ok s" and fit: "fits (PcdMaximumLinkedListLength s) (length ps + 3)"
    and L: "L \<noteq> 0" "unat L \<le> 2 ^ 63" and n: "n < 64"
    and B: "Ty = EfiGcdAllocateAddress \<longrightarrow> unat B + unat L \<le> 2 ^ 64"
  shows "\<exists>st B' s' ps' es'. AllocateLocked Op Ty Mt It n L B I D m s = Some (st, B', s')
    \<and> gcd_map s' m ps' es' \<and> tiles 0 hi es' \<and> gcd_step (set (m # ps) \<union> set (take 2 (Pool s))) s s'
    \<and> (st = EFI_SUCCESS \<longrightarrow> may_allocate Op Ty Mt It n L B es B')
    \<and> (\<not> top_down Ty \<longrightarrow> (st = EFI_SUCCESS \<longleftrightarrow> 2 \<le> length (Pool s) \<and> (\<exists>X. may_allocate Op Ty Mt It n L B es X)))
    \<and> (\<not> top_down Ty \<longrightarrow> st = EFI_SUCCESS \<longrightarrow> (\<forall>X. may_allocate Op Ty Mt It n L B es X \<longrightarrow> B' \<le> X))
    \<and> (st \<noteq> EFI_SUCCESS \<longrightarrow> es' = es)
    \<and> (\<forall>a. space_at es' a = (if st = EFI_SUCCESS \<and> B' \<le> a \<and> a \<le> B' + L - 1
          then map_option (owned I D) (space_at es a) else space_at es a))"
  using g t hi L n B
proof (cases rule: AllocateSelect_spec [where Op = Op and Mt = Mt and It = It])
  case (none st B')
  then have "AllocateLocked Op Ty Mt It n L B I D m s = Some (st, B', s)" by (simp add: AllocateLocked_def)
  then show ?thesis using none(2,3) g t
    by (intro exI [of _ st] exI [of _ B'] exI [of _ s] exI [of _ ps] exI [of _ es]) simp
next
  case (some p q B')
  let ?C = "CoreAllocateSpaceCheckEntry Op Mt It"
  obtain A S E eA eS eE where f: "ps = A @ S @ E" "es = eA @ eS @ eE" "length A = length eA"
    "length S = length eS" "S \<noteq> []" "p = hd S" "q = last S" "holds B' (hd eS)" "holds (B' + L - 1) (last eS)"
    using some(2) unfolding located_def by blast
  note g' = g [unfolded f(1,2)] and t' = t [unfolded f(2)]
  have Bx: "B' \<le> B' + L - 1"
    using some(3) last_address(2) [OF L(1)] by (simp add: may_allocate_usable usable_def)
  have neS: "eS \<noteq> []" using f(4,5) by auto
  have r: "ring (GcdLinks s) (m # ps)" using g by (simp add: gcd_map_def)
  show ?thesis
  proof (cases "2 \<le> length (Pool s)")
    case False
    then obtain T Bo where "CoreAllocateGcdMapEntry s = (EFI_OUT_OF_RESOURCES, T, Bo, s)"
      using CoreAllocateGcdMapEntry_cases [OF ok r] by auto
    then have "AllocateLocked Op Ty Mt It n L B I D m s = Some (EFI_OUT_OF_RESOURCES, B', s)"
      using some(1) by (simp add: AllocateLocked_def)
    then show ?thesis using False g t
      by (intro exI [of _ EFI_OUT_OF_RESOURCES] exI [of _ B'] exI [of _ s] exI [of _ ps] exI [of _ es]) simp
  next
    case pool: True
    then obtain T Bo s1 where al: "CoreAllocateGcdMapEntry s = (EFI_SUCCESS, T, Bo, s1)"
      using CoreAllocateGcdMapEntry_cases [OF ok r] by auto
    let ?U = "\<lambda>(a :: UINT64) e. (a, owned I D e)"
    have fit': "fits (PcdMaximumLinkedListLength s) (length (A @ S @ E) + 3)" using fit f(1) by simp
    have ac: "T \<noteq> NULL \<and> Bo \<noteq> NULL \<and> (\<exists>s2 s' ps' es'. InsertLoop ?U B' L T Bo 0 (hd S) (last S) s1 = Some s2
        \<and> CoreCleanupGcdMapEntry T Bo (hd S) (last S) m s2 = Some (EFI_SUCCESS, s')
        \<and> gcd_map s' m ps' es' \<and> gcd_step (set (m # A @ S @ E) \<union> set (take 2 (Pool s))) s s' \<and> tiles 0 hi es'
        \<and> (\<forall>v. space_at es' v = (if B' \<le> v \<and> v \<le> B' + L - 1 then space_at (changed ?U 0 B' L eS) v
              else space_at (eA @ eS @ eE) v)))"
      using allocate_and_change [where U = ?U and a = 0, OF g' f(3-5) L(1) ok fit' t' f(8,9) Bx al]
      unfolding snd_conv owned_keeps by blast
    then obtain s2 s' ps' es' where c: "T \<noteq> NULL" "Bo \<noteq> NULL" "InsertLoop ?U B' L T Bo 0 (hd S) (last S) s1 = Some s2"
      "CoreCleanupGcdMapEntry T Bo (hd S) (last S) m s2 = Some (EFI_SUCCESS, s')"
      "gcd_map s' m ps' es'" "gcd_step (set (m # A @ S @ E) \<union> set (take 2 (Pool s))) s s'" "tiles 0 hi es'"
      "\<forall>v. space_at es' v = (if B' \<le> v \<and> v \<le> B' + L - 1 then space_at (changed ?U 0 B' L eS) v
              else space_at (eA @ eS @ eE) v)"
      by blast
    have "AllocateLocked Op Ty Mt It n L B I D m s = Some (EFI_SUCCESS, B', s')"
      using some(1) al c(1-4) f(6,7) unfolding AllocateLocked_def owned_def by simp
    moreover have conv: "space_at (changed ?U 0 B' L eS) v = map_option (owned I D) (space_at (eA @ eS @ eE) v)"
      if "B' \<le> v" "v \<le> B' + L - 1" for v
      by (rule changed_uniform [OF t' neS f(8,9) Bx refl owned_keeps(2-4) that])
    have "space_at es' v = (if B' \<le> v \<and> v \<le> B' + L - 1 then map_option (owned I D) (space_at es v)
        else space_at es v)" for v
      unfolding f(2) c(8) [rule_format] by (rule if_cong, rule refl, erule conjE, erule (1) conv, rule refl)
    ultimately show ?thesis using c(5-7) pool some(3,4) f(1)
      by (intro exI [of _ EFI_SUCCESS] exI [of _ B'] exI [of _ s'] exI [of _ ps'] exI [of _ es']) auto
  qed
qed

end
