(* ===== verification/Gcd_Properties.thy ===== *)
theory Gcd_Properties
  imports Gcd_Allocate
begin

text \<open>
  What the services of the Global Coherency Domain that change a map promise, with a concrete pair of
  well-formed maps as witness.
\<close>

section \<open>Allocating\<close>

lemma CoreAllocateSpace_locked:
  assumes one: "one_map Op" and lock: "lock_free (lock_of Op) s"
    and wf: "gcd_wf s (map_of_op Op) h es m' h' es'" and h: "0 < h" "h \<le> 2 ^ 63"
    and fit: "fits (PcdMaximumLinkedListLength s) (length es + 3)"
    and par: "Ty < EfiGcdMaxAllocateType" "Mt < EfiGcdMemoryTypeMaximum" "It < EfiGcdIoTypeMaximum" "I \<noteq> NULL"
    and n: "n < 64" and L: "L \<noteq> 0" "unat L \<le> 2 ^ 63"
    and B: "Ty = EfiGcdAllocateAddress \<longrightarrow> unat B + unat L \<le> 2 ^ 64"
  shows "\<exists>st B' s1 ds. CoreAllocateSpace R Op Ty Mt It n L (Some B) I D s
        = map_option (\<lambda>s'. (st, Some B', s')) (R (gEfiCurrentTpl s) s1)
    \<and> gcd_wf s1 (map_of_op Op) h ds m' h' es' \<and> lock_passed (lock_of Op) s s1
    \<and> (st = EFI_SUCCESS \<longrightarrow> may_allocate Op Ty Mt It n L B es B')
    \<and> (\<not> top_down Ty \<longrightarrow> (st = EFI_SUCCESS \<longleftrightarrow> 2 \<le> length (Pool s) \<and> (\<exists>X. may_allocate Op Ty Mt It n L B es X)))
    \<and> (\<not> top_down Ty \<longrightarrow> st = EFI_SUCCESS \<longrightarrow> (\<forall>X. may_allocate Op Ty Mt It n L B es X \<longrightarrow> B' \<le> X))
    \<and> (st \<noteq> EFI_SUCCESS \<longrightarrow> ds = es)
    \<and> (\<forall>a. space_at ds a = (if st = EFI_SUCCESS \<and> B' \<le> a \<and> a \<le> B' + L - 1
          then map_option (owned I D) (space_at es a) else space_at es a))"
proof -
  let ?l = "lock_of Op" and ?m = "map_of_op Op"
  let ?s = "acquired ?l s"
  have "gcd_wf ?s ?m h es m' h' es'" using wf by (simp add: gcd_wf_locks)
  then obtain ps ps' where g: "gcd_map ?s ?m ps es" "gcd_map ?s m' ps' es'"
    "set (?m # ps) \<inter> set (m' # ps') = {}" and t: "tiles 0 h es" "tiles 0 h' es'" and ok: "gcd_pool_ok ?s"
    unfolding gcd_wf_def by blast
  have fit': "fits (PcdMaximumLinkedListLength ?s) (length ps + 3)" using fit gcd_map_length [OF g(1)] by simp
  have ne: "es \<noteq> []" using t(1) h(1) by auto
  obtain st B' s' qs ds where c: "AllocateLocked Op Ty Mt It n L B I D ?m ?s = Some (st, B', s')"
    "gcd_map s' ?m qs ds" "tiles 0 h ds" "gcd_step (set (?m # ps) \<union> set (take 2 (Pool ?s))) ?s s'"
    "st = EFI_SUCCESS \<longrightarrow> may_allocate Op Ty Mt It n L B es B'"
    "\<not> top_down Ty \<longrightarrow> (st = EFI_SUCCESS \<longleftrightarrow> 2 \<le> length (Pool ?s) \<and> (\<exists>X. may_allocate Op Ty Mt It n L B es X))"
    "\<not> top_down Ty \<longrightarrow> st = EFI_SUCCESS \<longrightarrow> (\<forall>X. may_allocate Op Ty Mt It n L B es X \<longrightarrow> B' \<le> X)"
    "st \<noteq> EFI_SUCCESS \<longrightarrow> ds = es"
    "\<forall>a. space_at ds a = (if st = EFI_SUCCESS \<and> B' \<le> a \<and> a \<le> B' + L - 1
          then map_option (owned I D) (space_at es a) else space_at es a)"
    using AllocateLocked_spec [OF g(1) t(1) h(2) ne ok fit' L n B, of Op Mt It I D] by blast
  note rel = lock_passed_released [OF lock c(4)]
  have "gcd_wf s' ?m h ds m' h' es'" by (rule gcd_wf_step [OF g t(2) ok c(4) c(2,3)])
  then have "gcd_wf (released ?l s') ?m h ds m' h' es'" by (simp add: gcd_wf_locks)
  moreover have "CoreAllocateSpace R Op Ty Mt It n L (Some B) I D s
      = map_option (\<lambda>s'. (st, Some B', s')) (R (gEfiCurrentTpl s) (released ?l s'))"
  proof -
    have "\<not> EfiGcdMaxAllocateType \<le> Ty" "\<not> EfiGcdMemoryTypeMaximum \<le> Mt" "\<not> EfiGcdIoTypeMaximum \<le> It" "\<not> 64 \<le> n"
      using par n by auto
    then show ?thesis using L(1) lock c(1) rel(2,3) one par(4)
      by (cases "R (gEfiCurrentTpl s) (released ?l s')") (simp_all add: CoreAllocateSpace_def LockMap_eq UnlockMap_eq)
  qed
  ultimately show ?thesis
    using c(5) c(6) [unfolded acquired_simps] c(7-9) rel(1) by blast
qed

section \<open>The state of the witnesses\<close>

definition witness_node :: "ptr \<Rightarrow> ptr \<Rightarrow> LIST_ENTRY" where
  "witness_node f b = \<lparr>ForwardLink = f, BackLink = b\<rparr>"

definition witness_entry :: "UINT64 \<Rightarrow> UINT64 \<Rightarrow> UINT64 \<Rightarrow> UINT64 \<Rightarrow> UINT32 \<Rightarrow> EFI_GCD_MAP_ENTRY" where
  "witness_entry b e c a t =
     \<lparr>Signature = EFI_GCD_MAP_SIGNATURE, BaseAddress = b, EndAddress = e, Capabilities = c, Attributes = a,
      GcdMemoryType = t, GcdIoType = 0, ImageHandle = NULL, DeviceHandle = NULL\<rparr>"

text \<open>Two memory entries and one I/O entry; four addresses are free for new entries.\<close>

definition witness_gcd :: "EFI_GCD_MAP_ENTRY \<Rightarrow> EFI_GCD_MAP_ENTRY \<Rightarrow> GCD_STATE" where
  "witness_gcd e1 e2 =
     \<lparr>gEfiCurrentTpl = TPL_APPLICATION, gCpu = True, gSmmBase2 = None, InterruptsEnabled = True, Locks = initial_lock,
      PcdVerifyNodeInList = True, PcdMaximumLinkedListLength = 0, Pool = [20, 21, 22, 23],
      GcdLinks = [1 \<mapsto> witness_node 10 11, 10 \<mapsto> witness_node 11 1, 11 \<mapsto> witness_node 1 10,
                  2 \<mapsto> witness_node 12 12, 12 \<mapsto> witness_node 2 2],
      GcdEntries = [10 \<mapsto> e1, 11 \<mapsto> e2, 12 \<mapsto> witness_entry 0 0xFFFF 0 0 0]\<rparr>"

abbreviation witness_free :: EFI_GCD_MAP_ENTRY where
  "witness_free \<equiv> witness_entry 0 0xFFFF 0x800000000000000F EFI_MEMORY_UC EfiGcdMemoryTypeSystemMemory"

abbreviation witness_absent :: EFI_GCD_MAP_ENTRY where
  "witness_absent \<equiv> witness_entry 0x10000 0xFFFFF 0 0 EfiGcdMemoryTypeNonExistent"

abbreviation witness_state :: GCD_STATE where
  "witness_state \<equiv> witness_gcd witness_free witness_absent"

definition witness_restore :: "EFI_TPL \<Rightarrow> GCD_STATE \<Rightarrow> GCD_STATE option" where
  "witness_restore t s = Some (s\<lparr>gEfiCurrentTpl := t\<rparr>)"

lemma witness_state_wf:
  "gcd_wf witness_state mGcdMemorySpaceMap 0x100000 [witness_free, witness_absent]
     mGcdIoSpaceMap 0x10000 [witness_entry 0 0xFFFF 0 0 0]"
proof -
  have "ring (GcdLinks witness_state) [1, 10, 11]" "ring (GcdLinks witness_state) [2, 12]"
    by (simp_all add: witness_gcd_def ring_def linked_def GetForwardLink_def GetBackLink_def witness_node_def)
  then have "gcd_map witness_state 1 [10, 11] [witness_free, witness_absent]"
    "gcd_map witness_state 2 [12] [witness_entry 0 0xFFFF 0 0 0]"
    by (simp_all add: gcd_map_def CR_iff witness_gcd_def witness_entry_def)
  moreover have "tiles 0 0x100000 [witness_free, witness_absent]" "tiles 0 0x10000 [witness_entry 0 0xFFFF 0 0 0]"
    by (simp_all add: witness_entry_def)
  moreover have "gcd_pool_ok witness_state" by (simp add: gcd_pool_ok_def witness_gcd_def)
  moreover have "set [1, 10, 11 :: ptr] \<inter> set [2, 12] = {}" by simp
  ultimately show ?thesis unfolding gcd_wf_def by blast
qed

lemma witness_state_simps [simp]:
  "gEfiCurrentTpl (witness_gcd e1 e2) = TPL_APPLICATION" "PcdMaximumLinkedListLength (witness_gcd e1 e2) = 0"
  "gCpu (witness_gcd e1 e2)" "Pool (witness_gcd e1 e2) = [20, 21, 22, 23]"
  "lock_free mGcdMemorySpaceLock (witness_gcd e1 e2)" "lock_free mGcdIoSpaceLock (witness_gcd e1 e2)"
  by (simp_all add: witness_gcd_def lock_free_def EFI_INITIALIZE_LOCK_VARIABLE_def)

lemma op_maps [simp]:
  "one_map GCD_ADD_MEMORY_OPERATION" "one_map GCD_ALLOCATE_MEMORY_OPERATION" "one_map GCD_FREE_MEMORY_OPERATION"
  "lock_of GCD_ADD_MEMORY_OPERATION = mGcdMemorySpaceLock" "lock_of GCD_ALLOCATE_MEMORY_OPERATION = mGcdMemorySpaceLock"
  "lock_of GCD_FREE_MEMORY_OPERATION = mGcdMemorySpaceLock"
  "map_of_op GCD_ADD_MEMORY_OPERATION = mGcdMemorySpaceMap" "map_of_op GCD_ALLOCATE_MEMORY_OPERATION = mGcdMemorySpaceMap"
  "map_of_op GCD_FREE_MEMORY_OPERATION = mGcdMemorySpaceMap"
  by (simp_all add: one_map_def lock_of_def map_of_op_def)

section \<open>Properties\<close>

text \<open>
  C2. \<open>CoreConvertSpace\<close> (the worker of adding, freeing and removing space and of setting attributes and
  capabilities) refines a change of a total map from addresses to space. On well-formed maps, a free lock
  and a range inside the 64-bit space it reaches the point where the task priority level is restored,
  without failing assertion, endless loop or access to freed memory. It succeeds if and only if the range
  lies in the map, every address of it admits the operation, work entries are available and the CPU
  protocol agrees; then exactly the addresses of the range are converted. Otherwise the map is unchanged.
  (What becomes of the attributes inside the range is left open for one case, setting attributes of which
  none concerns the CPU.)
  The map stays a gap-free list in address order, the other map is not affected and the lock is released.
\<close>

theorem CoreConvertSpace_map:
  assumes "one_map Op" and "lock_free (lock_of Op) s" and "gcd_wf s (map_of_op Op) h es m' h' es'"
    and "fits (PcdMaximumLinkedListLength s) (length es + 3)" and "L \<noteq> 0" and "unat B + unat L \<le> 2 ^ 64"
  shows "\<exists>st s1 ds. CoreConvertSpace R Sma Op Mt It B L Caps Attr s = map_option (Pair st) (R (gEfiCurrentTpl s) s1)
    \<and> gcd_wf s1 (map_of_op Op) h ds m' h' es' \<and> lock_passed (lock_of Op) s s1
    \<and> (st = EFI_SUCCESS \<longleftrightarrow> unat B + unat L \<le> h \<and> convert_allowed Op B L Caps Attr es
          \<and> 2 \<le> length (Pool s) \<and> ConvertCpuStatus Sma (gCpu s) Op B L Attr = EFI_SUCCESS)
    \<and> (if st = EFI_SUCCESS then converted Op Mt It B L Caps Attr es ds else ds = es)"
  using CoreConvertSpace_locked [OF assms, of R Sma Mt It Caps Attr] .

theorem CoreConvertSpace_map_witness:
  "\<exists>s1 ds. CoreConvertSpace witness_restore (\<lambda>_ _ _. EFI_SUCCESS) GCD_ADD_MEMORY_OPERATION EfiGcdMemoryTypeReserved 0
       0x10000 0x1000 0 0 witness_state = map_option (Pair EFI_SUCCESS) (witness_restore TPL_APPLICATION s1)
    \<and> gcd_wf s1 mGcdMemorySpaceMap 0x100000 ds mGcdIoSpaceMap 0x10000 [witness_entry 0 0xFFFF 0 0 0]
    \<and> map_option GcdMemoryType (space_at ds 0x10FFF) = Some EfiGcdMemoryTypeReserved
    \<and> map_option GcdMemoryType (space_at ds 0x11000) = Some EfiGcdMemoryTypeNonExistent"
proof -
  have "convert_allowed GCD_ADD_MEMORY_OPERATION 0x10000 0x1000 0 0 [witness_free, witness_absent]"
    by (auto simp: convert_allowed_check space_at_Cons holds_def witness_entry_def ConvertCheck_def space_of_def
        word_le_nat_alt split: if_splits)
  moreover have "one_map GCD_ADD_MEMORY_OPERATION" "lock_free (lock_of GCD_ADD_MEMORY_OPERATION) witness_state"
    "gcd_wf witness_state (map_of_op GCD_ADD_MEMORY_OPERATION) 0x100000 [witness_free, witness_absent]
       mGcdIoSpaceMap 0x10000 [witness_entry 0 0xFFFF 0 0 0]"
    "fits (PcdMaximumLinkedListLength witness_state) (length [witness_free, witness_absent] + 3)"
    "(0x1000 :: UINT64) \<noteq> 0" "unat (0x10000 :: UINT64) + unat (0x1000 :: UINT64) \<le> 2 ^ 64"
    using witness_state_wf by (simp_all add: fits_def)
  from CoreConvertSpace_map [OF this, of witness_restore "\<lambda>_ _ _. EFI_SUCCESS" EfiGcdMemoryTypeReserved 0 0 0]
  obtain st s1 ds where
    "CoreConvertSpace witness_restore (\<lambda>_ _ _. EFI_SUCCESS) GCD_ADD_MEMORY_OPERATION EfiGcdMemoryTypeReserved 0
       0x10000 0x1000 0 0 witness_state = map_option (Pair st) (witness_restore (gEfiCurrentTpl witness_state) s1)"
    "gcd_wf s1 (map_of_op GCD_ADD_MEMORY_OPERATION) 0x100000 ds mGcdIoSpaceMap 0x10000 [witness_entry 0 0xFFFF 0 0 0]"
    "st = EFI_SUCCESS \<longleftrightarrow> unat (0x10000 :: UINT64) + unat (0x1000 :: UINT64) \<le> 0x100000
       \<and> convert_allowed GCD_ADD_MEMORY_OPERATION 0x10000 0x1000 0 0 [witness_free, witness_absent]
       \<and> 2 \<le> length (Pool witness_state)
       \<and> ConvertCpuStatus (\<lambda>_ _ _. EFI_SUCCESS) (gCpu witness_state) GCD_ADD_MEMORY_OPERATION 0x10000 0x1000 0 = EFI_SUCCESS"
    "if st = EFI_SUCCESS then converted GCD_ADD_MEMORY_OPERATION EfiGcdMemoryTypeReserved 0 0x10000 0x1000 0 0
        [witness_free, witness_absent] ds else ds = [witness_free, witness_absent]"
    by blast
  ultimately show ?thesis
    by (intro exI [of _ s1] exI [of _ ds])
      (simp add: space_at_Cons holds_def witness_entry_def space_of_def convert_space_update ConvertUpdate_def
        ConvertCpuStatus_def converted_def)
qed

text \<open>
  C8. \<open>CoreAllocateSpace\<close> with valid parameters, for address spaces of at most 63 bits, returns for every kind of
  request. When it succeeds, the base address it reports is aligned, the whole range lies below the
  limit and in the map, was free and of the requested type, and now belongs to the image and device; no other
  address has changed. When it fails nothing has changed. Both maps stay well-formed and the lock is released.
\<close>

theorem CoreAllocateSpace_owns:
  assumes "one_map Op" and "lock_free (lock_of Op) s" and "gcd_wf s (map_of_op Op) h es m' h' es'"
    and "0 < h" and "h \<le> 2 ^ 63" and "fits (PcdMaximumLinkedListLength s) (length es + 3)"
    and "Ty < EfiGcdMaxAllocateType" and "Mt < EfiGcdMemoryTypeMaximum" and "It < EfiGcdIoTypeMaximum"
    and "I \<noteq> NULL" and "n < 64" and "L \<noteq> 0" and "unat L \<le> 2 ^ 63"
    and "Ty = EfiGcdAllocateAddress \<longrightarrow> unat B + unat L \<le> 2 ^ 64"
  shows "\<exists>st B' s1 ds. CoreAllocateSpace R Op Ty Mt It n L (Some B) I D s
        = map_option (\<lambda>s'. (st, Some B', s')) (R (gEfiCurrentTpl s) s1)
    \<and> gcd_wf s1 (map_of_op Op) h ds m' h' es' \<and> lock_passed (lock_of Op) s s1
    \<and> (st = EFI_SUCCESS \<longrightarrow> may_allocate Op Ty Mt It n L B es B') \<and> (st \<noteq> EFI_SUCCESS \<longrightarrow> ds = es)
    \<and> (\<forall>a. space_at ds a = (if st = EFI_SUCCESS \<and> B' \<le> a \<and> a \<le> B' + L - 1
          then map_option (owned I D) (space_at es a) else space_at es a))"
  using CoreAllocateSpace_locked [OF assms, of R D] by blast

text \<open>
  C4. Requests for a fixed address and searches from the bottom are complete: they succeed exactly when two
  work entries are available and some base address satisfies the request, and then the lowest such address is
  taken.
\<close>

theorem CoreAllocateSpace_lowest:
  assumes "one_map Op" and "lock_free (lock_of Op) s" and "gcd_wf s (map_of_op Op) h es m' h' es'"
    and "0 < h" and "h \<le> 2 ^ 63" and "fits (PcdMaximumLinkedListLength s) (length es + 3)"
    and "Ty < EfiGcdMaxAllocateType" and "Mt < EfiGcdMemoryTypeMaximum" and "It < EfiGcdIoTypeMaximum"
    and "I \<noteq> NULL" and "n < 64" and "L \<noteq> 0" and "unat L \<le> 2 ^ 63"
    and "Ty = EfiGcdAllocateAddress \<longrightarrow> unat B + unat L \<le> 2 ^ 64"
    and "\<not> top_down Ty"
  shows "\<exists>st B' s1. CoreAllocateSpace R Op Ty Mt It n L (Some B) I D s
        = map_option (\<lambda>s'. (st, Some B', s')) (R (gEfiCurrentTpl s) s1)
    \<and> (st = EFI_SUCCESS \<longleftrightarrow> 2 \<le> length (Pool s) \<and> (\<exists>X. may_allocate Op Ty Mt It n L B es X))
    \<and> (st = EFI_SUCCESS \<longrightarrow> may_allocate Op Ty Mt It n L B es B'
          \<and> (\<forall>X. may_allocate Op Ty Mt It n L B es X \<longrightarrow> B' \<le> X))"
  using CoreAllocateSpace_locked [OF assms(1-14), of R D] assms(15) by blast

lemma witness_allocate_hyps:
  "one_map GCD_ALLOCATE_MEMORY_OPERATION" "lock_free (lock_of GCD_ALLOCATE_MEMORY_OPERATION) witness_state"
  "gcd_wf witness_state (map_of_op GCD_ALLOCATE_MEMORY_OPERATION) 0x100000 [witness_free, witness_absent]
     mGcdIoSpaceMap 0x10000 [witness_entry 0 0xFFFF 0 0 0]"
  "0 < (0x100000 :: nat)" "(0x100000 :: nat) \<le> 2 ^ 63"
  "fits (PcdMaximumLinkedListLength witness_state) (length [witness_free, witness_absent] + 3)"
  "EfiGcdAllocateAnySearchTopDown < EfiGcdMaxAllocateType" "EfiGcdMemoryTypeSystemMemory < EfiGcdMemoryTypeMaximum"
  "EfiGcdIoTypeNonExistent < EfiGcdIoTypeMaximum" "7 \<noteq> NULL" "12 < (64 :: nat)"
  "(0x1000 :: UINT64) \<noteq> 0" "unat (0x1000 :: UINT64) \<le> 2 ^ 63"
  using witness_state_wf by (simp_all add: fits_def)

declare SearchLoop.simps [code] CheckLoop.simps [code] InsertLoop.simps [code] CleanupLoop.simps [code]
  AllocateSearchLoop.simps [code] SearchNode.simps [code]

theorem CoreAllocateSpace_owns_witness:
  "\<exists>s1 ds. CoreAllocateSpace witness_restore GCD_ALLOCATE_MEMORY_OPERATION EfiGcdAllocateAnySearchTopDown
       EfiGcdMemoryTypeSystemMemory EfiGcdIoTypeNonExistent 12 0x1000 (Some 0) 7 8 witness_state
       = map_option (\<lambda>s'. (EFI_SUCCESS, Some 0xF000, s')) (witness_restore TPL_APPLICATION s1)
     \<and> map_option ImageHandle (space_at ds 0xF000) = Some 7 \<and> map_option ImageHandle (space_at ds 0xEFFF) = Some NULL"
proof -
  let ?call = "CoreAllocateSpace witness_restore GCD_ALLOCATE_MEMORY_OPERATION EfiGcdAllocateAnySearchTopDown
       EfiGcdMemoryTypeSystemMemory EfiGcdIoTypeNonExistent 12 0x1000 (Some 0) 7 8 witness_state"
  have run: "map_option (\<lambda>(st, B, _). (st, B)) ?call = Some (EFI_SUCCESS, Some 0xF000)" by code_simp
  have ty: "EfiGcdAllocateAnySearchTopDown = EfiGcdAllocateAddress \<longrightarrow>
    unat (0 :: UINT64) + unat (0x1000 :: UINT64) \<le> 2 ^ 64" by simp
  from CoreAllocateSpace_owns [OF witness_allocate_hyps ty, of witness_restore 8]
  obtain st B' s1 ds where c: "?call = map_option (\<lambda>s'. (st, Some B', s')) (witness_restore (gEfiCurrentTpl witness_state) s1)"
    "\<forall>a. space_at ds a = (if st = EFI_SUCCESS \<and> B' \<le> a \<and> a \<le> B' + 0x1000 - 1
        then map_option (owned 7 8) (space_at [witness_free, witness_absent] a)
        else space_at [witness_free, witness_absent] a)" by blast
  have "st = EFI_SUCCESS" "B' = 0xF000" using run c(1) by (simp_all add: witness_restore_def)
  then show ?thesis using c
    by (intro exI [of _ s1] exI [of _ ds])
      (simp add: space_at_Cons holds_def witness_entry_def space_of_def owned_def)
qed

theorem CoreAllocateSpace_lowest_witness:
  "\<exists>st B' s1. CoreAllocateSpace witness_restore GCD_ALLOCATE_MEMORY_OPERATION EfiGcdAllocateAnySearchBottomUp
       EfiGcdMemoryTypeSystemMemory EfiGcdIoTypeNonExistent 12 0x1000 (Some 0) 7 8 witness_state
       = map_option (\<lambda>s'. (st, Some B', s')) (witness_restore TPL_APPLICATION s1)
     \<and> (st = EFI_SUCCESS) = (\<exists>X. may_allocate GCD_ALLOCATE_MEMORY_OPERATION EfiGcdAllocateAnySearchBottomUp
           EfiGcdMemoryTypeSystemMemory EfiGcdIoTypeNonExistent 12 0x1000 0 [witness_free, witness_absent] X)"
proof -
  have ty: "EfiGcdAllocateAnySearchBottomUp = EfiGcdAllocateAddress \<longrightarrow>
    unat (0 :: UINT64) + unat (0x1000 :: UINT64) \<le> 2 ^ 64" by simp
  have td: "\<not> top_down EfiGcdAllocateAnySearchBottomUp" and lt: "EfiGcdAllocateAnySearchBottomUp < EfiGcdMaxAllocateType"
    by (simp_all add: top_down_def)
  from CoreAllocateSpace_lowest [OF witness_allocate_hyps(1-6) lt witness_allocate_hyps(8-13) ty td, of witness_restore 8]
  show ?thesis unfolding witness_state_simps by (simp, blast)
qed

section \<open>Allocating and freeing\<close>

text \<open>Restoring the level when nothing is pending.\<close>

definition quiet :: "(EFI_TPL \<Rightarrow> 'a GCD_STATE_scheme \<Rightarrow> 'a GCD_STATE_scheme option) \<Rightarrow> bool" where
  "quiet R \<longleftrightarrow> (\<forall>t s. \<exists>i. R t s = Some (s\<lparr>gEfiCurrentTpl := t, InterruptsEnabled := i\<rparr>))"

lemma quiet_passed:
  assumes "quiet R" and "lock_passed l s s1" and "lock_free l s"
  shows "\<exists>s2. R (gEfiCurrentTpl s) s1 = Some s2 \<and> lock_free l s2 \<and> gEfiCurrentTpl s2 = gEfiCurrentTpl s
    \<and> PcdMaximumLinkedListLength s2 = PcdMaximumLinkedListLength s \<and> Pool s2 = Pool s1
    \<and> (\<forall>m h es m' h' es'. gcd_wf s2 m h es m' h' es' = gcd_wf s1 m h es m' h' es')"
proof -
  obtain i where R: "R (gEfiCurrentTpl s) s1 = Some (s1\<lparr>gEfiCurrentTpl := gEfiCurrentTpl s, InterruptsEnabled := i\<rparr>)"
    using assms(1) unfolding quiet_def by blast
  let ?s2 = "s1\<lparr>gEfiCurrentTpl := gEfiCurrentTpl s, InterruptsEnabled := i\<rparr>"
  have "gcd_wf ?s2 m h es m' h' es' = gcd_wf s1 m h es m' h' es'" for m h es m' h' es'
    by (rule gcd_wf_cong) simp_all
  moreover have "lock_free l ?s2" "PcdMaximumLinkedListLength ?s2 = PcdMaximumLinkedListLength s"
    using assms(2,3) by (simp_all add: lock_passed_def lock_free_def)
  ultimately show ?thesis using R by (intro exI [of _ ?s2]) simp
qed

lemma owned_free: "DeviceHandle v = NULL \<Longrightarrow> ImageHandle v = NULL \<Longrightarrow>
  convert_space GCD_FREE_MEMORY_OPERATION 0 0 0 0 (owned I D v) = v"
  by (simp add: convert_space_update ConvertUpdate_def owned_def)



end
