(* ===== verification/Gcd_Snapshot.thy ===== *)
theory Gcd_Snapshot
  imports Gcd_Properties
begin

text \<open>
  The services of the Global Coherency Domain that read a map, and the invariant that every sequence of
  service calls keeps.
\<close>

section \<open>Reading a map\<close>

lemma CountLoop_list:
  assumes "ring (GcdLinks s) (m # P @ Q)"
  shows "CountLoop m (hd (Q @ [m])) k s = Some (k + length Q)"
  using assms
proof (induction Q arbitrary: P k)
  case Nil
  then show ?case by (subst CountLoop.simps) simp
next
  case (Cons q Q)
  have "q \<noteq> m" using Cons.prems by (auto dest: ring_distinct)
  then show ?case using Cons.IH [of "P @ [q]" "k + 1"] Cons.prems Forward_node [OF Cons.prems]
    by (subst CountLoop.simps) simp
qed

lemma FillLoop_list:
  assumes "ring (GcdLinks s) (m # P @ Q)" and "list_all2 (\<lambda>p e. CR p s = Some e) Q es"
  shows "FillLoop Build m (hd (Q @ [m])) xs s = Some (xs @ map Build es)"
  using assms
proof (induction Q arbitrary: P xs es)
  case Nil
  then show ?case by (subst FillLoop.simps) simp
next
  case (Cons q Q)
  have "q \<noteq> m" using Cons.prems(1) by (auto dest: ring_distinct)
  obtain e ds where es: "es = e # ds" "CR q s = Some e" "list_all2 (\<lambda>p e. CR p s = Some e) Q ds"
    using Cons.prems(2) by (auto simp: list_all2_Cons1)
  then show ?case
    using Cons.IH [of "P @ [q]" ds "xs @ [Build e]"] Cons.prems(1) Forward_node [OF Cons.prems(1)] \<open>q \<noteq> m\<close>
    by (subst FillLoop.simps) simp
qed

lemma CoreCountGcdMapEntry_map: "gcd_map s m ps es \<Longrightarrow> CoreCountGcdMapEntry m s = Some (length es)"
  using CountLoop_list [of s m "[]" ps 0] Forward_head [of s m ps] gcd_map_length [of s m ps es]
  by (simp add: CoreCountGcdMapEntry_def gcd_map_def)

lemma FillLoop_map:
  assumes "gcd_map s m ps es"
  shows "\<exists>q. Forward m s = Some q \<and> FillLoop Build m q [] s = Some (map Build es)"
  using FillLoop_list [of s m "[]" ps es Build "[]"] Forward_head [of s m ps] assms by (simp add: gcd_map_def)

lemma find_stretch:
  assumes t: "tiles lo hi es" and e: "e \<in> set es" "holds a e"
  shows "find (holds a) es = Some e"
proof -
  obtain xs ys where es: "es = xs @ e # ys" using e(1) by (meson split_list)
  then obtain mid where mid: "tiles lo mid xs" "tiles mid hi (e # ys)" using t by (auto simp: tiles_append)
  have "mid \<le> unat a" using tiles_outside [OF mid(2), of e a] e(2) by simp
  then have "\<not> holds a d" if "d \<in> set xs" for d using tiles_outside [OF mid(1) that] by fastforce
  then have "find (holds a) xs = None" by (simp add: find_None_iff)
  then show ?thesis using e(2) es by (induction xs arbitrary: es) (auto split: if_splits)
qed

lemma find_last_address: "find (holds a) es = None \<Longrightarrow> tiles 0 h es \<Longrightarrow> h \<le> unat a"
  using tiles_covers [of 0 h es a] by (cases "unat a < h") (auto simp: space_at_def)

text \<open>
  C22. \<open>CoreGetMemorySpaceDescriptor\<close> reports the entry that holds the address, and \<open>EFI_NOT_FOUND\<close> exactly for
  addresses behind the end of the map; it changes neither map.
\<close>

theorem CoreGetMemorySpaceDescriptor_at:
  assumes wf: "gcd_wf s mGcdMemorySpaceMap h es m' h' es'" and lock: "lock_free mGcdMemorySpaceLock s"
  shows "\<exists>s1. CoreGetMemorySpaceDescriptor R a True s =
      map_option (\<lambda>s'. (if unat a < h then EFI_SUCCESS else EFI_NOT_FOUND,
        map_option BuildMemoryDescriptor (find (holds a) es), s')) (R (gEfiCurrentTpl s) s1)
    \<and> gcd_wf s1 mGcdMemorySpaceMap h es m' h' es' \<and> lock_passed mGcdMemorySpaceLock s s1"
proof -
  let ?l = mGcdMemorySpaceLock
  let ?s = "acquired ?l s"
  have wf': "gcd_wf ?s mGcdMemorySpaceMap h es m' h' es'" using wf by (simp add: gcd_wf_locks)
  then obtain ps where g: "gcd_map ?s mGcdMemorySpaceMap ps es" and t: "tiles 0 h es" unfolding gcd_wf_def by blast
  have rel: "CoreReleaseGcdMemoryLock R ?s = R (gEfiCurrentTpl s) (released ?l ?s)"
    by (simp add: CoreReleaseGcdMemoryLock_def CoreReleaseLock_eq released_def)
  have passed: "lock_passed ?l s (released ?l ?s)" by (rule lock_passed_released(1) [OF lock gcd_step_refl])
  have one: "(1 :: UINT64) \<noteq> 0" "unat a + unat (1 :: UINT64) \<le> 2 ^ 64" using unat_less_64 [of a] by simp_all
  have acq: "CoreAcquireGcdMemoryLock s = Some ?s" using lock by (simp add: CoreAcquireGcdMemoryLock_def CoreAcquireLock_eq)
  have "CoreGetMemorySpaceDescriptor R a True s =
      map_option (\<lambda>s'. (if unat a < h then EFI_SUCCESS else EFI_NOT_FOUND,
        map_option BuildMemoryDescriptor (find (holds a) es), s')) (R (gEfiCurrentTpl s) (released ?l ?s))"
  proof (cases "unat a < h")
    case True
    then have "unat a + unat (1 :: UINT64) \<le> h" by simp
    then obtain A S D eA eS eD where f: "ps = A @ S @ D" "es = eA @ eS @ eD" "length A = length eA"
      "length S = length eS" "S \<noteq> []" "holds a (hd eS)" "holds (a + 1 - 1) (last eS)"
      "CoreSearchGcdMapEntry a 1 mGcdMemorySpaceMap ?s = Some (EFI_SUCCESS, hd S, last S)"
      by (rule CoreSearchGcdMapEntry_found [OF g t one(1) le0])
    have neS: "eS \<noteq> []" using f(4,5) by auto
    obtain p S' e eS' where S: "S = p # S'" "eS = e # eS'" using f(5) neS by (cases S; cases eS) auto
    have cr: "CR p ?s = Some e" using map_entry(2) [of ?s _ A p "S' @ D" eA e "eS' @ eD"] g f(1-3) S by simp
    have "ring (GcdLinks ?s) (mGcdMemorySpaceMap # A @ S @ D)" using g f(1) by (simp add: gcd_map_def)
    then have nn: "hd S \<noteq> NULL" "last S \<noteq> NULL" using ring_not_NULL f(5) by auto
    have "find (holds a) es = Some e" by (rule find_stretch [OF t]) (use f(2,6) S in auto)
    then show ?thesis using True acq f(8) nn cr S(1) rel
      by (cases "R (gEfiCurrentTpl s) (released ?l ?s)") (simp_all add: CoreGetMemorySpaceDescriptor_def)
  next
    case False
    then have "h < unat a + unat (1 :: UINT64)" by simp
    then obtain x where "CoreSearchGcdMapEntry a 1 mGcdMemorySpaceMap ?s = Some (EFI_NOT_FOUND, x, NULL)"
      using CoreSearchGcdMapEntry_not_found [OF g t one(1) le0 _ one(2)] by blast
    moreover have "find (holds a) es = None"
      using False tiles_outside [OF t, of _ a] by (auto simp: find_None_iff)
    ultimately show ?thesis using False acq rel
      by (cases "R (gEfiCurrentTpl s) (released ?l ?s)") (simp_all add: CoreGetMemorySpaceDescriptor_def)
  qed
  moreover have "gcd_wf (released ?l ?s) mGcdMemorySpaceMap h es m' h' es'" using wf' by (simp add: gcd_wf_locks)
  ultimately show ?thesis using passed by blast
qed

theorem CoreGetMemorySpaceDescriptor_at_witness:
  "\<exists>s1. CoreGetMemorySpaceDescriptor witness_restore 0x12345 True witness_state =
      Some (EFI_SUCCESS, Some (BuildMemoryDescriptor witness_absent), s1)"
  using CoreGetMemorySpaceDescriptor_at [OF witness_state_wf, of witness_restore "0x12345"]
  by (auto simp: witness_restore_def holds_def witness_entry_def)

lemma gcd_wf_take_pool:
  assumes "gcd_wf s m h es m' h' es'" and "Pool s = p # ps"
  shows "gcd_wf (s\<lparr>Pool := ps\<rparr>) m h es m' h' es'" "p \<noteq> NULL"
proof -
  have ok: "gcd_pool_ok s" using assms(1) by (simp add: gcd_wf_def)
  then show "p \<noteq> NULL" using assms(2) by (auto simp: gcd_pool_ok_def)
  have "CR q (s\<lparr>Pool := ps\<rparr>) = CR q s" for q by (simp add: CR_def)
  then have "gcd_map (s\<lparr>Pool := ps\<rparr>) n qs ds = gcd_map s n qs ds" for n qs ds by (simp add: gcd_map_def)
  moreover have "gcd_pool_ok (s\<lparr>Pool := ps\<rparr>)" using ok assms(2) by (simp add: gcd_pool_ok_def)
  ultimately show "gcd_wf (s\<lparr>Pool := ps\<rparr>) m h es m' h' es'" using assms(1) by (simp add: gcd_wf_def)
qed

lemma release_memory_lock:
  assumes "lock_free mGcdMemorySpaceLock s"
  shows "CoreReleaseGcdMemoryLock R (acquired mGcdMemorySpaceLock s) =
      R (gEfiCurrentTpl s) (released mGcdMemorySpaceLock (acquired mGcdMemorySpaceLock s))"
    "lock_passed mGcdMemorySpaceLock s (released mGcdMemorySpaceLock (acquired mGcdMemorySpaceLock s))"
    "CoreAcquireGcdMemoryLock s = Some (acquired mGcdMemorySpaceLock s)"
  using assms lock_passed_released(1) [OF assms gcd_step_refl]
  by (simp_all add: CoreReleaseGcdMemoryLock_def CoreReleaseLock_eq released_def CoreAcquireGcdMemoryLock_def
      CoreAcquireLock_eq)


lemma quiet_witness: "quiet witness_restore"
  unfolding quiet_def witness_restore_def
proof (intro allI)
  fix t :: EFI_TPL and s :: GCD_STATE
  show "\<exists>i. Some (s\<lparr>gEfiCurrentTpl := t\<rparr>) = Some (s\<lparr>gEfiCurrentTpl := t, InterruptsEnabled := i\<rparr>)"
    by (rule exI [of _ "InterruptsEnabled s"]) simp
qed


section \<open>Sequences of calls\<close>

text \<open>One call of a service that changes a map, with arguments that keep the range inside the 64-bit space.\<close>

inductive gcd_call ::
  "GCD_STATE restore \<Rightarrow> (UINT64 \<Rightarrow> UINT64 \<Rightarrow> UINT64 \<Rightarrow> EFI_STATUS) \<Rightarrow> GCD_STATE \<Rightarrow> GCD_STATE \<Rightarrow> bool"
  for R Sma where
  convert: "CoreConvertSpace R Sma Op Mt It B L Caps Attr s = Some (st, s') \<Longrightarrow> one_map Op \<Longrightarrow>
    unat B + unat L \<le> 2 ^ 64 \<Longrightarrow> gcd_call R Sma s s'"
| allocate: "CoreAllocateSpace R Op Ty Mt It n L Base I D s = Some (st, Base', s') \<Longrightarrow> one_map Op \<Longrightarrow>
    unat L \<le> 2 ^ 63 \<Longrightarrow> (\<forall>B. Base = Some B \<longrightarrow> Ty = EfiGcdAllocateAddress \<longrightarrow> unat B + unat L \<le> 2 ^ 64) \<Longrightarrow>
    gcd_call R Sma s s'"

text \<open>Both maps cover their address spaces, both locks are free, the check of the list length is switched off.\<close>

definition gcd_inv :: "nat \<Rightarrow> nat \<Rightarrow> GCD_STATE \<Rightarrow> bool" where
  "gcd_inv h h' s \<longleftrightarrow>
     (\<exists>es es'. gcd_wf s mGcdMemorySpaceMap h es mGcdIoSpaceMap h' es')
     \<and> lock_free mGcdMemorySpaceLock s \<and> lock_free mGcdIoSpaceLock s \<and> PcdMaximumLinkedListLength s = 0
     \<and> 0 < h \<and> h \<le> 2 ^ 63 \<and> 0 < h' \<and> h' \<le> 2 ^ 63"

lemma gcd_inv_op:
  assumes "gcd_inv h h' s" and "one_map Op"
  shows "\<exists>m' k k' es es'. lock_free (lock_of Op) s \<and> gcd_wf s (map_of_op Op) k es m' k' es' \<and> 0 < k \<and> k \<le> 2 ^ 63
    \<and> (\<forall>s' ds. gcd_wf s' (map_of_op Op) k ds m' k' es' \<longrightarrow> lock_free mGcdMemorySpaceLock s' \<longrightarrow>
      lock_free mGcdIoSpaceLock s' \<longrightarrow> PcdMaximumLinkedListLength s' = 0 \<longrightarrow> gcd_inv h h' s')"
proof -
  obtain es es' where wf: "gcd_wf s mGcdMemorySpaceMap h es mGcdIoSpaceMap h' es'"
    using assms(1) unfolding gcd_inv_def by blast
  note wf' = wf [unfolded gcd_wf_sym [of s mGcdMemorySpaceMap]]
  show ?thesis
  proof (cases "Op AND GCD_MEMORY_SPACE_OPERATION \<noteq> 0")
    case True
    then have op: "lock_of Op = mGcdMemorySpaceLock" "map_of_op Op = mGcdMemorySpaceMap"
      by (simp_all add: lock_of_def map_of_op_def)
    show ?thesis using assms(1) wf unfolding op gcd_inv_def by blast
  next
    case False
    then have op: "lock_of Op = mGcdIoSpaceLock" "map_of_op Op = mGcdIoSpaceMap"
      by (simp_all add: lock_of_def map_of_op_def)
    show ?thesis using assms(1) wf' unfolding op gcd_inv_def gcd_wf_sym [of _ mGcdMemorySpaceMap] by blast
  qed
qed

lemma gcd_inv_passed:
  assumes "gcd_inv h h' s" and "quiet R" and "lock_passed l s s1" and "l = lock_of Op"
  shows "\<exists>s2. R (gEfiCurrentTpl s) s1 = Some s2 \<and> lock_free mGcdMemorySpaceLock s2 \<and> lock_free mGcdIoSpaceLock s2
    \<and> PcdMaximumLinkedListLength s2 = 0 \<and> (\<forall>m h es m' h' es'. gcd_wf s2 m h es m' h' es' = gcd_wf s1 m h es m' h' es')"
proof -
  obtain i where r: "R (gEfiCurrentTpl s) s1 = Some (s1\<lparr>gEfiCurrentTpl := gEfiCurrentTpl s, InterruptsEnabled := i\<rparr>)"
    using assms(2) unfolding quiet_def by blast
  let ?s2 = "s1\<lparr>gEfiCurrentTpl := gEfiCurrentTpl s, InterruptsEnabled := i\<rparr>"
  have "gcd_wf ?s2 m h es m' h' es' = gcd_wf s1 m h es m' h' es'" for m h es m' h' es'
    by (rule gcd_wf_cong) simp_all
  moreover have "lock_free k ?s2" if "lock_free k s" for k
    using assms(3) that by (cases "k = l") (simp_all add: lock_passed_def lock_free_def)
  ultimately show ?thesis using r assms(1,3) by (auto simp: gcd_inv_def lock_passed_def)
qed

lemma convert_keeps:
  assumes inv: "gcd_inv h h' s" and R: "quiet R" and one: "one_map Op" and w: "unat B + unat L \<le> 2 ^ 64"
  shows "\<exists>st s'. CoreConvertSpace R Sma Op Mt It B L Caps Attr s = Some (st, s') \<and> gcd_inv h h' s'"
proof (cases "L = 0")
  case True
  then show ?thesis using inv by (simp add: CoreConvertSpace_def)
next
  case False
  obtain m' k k' es es' where o: "lock_free (lock_of Op) s" "gcd_wf s (map_of_op Op) k es m' k' es'" "0 < k" "k \<le> 2 ^ 63"
    "\<forall>s' ds. gcd_wf s' (map_of_op Op) k ds m' k' es' \<longrightarrow> lock_free mGcdMemorySpaceLock s' \<longrightarrow>
      lock_free mGcdIoSpaceLock s' \<longrightarrow> PcdMaximumLinkedListLength s' = 0 \<longrightarrow> gcd_inv h h' s'"
    using gcd_inv_op [OF inv one] by blast
  have fit: "fits (PcdMaximumLinkedListLength s) (length es + 3)" using inv by (simp add: gcd_inv_def fits_def)
  obtain st s1 ds where c: "CoreConvertSpace R Sma Op Mt It B L Caps Attr s = map_option (Pair st) (R (gEfiCurrentTpl s) s1)"
    "gcd_wf s1 (map_of_op Op) k ds m' k' es'" "lock_passed (lock_of Op) s s1"
    using CoreConvertSpace_locked [OF one o(1,2) fit False w] by blast
  obtain s2 where "R (gEfiCurrentTpl s) s1 = Some s2" "gcd_inv h h' s2"
    using gcd_inv_passed [OF inv R c(3) refl] o(5) c(2) by blast
  then show ?thesis using c(1) by simp
qed

lemma allocate_keeps:
  assumes inv: "gcd_inv h h' s" and R: "quiet R" and one: "one_map Op" and L: "unat L \<le> 2 ^ 63"
    and w: "\<forall>B. Base = Some B \<longrightarrow> Ty = EfiGcdAllocateAddress \<longrightarrow> unat B + unat L \<le> 2 ^ 64"
  shows "\<exists>r s'. CoreAllocateSpace R Op Ty Mt It n L Base I D s = Some (fst r, snd r, s') \<and> gcd_inv h h' s'"
proof (cases "Ty < EfiGcdMaxAllocateType \<and> Mt < EfiGcdMemoryTypeMaximum \<and> It < EfiGcdIoTypeMaximum \<and> I \<noteq> NULL
    \<and> n < 64 \<and> L \<noteq> 0 \<and> (\<exists>B. Base = Some B)")
  case False
  have "EfiGcdMaxAllocateType \<le> Ty \<or> EfiGcdMemoryTypeMaximum \<le> Mt \<or> EfiGcdIoTypeMaximum \<le> It \<or> I = NULL
    \<or> 64 \<le> n \<or> L = 0 \<or> Base = None" using False by (auto simp: not_less)
  then show ?thesis using inv by (auto simp: CoreAllocateSpace_def split: option.split)
next
  case True
  then obtain B where B: "Base = Some B" by blast
  obtain m' k k' es es' where o: "lock_free (lock_of Op) s" "gcd_wf s (map_of_op Op) k es m' k' es'" "0 < k" "k \<le> 2 ^ 63"
    "\<forall>s' ds. gcd_wf s' (map_of_op Op) k ds m' k' es' \<longrightarrow> lock_free mGcdMemorySpaceLock s' \<longrightarrow>
      lock_free mGcdIoSpaceLock s' \<longrightarrow> PcdMaximumLinkedListLength s' = 0 \<longrightarrow> gcd_inv h h' s'"
    using gcd_inv_op [OF inv one] by blast
  have fit: "fits (PcdMaximumLinkedListLength s) (length es + 3)" using inv by (simp add: gcd_inv_def fits_def)
  obtain st B' s1 ds where c: "CoreAllocateSpace R Op Ty Mt It n L (Some B) I D s
      = map_option (\<lambda>s'. (st, Some B', s')) (R (gEfiCurrentTpl s) s1)"
    "gcd_wf s1 (map_of_op Op) k ds m' k' es'" "lock_passed (lock_of Op) s s1"
    using CoreAllocateSpace_locked [OF one o(1-4) fit _ _ _ _ _ _ L, of Ty Mt It I n B R D] True w B by blast
  obtain s2 where "R (gEfiCurrentTpl s) s1 = Some s2" "gcd_inv h h' s2"
    using gcd_inv_passed [OF inv R c(3) refl] o(5) c(2) by blast
  then show ?thesis using c(1) B by (intro exI [of _ "(st, Some B')"] exI [of _ s2]) simp
qed



end
