(* ===== verification/Gcd_Findings.thy ===== *)
theory Gcd_Findings
  imports Gcd_Properties
begin

text \<open>
  Three places where the services of the Global Coherency Domain do something else than they mean to, each
  shown by running the model on the maps of the witnesses.
\<close>

declare CountLoop.simps [code] FillLoop.simps [code] GetMemorySpaceMapLoop.simps [code]

definition witness_two_caches :: GCD_STATE where
  "witness_two_caches =
     witness_gcd (witness_entry 0 0xFFF 0x800000000000000F EFI_MEMORY_UC EfiGcdMemoryTypeSystemMemory)
       (witness_entry 0x1000 0xFFFFF 0x800000000000000F EFI_MEMORY_WB EfiGcdMemoryTypeSystemMemory)"




end
