(* ===== verification/Event_Model.thy ===== *)
theory Event_Model
  imports Gcd_Map Base_Math
begin

unbundle bit_operations_syntax

text \<open>
  Events, timers and the lowering of the task priority level:
  \<open>src/MdeModulePkg/Core/Dxe/Event/Event.c\<close>, \<open>Timer.c\<close> and \<open>CoreRestoreTpl\<close> of \<open>Tpl.c\<close>.

  Events are pool objects, found by their address in \<open>Events\<close>. The lists of events (one notification
  queue per task priority level, the signal queue, the timer list, the runtime events) are
  sequences of event addresses, head first: the functions of \<open>Linked_List\<close> are shown there to act as the
  corresponding functions on sequences. Whether the \<open>ForwardLink\<close> of a link field is different from \<open>NULL\<close>
  is a flag of the event; taking an event out of a list it is not in is an undefined outcome. The debug limit on
  the length of lists is left out.

  Lowering the level runs notification functions, and notification functions raise and lower the level. The
  functions here take the function that lowers the level (\<open>R\<close>) and the one that calls a notification function
  (\<open>Call\<close>) as arguments; \<open>RestoreTpl\<close> at the end closes the loop, the number being the depth to which
  notifications interrupt each other.
\<close>

section \<open>Data\<close>

definition EVT_TIMER :: UINT32 where "EVT_TIMER = 0x80000000"
definition EVT_RUNTIME :: UINT32 where "EVT_RUNTIME = 0x40000000"
definition EVT_NOTIFY_WAIT :: UINT32 where "EVT_NOTIFY_WAIT = 0x00000100"
definition EVT_NOTIFY_SIGNAL :: UINT32 where "EVT_NOTIFY_SIGNAL = 0x00000200"
definition EVT_SIGNAL_EXIT_BOOT_SERVICES :: UINT32 where "EVT_SIGNAL_EXIT_BOOT_SERVICES = 0x00000201"
definition EVT_SIGNAL_VIRTUAL_ADDRESS_CHANGE :: UINT32 where "EVT_SIGNAL_VIRTUAL_ADDRESS_CHANGE = 0x60000202"

lemmas EVT_defs = EVT_TIMER_def EVT_RUNTIME_def EVT_NOTIFY_WAIT_def EVT_NOTIFY_SIGNAL_def
  EVT_SIGNAL_EXIT_BOOT_SERVICES_def EVT_SIGNAL_VIRTUAL_ADDRESS_CHANGE_def

definition mEventTable :: "UINT32 list" where
  "mEventTable =
     [EVT_TIMER OR EVT_NOTIFY_SIGNAL,
      EVT_TIMER,
      EVT_NOTIFY_WAIT,
      EVT_NOTIFY_SIGNAL,
      EVT_SIGNAL_EXIT_BOOT_SERVICES,
      EVT_SIGNAL_VIRTUAL_ADDRESS_CHANGE,
      0x00000000,
      EVT_TIMER OR EVT_NOTIFY_WAIT]"

text \<open>\<open>SIGNATURE_32('e','v','n','t')\<close>\<close>

definition EVENT_SIGNATURE :: UINT64 where "EVENT_SIGNATURE = 0x746E7665"

definition EVT_EXFLAG_EVENT_GROUP :: UINT8 where "EVT_EXFLAG_EVENT_GROUP = 0x01"
definition EVT_EXFLAG_EVENT_PROTOCOL_NOTIFICATION :: UINT8 where "EVT_EXFLAG_EVENT_PROTOCOL_NOTIFICATION = 0x02"

definition gEfiEventExitBootServicesGuid :: EFI_GUID where
  "gEfiEventExitBootServicesGuid =
     [0x55, 0xF0, 0xAB, 0x27, 0xB8, 0xB1, 0x26, 0x4C, 0x80, 0x48, 0x74, 0x8F, 0x37, 0xBA, 0xA2, 0xDF]"

definition gEfiEventVirtualAddressChangeGuid :: EFI_GUID where
  "gEfiEventVirtualAddressChangeGuid =
     [0x98, 0x76, 0xFA, 0x13, 0x31, 0xC8, 0xC7, 0x49, 0x87, 0xEA, 0x8F, 0x43, 0xFC, 0xC2, 0x51, 0x96]"

definition gIdleLoopEventGuid :: EFI_GUID where
  "gIdleLoopEventGuid =
     [0x4c, 0x29, 0x8d, 0x3c, 0xc3, 0x5f, 0x51, 0x44, 0xbb, 0x31, 0xc4, 0xc0, 0x32, 0x29, 0x5e, 0x6c]"

record EFI_RUNTIME_EVENT_ENTRY =
  RtType :: UINT32
  RtNotifyTpl :: EFI_TPL
  RtNotifyFunction :: ptr
  RtNotifyContext :: ptr
  RtEvent :: ptr

text \<open>
  The four flags stand for \<open>SignalLink\<close>, \<open>NotifyLink\<close>, \<open>RuntimeData.Link\<close> and \<open>Timer.Link\<close>; function and
  context pointers are addresses, zero being \<open>NULL\<close>.
\<close>

record IEVENT =
  EvSignature :: UINT64
  EvType :: UINT32
  SignalCount :: UINT32
  SignalLinked :: bool
  NotifyTpl :: EFI_TPL
  NotifyFunction :: ptr
  NotifyContext :: ptr
  EventGroup :: EFI_GUID
  NotifyLinked :: bool
  ExFlag :: UINT8
  RuntimeData :: EFI_RUNTIME_EVENT_ENTRY
  RuntimeLinked :: bool
  TimerLinked :: bool
  TriggerTime :: UINT64
  Period :: UINT64

text \<open>What \<open>AllocateZeroPool\<close> hands out.\<close>

definition ZeroEvent :: IEVENT where
  "ZeroEvent = \<lparr>EvSignature = 0, EvType = 0, SignalCount = 0, SignalLinked = False, NotifyTpl = 0, NotifyFunction = NULL,
     NotifyContext = NULL, EventGroup = replicate 16 0, NotifyLinked = False, ExFlag = 0,
     RuntimeData = \<lparr>RtType = 0, RtNotifyTpl = 0, RtNotifyFunction = NULL, RtNotifyContext = NULL, RtEvent = NULL\<rparr>,
     RuntimeLinked = False, TimerLinked = False, TriggerTime = 0, Period = 0\<rparr>"

text \<open>
  \<open>gTimer\<close>: \<open>None\<close> when the timer architectural protocol is absent, otherwise the period its
  \<open>GetTimerPeriod\<close> function reports.
\<close>

record EVENT_STATE = GCD_STATE +
  Events :: "ptr \<Rightarrow> IEVENT option"
  gEventQueue :: "EFI_TPL \<Rightarrow> ptr list"
  gEventPending :: UINT64
  gEventSignalQueue :: "ptr list"
  gIdleLoopEvent :: ptr
  RuntimeEventHead :: "ptr list"
  mEfiTimerList :: "ptr list"
  mEfiCheckTimerEvent :: ptr
  mEfiSystemTime :: UINT64
  gTimer :: "UINT64 option"

type_synonym 'a restore = "EFI_TPL \<Rightarrow> 'a EVENT_STATE_scheme \<Rightarrow> 'a EVENT_STATE_scheme option"

text \<open>A notification function is called with the event and the context.\<close>

type_synonym 'a notify = "ptr \<Rightarrow> ptr \<Rightarrow> ptr \<Rightarrow> 'a EVENT_STATE_scheme \<Rightarrow> 'a EVENT_STATE_scheme option"

text \<open>The addresses of the two notification functions of the core itself.\<close>

abbreviation (input) pCoreCheckTimers :: ptr where "pCoreCheckTimers \<equiv> 1"
abbreviation (input) pEfiEventEmptyFunction :: ptr where "pEfiEventEmptyFunction \<equiv> 2"

definition PutEvent :: "ptr \<Rightarrow> (IEVENT \<Rightarrow> IEVENT) \<Rightarrow> 'a EVENT_STATE_scheme \<Rightarrow> 'a EVENT_STATE_scheme" where
  "PutEvent p f s = s\<lparr>Events := (Events s)(p := map_option f (Events s p))\<rparr>"

text \<open>The \<open>CR\<close> macro checks the signature of the structure it finds around a link.\<close>

definition EventCR :: "ptr \<Rightarrow> 'a EVENT_STATE_scheme \<Rightarrow> IEVENT option" where
  "EventCR p s = do { e \<leftarrow> Events s p; ASSERT (EvSignature e = EVENT_SIGNATURE); Some e }"

text \<open>\<open>(UINTN)(1 << n)\<close>: the constant is an \<open>int\<close>, so the shift is defined up to 30 only.\<close>

definition IntBit :: "nat \<Rightarrow> UINT64 option" where
  "IntBit n = (if n < 31 then Some (push_bit n 1) else None)"

text \<open>\<open>RemoveEntryList\<close> on a list of events.\<close>

definition Unlink :: "ptr \<Rightarrow> ptr list \<Rightarrow> ptr list option" where
  "Unlink p xs = (if p \<in> set xs then Some (remove1 p xs) else None)"

section \<open>Event.c\<close>

definition CoreAcquireEventLock :: "'a EVENT_STATE_scheme \<Rightarrow> 'a EVENT_STATE_scheme option" where
  "CoreAcquireEventLock s = CoreAcquireLock gEventQueueLock s"

definition CoreReleaseEventLock :: "'a restore \<Rightarrow> 'a EVENT_STATE_scheme \<Rightarrow> 'a EVENT_STATE_scheme option" where
  "CoreReleaseEventLock R s = CoreReleaseLock R gEventQueueLock s"

text \<open>
  \<open>RemoveEntryList (&Event->NotifyLink)\<close>: the event is in the queue of some level.
\<close>

definition RemoveNotifyLink :: "ptr \<Rightarrow> 'a EVENT_STATE_scheme \<Rightarrow> 'a EVENT_STATE_scheme option" where
  "RemoveNotifyLink p s =
     (if \<exists>t\<in>set [0..<Suc TPL_HIGH_LEVEL]. p \<in> set (gEventQueue s t)
      then Some (s\<lparr>gEventQueue := (\<lambda>t. remove1 p (gEventQueue s t))\<rparr>) else None)"

definition CoreNotifyEvent :: "ptr \<Rightarrow> 'a EVENT_STATE_scheme \<Rightarrow> 'a EVENT_STATE_scheme option" where
  "CoreNotifyEvent Event s = do {
     ASSERT_LOCKED gEventQueueLock s;
     e \<leftarrow> Events s Event;
     s \<leftarrow> (if NotifyLinked e then do {
              s \<leftarrow> RemoveNotifyLink Event s;
              Some (PutEvent Event (NotifyLinked_update (\<lambda>_. False)) s)
            } else Some s);
     let Tpl = NotifyTpl e;
     ASSERT (Tpl \<le> TPL_HIGH_LEVEL);
     let s = s\<lparr>gEventQueue := (gEventQueue s)(Tpl := gEventQueue s Tpl @ [Event])\<rparr>;
     let s = PutEvent Event (NotifyLinked_update (\<lambda>_. True)) s;
     b \<leftarrow> IntBit Tpl;
     Some (s\<lparr>gEventPending := gEventPending s OR b\<rparr>)
   }"

text \<open>The loop over the signal queue, whose links \<open>CoreNotifyEvent\<close> does not change.\<close>

fun NotifySignalLoop :: "EFI_GUID \<Rightarrow> ptr list \<Rightarrow> 'a EVENT_STATE_scheme \<Rightarrow> 'a EVENT_STATE_scheme option" where
  "NotifySignalLoop Group [] s = Some s"
| "NotifySignalLoop Group (Event # Rest) s = do {
     e \<leftarrow> EventCR Event s;
     s \<leftarrow> (if EventGroup e = Group then CoreNotifyEvent Event s else Some s);
     NotifySignalLoop Group Rest s
   }"

definition CoreNotifySignalList ::
  "'a restore \<Rightarrow> EFI_GUID \<Rightarrow> 'a EVENT_STATE_scheme \<Rightarrow> 'a EVENT_STATE_scheme option" where
  "CoreNotifySignalList R Group s = do {
     s \<leftarrow> CoreAcquireEventLock s;
     s \<leftarrow> NotifySignalLoop Group (gEventSignalQueue s) s;
     CoreReleaseEventLock R s
   }"

text \<open>
  \<open>Event\<close> is \<open>None\<close> for a \<open>NULL\<close> pointer, otherwise the content of the location; the second component of the
  result is its content afterwards.
\<close>

definition CoreCreateEventInternal ::
  "'a restore \<Rightarrow> UINT32 \<Rightarrow> EFI_TPL \<Rightarrow> ptr \<Rightarrow> ptr \<Rightarrow> EFI_GUID option \<Rightarrow> ptr option \<Rightarrow> 'a EVENT_STATE_scheme
    \<Rightarrow> (EFI_STATUS \<times> ptr option \<times> 'a EVENT_STATE_scheme) option" where
  "CoreCreateEventInternal R Type Tpl Function Context Group Event s =
     (if Event = None then Some (EFI_INVALID_PARAMETER, Event, s)
      else if Type \<notin> set mEventTable then Some (EFI_INVALID_PARAMETER, Event, s)
      else if Group \<noteq> None \<and> (Type = EVT_SIGNAL_EXIT_BOOT_SERVICES \<or> Type = EVT_SIGNAL_VIRTUAL_ADDRESS_CHANGE)
      then Some (EFI_INVALID_PARAMETER, Event, s)
      else do {
        let (Type, Group) =
          (case Group of
             Some g \<Rightarrow>
               if g = gEfiEventExitBootServicesGuid then (EVT_SIGNAL_EXIT_BOOT_SERVICES, Group)
               else if g = gEfiEventVirtualAddressChangeGuid then (EVT_SIGNAL_VIRTUAL_ADDRESS_CHANGE, Group)
               else (Type, Group)
           | None \<Rightarrow>
               if Type = EVT_SIGNAL_EXIT_BOOT_SERVICES then (Type, Some gEfiEventExitBootServicesGuid)
               else if Type = EVT_SIGNAL_VIRTUAL_ADDRESS_CHANGE then (Type, Some gEfiEventVirtualAddressChangeGuid)
               else (Type, Group));
        if Type AND (EVT_NOTIFY_WAIT OR EVT_NOTIFY_SIGNAL) \<noteq> 0
           \<and> (Function = NULL \<or> Tpl \<le> TPL_APPLICATION \<or> Tpl \<ge> TPL_HIGH_LEVEL)
        then Some (EFI_INVALID_PARAMETER, Event, s)
        else do {
          let (Tpl, Function, Context) =
            (if Type AND (EVT_NOTIFY_WAIT OR EVT_NOTIFY_SIGNAL) \<noteq> 0 then (Tpl, Function, Context) else (0, NULL, NULL));
          let (IEvent, s) = TakePool s;
          if IEvent = NULL then Some (EFI_OUT_OF_RESOURCES, Event, s)
          else do {
            let e = ZeroEvent\<lparr>EvSignature := EVENT_SIGNATURE, EvType := Type, NotifyTpl := Tpl,
                      NotifyFunction := Function, NotifyContext := Context\<rparr>;
            let e = (case Group of None \<Rightarrow> e
                     | Some g \<Rightarrow> e\<lparr>EventGroup := g, ExFlag := ExFlag e OR EVT_EXFLAG_EVENT_GROUP\<rparr>);
            let s = s\<lparr>Events := (Events s)(IEvent \<mapsto> e)\<rparr>;
            let s = (if Type AND EVT_RUNTIME \<noteq> 0 then
                       (PutEvent IEvent (\<lambda>e. e\<lparr>RuntimeData := \<lparr>RtType = Type, RtNotifyTpl = Tpl,
                          RtNotifyFunction = Function, RtNotifyContext = Context, RtEvent = IEvent\<rparr>,
                          RuntimeLinked := True\<rparr>) s)\<lparr>RuntimeEventHead := RuntimeEventHead s @ [IEvent]\<rparr>
                     else s);
            s \<leftarrow> CoreAcquireEventLock s;
            let s = (if Type AND EVT_NOTIFY_SIGNAL \<noteq> 0 then
                       (PutEvent IEvent (SignalLinked_update (\<lambda>_. True)) s)
                         \<lparr>gEventSignalQueue := IEvent # gEventSignalQueue s\<rparr>
                     else s);
            s \<leftarrow> CoreReleaseEventLock R s;
            Some (EFI_SUCCESS, Some IEvent, s)
          }
        }
      })"

definition CoreCreateEventEx ::
  "'a restore \<Rightarrow> UINT32 \<Rightarrow> EFI_TPL \<Rightarrow> ptr \<Rightarrow> ptr \<Rightarrow> EFI_GUID option \<Rightarrow> ptr option \<Rightarrow> 'a EVENT_STATE_scheme
    \<Rightarrow> (EFI_STATUS \<times> ptr option \<times> 'a EVENT_STATE_scheme) option" where
  "CoreCreateEventEx R Type Tpl Function Context Group Event s =
     (if Type AND (EVT_NOTIFY_WAIT OR EVT_NOTIFY_SIGNAL) \<noteq> 0
         \<and> Tpl \<noteq> TPL_APPLICATION \<and> Tpl \<noteq> TPL_CALLBACK \<and> Tpl \<noteq> TPL_NOTIFY
      then Some (EFI_INVALID_PARAMETER, Event, s)
      else CoreCreateEventInternal R Type Tpl Function Context Group Event s)"

definition CoreCreateEvent ::
  "'a restore \<Rightarrow> UINT32 \<Rightarrow> EFI_TPL \<Rightarrow> ptr \<Rightarrow> ptr \<Rightarrow> ptr option \<Rightarrow> 'a EVENT_STATE_scheme
    \<Rightarrow> (EFI_STATUS \<times> ptr option \<times> 'a EVENT_STATE_scheme) option" where
  "CoreCreateEvent R Type Tpl Function Context Event s = CoreCreateEventEx R Type Tpl Function Context None Event s"

definition CoreSignalEvent ::
  "'a restore \<Rightarrow> ptr \<Rightarrow> 'a EVENT_STATE_scheme \<Rightarrow> (EFI_STATUS \<times> 'a EVENT_STATE_scheme) option" where
  "CoreSignalEvent R Event s =
     (if Event = NULL then Some (EFI_INVALID_PARAMETER, s)
      else do {
        e \<leftarrow> Events s Event;
        if EvSignature e \<noteq> EVENT_SIGNATURE then Some (EFI_INVALID_PARAMETER, s)
        else do {
          s \<leftarrow> CoreAcquireEventLock s;
          e \<leftarrow> Events s Event;
          s \<leftarrow> (if SignalCount e = 0 then do {
                   let s = PutEvent Event (SignalCount_update (\<lambda>c. c + 1)) s;
                   if EvType e AND EVT_NOTIFY_SIGNAL \<noteq> 0 then
                     if ExFlag e AND EVT_EXFLAG_EVENT_GROUP \<noteq> 0 then do {
                       s \<leftarrow> CoreReleaseEventLock R s;
                       e \<leftarrow> Events s Event;
                       s \<leftarrow> CoreNotifySignalList R (EventGroup e) s;
                       CoreAcquireEventLock s
                     }
                     else CoreNotifyEvent Event s
                   else Some s
                 } else Some s);
          s \<leftarrow> CoreReleaseEventLock R s;
          Some (EFI_SUCCESS, s)
        }
      })"

definition CoreCheckEvent ::
  "'a restore \<Rightarrow> ptr \<Rightarrow> 'a EVENT_STATE_scheme \<Rightarrow> (EFI_STATUS \<times> 'a EVENT_STATE_scheme) option" where
  "CoreCheckEvent R Event s =
     (if Event = NULL then Some (EFI_INVALID_PARAMETER, s)
      else do {
        e \<leftarrow> Events s Event;
        if EvSignature e \<noteq> EVENT_SIGNATURE then Some (EFI_INVALID_PARAMETER, s)
        else if EvType e AND EVT_NOTIFY_SIGNAL \<noteq> 0 then Some (EFI_INVALID_PARAMETER, s)
        else do {
          s \<leftarrow> (if SignalCount e = 0 \<and> EvType e AND EVT_NOTIFY_WAIT \<noteq> 0 then do {
                   s \<leftarrow> CoreAcquireEventLock s;
                   e \<leftarrow> Events s Event;
                   s \<leftarrow> (if SignalCount e = 0 then CoreNotifyEvent Event s else Some s);
                   CoreReleaseEventLock R s
                 } else Some s);
          e \<leftarrow> Events s Event;
          if SignalCount e \<noteq> 0 then do {
            s \<leftarrow> CoreAcquireEventLock s;
            e \<leftarrow> Events s Event;
            let (Status, s) = (if SignalCount e \<noteq> 0
                               then (EFI_SUCCESS, PutEvent Event (SignalCount_update (\<lambda>_. 0)) s)
                               else (EFI_NOT_READY, s));
            s \<leftarrow> CoreReleaseEventLock R s;
            Some (Status, s)
          } else Some (EFI_NOT_READY, s)
        }
      })"

text \<open>
  One pass over the events waited for: \<open>Some (Status, Index)\<close> when the pass ends the wait. An index behind the
  end of the array is an undefined outcome.
\<close>

function WaitPass :: "'a restore \<Rightarrow> nat \<Rightarrow> ptr list \<Rightarrow> nat \<Rightarrow> 'a EVENT_STATE_scheme
    \<Rightarrow> ((EFI_STATUS \<times> nat) option \<times> 'a EVENT_STATE_scheme) option" where
  "WaitPass R NumberOfEvents UserEvents Index s =
     (if Index < NumberOfEvents then do {
        ASSERT (Index < length UserEvents);
        (Status, s) \<leftarrow> CoreCheckEvent R (UserEvents ! Index) s;
        if Status \<noteq> EFI_NOT_READY then Some (Some (Status, Index), s)
        else WaitPass R NumberOfEvents UserEvents (Index + 1) s
      } else Some (None, s))"
  by pat_completeness auto
termination by (relation "measure (\<lambda>(R, n, es, i, s). n - i)") auto

declare WaitPass.simps [simp del]

partial_function (option) WaitLoop ::
  "'a restore \<Rightarrow> nat \<Rightarrow> ptr list \<Rightarrow> 'a EVENT_STATE_scheme \<Rightarrow> (EFI_STATUS \<times> nat \<times> 'a EVENT_STATE_scheme) option" where
  "WaitLoop R NumberOfEvents UserEvents s = do {
     (r, s) \<leftarrow> WaitPass R NumberOfEvents UserEvents 0 s;
     case r of
       Some (Status, Index) \<Rightarrow> Some (Status, Index, s)
     | None \<Rightarrow> do {
         (Status, s) \<leftarrow> CoreSignalEvent R (gIdleLoopEvent s) s;
         WaitLoop R NumberOfEvents UserEvents s
       }
   }"

text \<open>
  \<open>UserEvents\<close> is \<open>None\<close> for a \<open>NULL\<close> pointer, otherwise the array; \<open>UserIndex\<close> is \<open>None\<close> for \<open>NULL\<close>, otherwise the content
  of the location.
\<close>

definition CoreWaitForEvent ::
  "'a restore \<Rightarrow> nat \<Rightarrow> ptr list option \<Rightarrow> nat option \<Rightarrow> 'a EVENT_STATE_scheme
    \<Rightarrow> (EFI_STATUS \<times> nat option \<times> 'a EVENT_STATE_scheme) option" where
  "CoreWaitForEvent R NumberOfEvents UserEvents UserIndex s =
     (if gEfiCurrentTpl s \<noteq> TPL_APPLICATION then Some (EFI_UNSUPPORTED, UserIndex, s)
      else if NumberOfEvents = 0 then Some (EFI_INVALID_PARAMETER, UserIndex, s)
      else case UserEvents of
          None \<Rightarrow> Some (EFI_INVALID_PARAMETER, UserIndex, s)
        | Some evs \<Rightarrow> do {
            (Status, Index, s) \<leftarrow> WaitLoop R NumberOfEvents evs s;
            Some (Status, map_option (\<lambda>_. Index) UserIndex, s)
          })"

section \<open>Timer.c\<close>

text \<open>The place of a timer: before the first one that triggers later.\<close>

fun InsertTimerLoop :: "UINT64 \<Rightarrow> ptr \<Rightarrow> ptr list \<Rightarrow> 'a EVENT_STATE_scheme \<Rightarrow> ptr list option" where
  "InsertTimerLoop Time Event [] s = Some [Event]"
| "InsertTimerLoop Time Event (Event2 # Rest) s = do {
     e2 \<leftarrow> EventCR Event2 s;
     if TriggerTime e2 > Time then Some (Event # Event2 # Rest)
     else map_option (Cons Event2) (InsertTimerLoop Time Event Rest s)
   }"

definition CoreInsertEventTimer :: "ptr \<Rightarrow> 'a EVENT_STATE_scheme \<Rightarrow> 'a EVENT_STATE_scheme option" where
  "CoreInsertEventTimer Event s = do {
     ASSERT_LOCKED mEfiTimerLock s;
     e \<leftarrow> Events s Event;
     ps \<leftarrow> InsertTimerLoop (TriggerTime e) Event (mEfiTimerList s) s;
     Some (PutEvent Event (TimerLinked_update (\<lambda>_. True)) (s\<lparr>mEfiTimerList := ps\<rparr>))
   }"

definition CoreCurrentSystemTime ::
  "'a restore \<Rightarrow> 'a EVENT_STATE_scheme \<Rightarrow> (UINT64 \<times> 'a EVENT_STATE_scheme) option" where
  "CoreCurrentSystemTime R s = do {
     s \<leftarrow> CoreAcquireLock mEfiSystemTimeLock s;
     let SystemTime = mEfiSystemTime s;
     s \<leftarrow> CoreReleaseLock R mEfiSystemTimeLock s;
     Some (SystemTime, s)
   }"

text \<open>
  \<open>RemoveEntryList (&Event->Timer.Link)\<close>, and clearing the link.
\<close>

definition RemoveTimerLink :: "ptr \<Rightarrow> 'a EVENT_STATE_scheme \<Rightarrow> 'a EVENT_STATE_scheme option" where
  "RemoveTimerLink p s = do {
     ps \<leftarrow> Unlink p (mEfiTimerList s);
     Some (PutEvent p (TimerLinked_update (\<lambda>_. False)) (s\<lparr>mEfiTimerList := ps\<rparr>))
   }"

text \<open>The part of the loop of \<open>CoreCheckTimers\<close> that handles a periodic timer.\<close>

definition RearmTimer ::
  "'a restore \<Rightarrow> UINT64 \<Rightarrow> ptr \<Rightarrow> 'a EVENT_STATE_scheme \<Rightarrow> 'a EVENT_STATE_scheme option" where
  "RearmTimer R SystemTime Event s = do {
     e \<leftarrow> Events s Event;
     if Period e \<noteq> 0 then do {
       let s = PutEvent Event (\<lambda>e. e\<lparr>TriggerTime := TriggerTime e + Period e\<rparr>) s;
       s \<leftarrow> (if TriggerTime e + Period e \<le> SystemTime then do {
                let s = PutEvent Event (TriggerTime_update (\<lambda>_. SystemTime)) s;
                (Status, s) \<leftarrow> CoreSignalEvent R (mEfiCheckTimerEvent s) s;
                Some s
              } else Some s);
       CoreInsertEventTimer Event s
     } else Some s
   }"

partial_function (option) CheckTimersLoop ::
  "'a restore \<Rightarrow> UINT64 \<Rightarrow> 'a EVENT_STATE_scheme \<Rightarrow> 'a EVENT_STATE_scheme option" where
  "CheckTimersLoop R SystemTime s =
     (case mEfiTimerList s of
        [] \<Rightarrow> Some s
      | Event # _ \<Rightarrow> do {
          e \<leftarrow> EventCR Event s;
          if TriggerTime e > SystemTime then Some s
          else do {
            s \<leftarrow> RemoveTimerLink Event s;
            (Status, s) \<leftarrow> CoreSignalEvent R Event s;
            s \<leftarrow> RearmTimer R SystemTime Event s;
            CheckTimersLoop R SystemTime s
          }
        })"

definition CoreCheckTimers :: "'a restore \<Rightarrow> 'a EVENT_STATE_scheme \<Rightarrow> 'a EVENT_STATE_scheme option" where
  "CoreCheckTimers R s = do {
     s \<leftarrow> CoreAcquireLock mEfiTimerLock s;
     (SystemTime, s) \<leftarrow> CoreCurrentSystemTime R s;
     s \<leftarrow> CheckTimersLoop R SystemTime s;
     CoreReleaseLock R mEfiTimerLock s
   }"

definition CoreInitializeTimer :: "'a restore \<Rightarrow> 'a EVENT_STATE_scheme \<Rightarrow> 'a EVENT_STATE_scheme option" where
  "CoreInitializeTimer R s = do {
     (Status, Event, s) \<leftarrow> CoreCreateEventInternal R EVT_NOTIFY_SIGNAL (TPL_HIGH_LEVEL - 1) pCoreCheckTimers NULL None
       (Some (mEfiCheckTimerEvent s)) s;
     let s = (case Event of Some p \<Rightarrow> s\<lparr>mEfiCheckTimerEvent := p\<rparr> | None \<Rightarrow> s);
     ASSERT (\<not> EFI_ERROR Status);
     Some s
   }"

definition CoreTimerTick :: "'a restore \<Rightarrow> UINT64 \<Rightarrow> 'a EVENT_STATE_scheme \<Rightarrow> 'a EVENT_STATE_scheme option" where
  "CoreTimerTick R Duration s = do {
     s \<leftarrow> CoreAcquireLock mEfiSystemTimeLock s;
     let s = s\<lparr>mEfiSystemTime := mEfiSystemTime s + Duration\<rparr>;
     s \<leftarrow> (case mEfiTimerList s of
              [] \<Rightarrow> Some s
            | Event # _ \<Rightarrow> do {
                e \<leftarrow> EventCR Event s;
                if TriggerTime e \<le> mEfiSystemTime s then do {
                  (Status, s) \<leftarrow> CoreSignalEvent R (mEfiCheckTimerEvent s) s;
                  Some s
                } else Some s
              });
     CoreReleaseLock R mEfiSystemTimeLock s
   }"

abbreviation (input) TimerCancel :: UINT32 where "TimerCancel \<equiv> 0"
abbreviation (input) TimerPeriodic :: UINT32 where "TimerPeriodic \<equiv> 1"
abbreviation (input) TimerRelative :: UINT32 where "TimerRelative \<equiv> 2"

definition CoreSetTimer ::
  "'a restore \<Rightarrow> ptr \<Rightarrow> UINT32 \<Rightarrow> UINT64 \<Rightarrow> 'a EVENT_STATE_scheme \<Rightarrow> (EFI_STATUS \<times> 'a EVENT_STATE_scheme) option" where
  "CoreSetTimer R Event Type Time s =
     (if Event = NULL then Some (EFI_INVALID_PARAMETER, s)
      else do {
        e \<leftarrow> Events s Event;
        if EvSignature e \<noteq> EVENT_SIGNATURE then Some (EFI_INVALID_PARAMETER, s)
        else if Type > TimerRelative \<or> EvType e AND EVT_TIMER = 0 then Some (EFI_INVALID_PARAMETER, s)
        else do {
          s \<leftarrow> CoreAcquireLock mEfiTimerLock s;
          e \<leftarrow> Events s Event;
          s \<leftarrow> (if TimerLinked e then RemoveTimerLink Event s else Some s);
          let s = PutEvent Event (\<lambda>e. e\<lparr>TriggerTime := 0, Period := 0\<rparr>) s;
          s \<leftarrow> (if Type \<noteq> TimerCancel then do {
                   Time \<leftarrow> (if Type = TimerPeriodic \<and> Time = 0 then gTimer s else Some Time);
                   let s = (if Type = TimerPeriodic then PutEvent Event (Period_update (\<lambda>_. Time)) s else s);
                   (SystemTime, s) \<leftarrow> CoreCurrentSystemTime R s;
                   let s = PutEvent Event (TriggerTime_update (\<lambda>_. SystemTime + Time)) s;
                   s \<leftarrow> CoreInsertEventTimer Event s;
                   if Time = 0 then do {
                     (Status, s) \<leftarrow> CoreSignalEvent R (mEfiCheckTimerEvent s) s;
                     Some s
                   } else Some s
                 } else Some s);
          s \<leftarrow> CoreReleaseLock R mEfiTimerLock s;
          Some (EFI_SUCCESS, s)
        }
      })"

section \<open>Closing and initialisation\<close>

definition CoreCloseEvent ::
  "'a restore \<Rightarrow> (ptr \<Rightarrow> 'a EVENT_STATE_scheme \<Rightarrow> 'a EVENT_STATE_scheme option) \<Rightarrow> ptr \<Rightarrow> 'a EVENT_STATE_scheme
    \<Rightarrow> (EFI_STATUS \<times> 'a EVENT_STATE_scheme) option" where
  "CoreCloseEvent R CoreUnregisterProtocolNotify Event s =
     (if Event = NULL then Some (EFI_INVALID_PARAMETER, s)
      else do {
        e \<leftarrow> Events s Event;
        if EvSignature e \<noteq> EVENT_SIGNATURE then Some (EFI_INVALID_PARAMETER, s)
        else do {
          s \<leftarrow> (if EvType e AND EVT_TIMER \<noteq> 0 then do {
                   (Status, s) \<leftarrow> CoreSetTimer R Event TimerCancel 0 s;
                   Some s
                 } else Some s);
          s \<leftarrow> CoreAcquireEventLock s;
          e \<leftarrow> Events s Event;
          s \<leftarrow> (if RuntimeLinked e then do {
                   ps \<leftarrow> Unlink Event (RuntimeEventHead s);
                   Some (s\<lparr>RuntimeEventHead := ps\<rparr>)
                 } else Some s);
          s \<leftarrow> (if NotifyLinked e then RemoveNotifyLink Event s else Some s);
          s \<leftarrow> (if SignalLinked e then do {
                   ps \<leftarrow> Unlink Event (gEventSignalQueue s);
                   Some (s\<lparr>gEventSignalQueue := ps\<rparr>)
                 } else Some s);
          s \<leftarrow> CoreReleaseEventLock R s;
          e \<leftarrow> Events s Event;
          s \<leftarrow> (if ExFlag e AND EVT_EXFLAG_EVENT_PROTOCOL_NOTIFICATION \<noteq> 0
                then CoreUnregisterProtocolNotify Event s else Some s);
          e \<leftarrow> Events s Event;
          Some (EFI_SUCCESS, s\<lparr>Events := (Events s)(Event := None), Pool := Pool s @ [Event]\<rparr>)
        }
      })"

definition CoreInitializeEventServices ::
  "'a restore \<Rightarrow> 'a EVENT_STATE_scheme \<Rightarrow> (EFI_STATUS \<times> 'a EVENT_STATE_scheme) option" where
  "CoreInitializeEventServices R s = do {
     let s = s\<lparr>gEventQueue := (\<lambda>Index. if Index \<le> TPL_HIGH_LEVEL then [] else gEventQueue s Index)\<rparr>;
     s \<leftarrow> CoreInitializeTimer R s;
     (Status, Event, s) \<leftarrow> CoreCreateEventEx R EVT_NOTIFY_SIGNAL TPL_NOTIFY pEfiEventEmptyFunction NULL
       (Some gIdleLoopEventGuid) (Some (gIdleLoopEvent s)) s;
     let s = (case Event of Some p \<Rightarrow> s\<lparr>gIdleLoopEvent := p\<rparr> | None \<Rightarrow> s);
     Some (EFI_SUCCESS, s)
   }"

section \<open>Dispatching notifications\<close>

partial_function (option) DispatchLoop ::
  "'a restore \<Rightarrow> 'a notify \<Rightarrow> EFI_TPL \<Rightarrow> 'a EVENT_STATE_scheme \<Rightarrow> 'a EVENT_STATE_scheme option" where
  "DispatchLoop R Call Priority s =
     (case gEventQueue s Priority of
        [] \<Rightarrow> Some s
      | Event # _ \<Rightarrow> do {
          e \<leftarrow> EventCR Event s;
          s \<leftarrow> RemoveNotifyLink Event s;
          let s = PutEvent Event (NotifyLinked_update (\<lambda>_. False)) s;
          let s = (if EvType e AND EVT_NOTIFY_SIGNAL \<noteq> 0
                   then PutEvent Event (SignalCount_update (\<lambda>_. 0)) s else s);
          s \<leftarrow> CoreReleaseEventLock R s;
          e \<leftarrow> Events s Event;
          ASSERT (NotifyFunction e \<noteq> NULL);
          s \<leftarrow> Call (NotifyFunction e) Event (NotifyContext e) s;
          s \<leftarrow> CoreAcquireEventLock s;
          DispatchLoop R Call Priority s
        })"

definition CoreDispatchEventNotifies ::
  "'a restore \<Rightarrow> 'a notify \<Rightarrow> EFI_TPL \<Rightarrow> 'a EVENT_STATE_scheme \<Rightarrow> 'a EVENT_STATE_scheme option" where
  "CoreDispatchEventNotifies R Call Priority s = do {
     s \<leftarrow> CoreAcquireEventLock s;
     ASSERT (OwnerTpl (Locks s gEventQueueLock) = Priority);
     ASSERT (Priority \<le> TPL_HIGH_LEVEL);
     s \<leftarrow> DispatchLoop R Call Priority s;
     b \<leftarrow> IntBit Priority;
     let s = s\<lparr>gEventPending := gEventPending s AND NOT b\<rparr>;
     CoreReleaseEventLock R s
   }"

partial_function (option) PendingLoop ::
  "'a restore \<Rightarrow> 'a notify \<Rightarrow> EFI_TPL \<Rightarrow> 'a EVENT_STATE_scheme \<Rightarrow> 'a EVENT_STATE_scheme option" where
  "PendingLoop R Call NewTpl s =
     (if gEventPending s \<noteq> 0 then do {
        h \<leftarrow> HighBitSet64 (gEventPending s);
        let PendingTpl = nat h;
        if PendingTpl \<le> NewTpl then Some s
        else do {
          let s = s\<lparr>gEfiCurrentTpl := PendingTpl\<rparr>;
          let s = (if gEfiCurrentTpl s < TPL_HIGH_LEVEL then CoreSetInterruptState True s else s);
          s \<leftarrow> CoreDispatchEventNotifies R Call (gEfiCurrentTpl s) s;
          PendingLoop R Call NewTpl s
        }
      } else Some s)"

definition CoreRestoreTpl ::
  "'a restore \<Rightarrow> 'a notify \<Rightarrow> EFI_TPL \<Rightarrow> 'a EVENT_STATE_scheme \<Rightarrow> 'a EVENT_STATE_scheme option" where
  "CoreRestoreTpl R Call NewTpl s = do {
     let OldTpl = gEfiCurrentTpl s;
     ASSERT (\<not> NewTpl > OldTpl);
     ASSERT (VALID_TPL NewTpl);
     let s = (if OldTpl \<ge> TPL_HIGH_LEVEL \<and> NewTpl < TPL_HIGH_LEVEL then s\<lparr>gEfiCurrentTpl := TPL_HIGH_LEVEL\<rparr> else s);
     s \<leftarrow> PendingLoop R Call NewTpl s;
     let s = s\<lparr>gEfiCurrentTpl := NewTpl\<rparr>;
     Some (if gEfiCurrentTpl s < TPL_HIGH_LEVEL then CoreSetInterruptState True s else s)
   }"

text \<open>
  Calling a notification function: the two of the core, or one of a driver, which uses the services of the core and
  so is given the function that lowers the level.
\<close>

definition CallNotify :: "('a restore \<Rightarrow> 'a notify) \<Rightarrow> 'a restore \<Rightarrow> 'a notify" where
  "CallNotify Notify R Function Event Context s =
     (if Function = pCoreCheckTimers then CoreCheckTimers R s
      else if Function = pEfiEventEmptyFunction then Some s
      else Notify R Function Event Context s)"

primrec RestoreTpl :: "('a restore \<Rightarrow> 'a notify) \<Rightarrow> nat \<Rightarrow> 'a restore" where
  "RestoreTpl Notify 0 = (\<lambda>NewTpl s. None)"
| "RestoreTpl Notify (Suc n) =
     CoreRestoreTpl (RestoreTpl Notify n) (CallNotify Notify (RestoreTpl Notify n))"

end
