(* ===== verification/Event_Wf.thy ===== *)
theory Event_Wf
  imports Event_Model
begin

unbundle bit_operations_syntax

text \<open>
  The well-formedness of the event database, and the steps that queue, unqueue and deliver an event. Every
  step here is an equation for the function of \<open>Event_Model\<close> together with the preservation of the invariant.
\<close>

section \<open>The invariant\<close>

text \<open>An event with a notification function, and one whose notification is queued when it is signalled.\<close>

definition notifies :: "IEVENT \<Rightarrow> bool" where
  "notifies e \<longleftrightarrow> EvType e AND (EVT_NOTIFY_WAIT OR EVT_NOTIFY_SIGNAL) \<noteq> 0"

definition signals :: "IEVENT \<Rightarrow> bool" where
  "signals e \<longleftrightarrow> EvType e AND EVT_NOTIFY_SIGNAL \<noteq> 0"

definition event_ok :: "IEVENT \<Rightarrow> bool" where
  "event_ok e \<longleftrightarrow> EvSignature e = EVENT_SIGNATURE
     \<and> (notifies e \<longrightarrow> NotifyFunction e \<noteq> NULL \<and> TPL_APPLICATION < NotifyTpl e \<and> NotifyTpl e < TPL_HIGH_LEVEL)"

text \<open>
  A list of events and the flag that says whether an event is in it: no event twice, all events alive.
\<close>

definition links_wf :: "(ptr \<Rightarrow> IEVENT option) \<Rightarrow> (IEVENT \<Rightarrow> bool) \<Rightarrow> ptr list \<Rightarrow> bool" where
  "links_wf ev inl ps \<longleftrightarrow> distinct ps \<and> {p. \<exists>e. ev p = Some e \<and> inl e} = set ps"

text \<open>The notification queues: an event is in the queue of its level only, and that level is pending.\<close>

definition queues_wf :: "'a EVENT_STATE_scheme \<Rightarrow> bool" where
  "queues_wf s \<longleftrightarrow>
     (\<forall>t. links_wf (Events s) (\<lambda>e. NotifyLinked e \<and> NotifyTpl e = t) (gEventQueue s t))
     \<and> (\<forall>p e. Events s p = Some e \<longrightarrow> NotifyLinked e \<longrightarrow> notifies e)
     \<and> (\<forall>t. gEventQueue s t \<noteq> [] \<longrightarrow> bit (gEventPending s) t)
     \<and> (\<forall>t. bit (gEventPending s) t \<longrightarrow> TPL_APPLICATION < t \<and> t < TPL_HIGH_LEVEL)"

definition timers_wf :: "'a EVENT_STATE_scheme \<Rightarrow> bool" where
  "timers_wf s \<longleftrightarrow> links_wf (Events s) TimerLinked (mEfiTimerList s)
     \<and> sorted (map (\<lambda>p. TriggerTime (the (Events s p))) (mEfiTimerList s))"

definition signal_wf :: "'a EVENT_STATE_scheme \<Rightarrow> bool" where
  "signal_wf s \<longleftrightarrow> links_wf (Events s) SignalLinked (gEventSignalQueue s)
     \<and> (\<forall>p e. Events s p = Some e \<longrightarrow> SignalLinked e = signals e)"

definition check_timer_wf :: "'a EVENT_STATE_scheme \<Rightarrow> bool" where
  "check_timer_wf s \<longleftrightarrow> (\<exists>e. Events s (mEfiCheckTimerEvent s) = Some e \<and> EvType e = EVT_NOTIFY_SIGNAL
     \<and> NotifyTpl e = TPL_HIGH_LEVEL - 1 \<and> NotifyFunction e = pCoreCheckTimers \<and> ExFlag e AND EVT_EXFLAG_EVENT_GROUP = 0)"

definition event_pool_wf :: "'a EVENT_STATE_scheme \<Rightarrow> bool" where
  "event_pool_wf s \<longleftrightarrow> distinct (Pool s) \<and> NULL \<notin> set (Pool s) \<and> (\<forall>p\<in>set (Pool s). Events s p = None)
     \<and> Events s NULL = None"

definition event_locks_wf :: "'a EVENT_STATE_scheme \<Rightarrow> bool" where
  "event_locks_wf s \<longleftrightarrow> LockTpl (Locks s gEventQueueLock) = TPL_HIGH_LEVEL
     \<and> LockTpl (Locks s mEfiTimerLock) = TPL_HIGH_LEVEL - 1 \<and> LockTpl (Locks s mEfiSystemTimeLock) = TPL_HIGH_LEVEL"

definition event_wf :: "'a EVENT_STATE_scheme \<Rightarrow> bool" where
  "event_wf s \<longleftrightarrow> (\<forall>p e. Events s p = Some e \<longrightarrow> event_ok e) \<and> queues_wf s \<and> timers_wf s \<and> signal_wf s
     \<and> links_wf (Events s) RuntimeLinked (RuntimeEventHead s) \<and> check_timer_wf s \<and> event_pool_wf s \<and> event_locks_wf s"

lemmas event_wf_defs = event_wf_def queues_wf_def timers_wf_def signal_wf_def check_timer_wf_def event_pool_wf_def
  event_locks_wf_def

text \<open>The invariant speaks about the event part of the state and the levels of the locks only.\<close>

lemma event_wf_cong:
  assumes "Events s' = Events s" "gEventQueue s' = gEventQueue s" "gEventPending s' = gEventPending s"
    "gEventSignalQueue s' = gEventSignalQueue s" "RuntimeEventHead s' = RuntimeEventHead s"
    "mEfiTimerList s' = mEfiTimerList s" "mEfiCheckTimerEvent s' = mEfiCheckTimerEvent s" "Pool s' = Pool s"
    "\<And>l. LockTpl (Locks s' l) = LockTpl (Locks s l)"
  shows "event_wf s' = event_wf s"
  using assms by (simp add: event_wf_defs)

lemma event_wf_links:
  assumes "event_wf s"
  shows "links_wf (Events s) (\<lambda>e. NotifyLinked e \<and> NotifyTpl e = t) (gEventQueue s t)"
    "links_wf (Events s) TimerLinked (mEfiTimerList s)" "links_wf (Events s) SignalLinked (gEventSignalQueue s)"
    "links_wf (Events s) RuntimeLinked (RuntimeEventHead s)"
  using assms by (simp_all add: event_wf_def queues_wf_def timers_wf_def signal_wf_def)

section \<open>Links\<close>

lemma links_wfD:
  assumes "links_wf ev inl ps"
  shows "distinct ps" "p \<in> set ps \<longleftrightarrow> (\<exists>e. ev p = Some e \<and> inl e)"
  using assms unfolding links_wf_def by blast+

lemma links_wfI:
  assumes "distinct ps" "\<And>p. p \<in> set ps \<longleftrightarrow> (\<exists>e. ev p = Some e \<and> inl e)"
  shows "links_wf ev inl ps"
  unfolding links_wf_def using assms by blast

lemma links_wf_update:
  assumes "links_wf ev inl ps" and "ev p = Some e" and "inl e' = inl e"
  shows "links_wf (ev(p \<mapsto> e')) inl ps"
  using assms(2,3) by (intro links_wfI) (auto simp: links_wfD(1) [OF assms(1)] links_wfD(2) [OF assms(1)])

lemma links_wf_remove:
  assumes "links_wf ev inl ps" and "\<not> inl e'"
  shows "links_wf (ev(p \<mapsto> e')) inl (remove1 p ps)"
  using assms by (intro links_wfI) (auto simp: links_wfD(1) links_wfD(2) [OF assms(1)])

lemma links_wf_free:
  assumes "links_wf ev inl ps"
  shows "links_wf (ev(p := None)) inl (remove1 p ps)"
  using assms by (intro links_wfI) (auto simp: links_wfD(1) links_wfD(2) [OF assms(1)])

lemma links_wf_append:
  assumes "links_wf ev inl ps" and "p \<notin> set ps" and "inl e'"
  shows "links_wf (ev(p \<mapsto> e')) inl (ps @ [p])" "links_wf (ev(p \<mapsto> e')) inl (p # ps)"
  using assms(2,3)
  by (auto intro!: links_wfI simp: links_wfD(1) [OF assms(1)] links_wfD(2) [OF assms(1)] split: if_splits)

lemma links_wf_new:
  assumes "links_wf ev inl ps" and "ev p = None" and "\<not> inl e'"
  shows "links_wf (ev(p \<mapsto> e')) inl ps"
  using assms(2,3) by (intro links_wfI) (auto simp: links_wfD(1) [OF assms(1)] links_wfD(2) [OF assms(1)])

section \<open>Updating an event\<close>

lemma PutEvent_simps [simp]:
  "gEfiCurrentTpl (PutEvent p f s) = gEfiCurrentTpl s"
  "Locks (PutEvent p f s) = Locks s"
  "Pool (PutEvent p f s) = Pool s"
  "gCpu (PutEvent p f s) = gCpu s"
  "gSmmBase2 (PutEvent p f s) = gSmmBase2 s"
  "gEventQueue (PutEvent p f s) = gEventQueue s"
  "gEventPending (PutEvent p f s) = gEventPending s"
  "gEventSignalQueue (PutEvent p f s) = gEventSignalQueue s"
  "gIdleLoopEvent (PutEvent p f s) = gIdleLoopEvent s"
  "RuntimeEventHead (PutEvent p f s) = RuntimeEventHead s"
  "mEfiTimerList (PutEvent p f s) = mEfiTimerList s"
  "mEfiCheckTimerEvent (PutEvent p f s) = mEfiCheckTimerEvent s"
  "mEfiSystemTime (PutEvent p f s) = mEfiSystemTime s"
  "gTimer (PutEvent p f s) = gTimer s"
  "EVENT_STATE.more (PutEvent p f s) = EVENT_STATE.more s"
  "Events (PutEvent p f s) = (Events s)(p := map_option f (Events s p))"
  by (simp_all add: PutEvent_def)

lemma acquired_event_simps [simp]:
  "GcdLinks (acquired l s) = GcdLinks s"
  "GcdEntries (acquired l s) = GcdEntries s"
  "Events (acquired l s) = Events s"
  "gEventQueue (acquired l s) = gEventQueue s"
  "gEventPending (acquired l s) = gEventPending s"
  "gEventSignalQueue (acquired l s) = gEventSignalQueue s"
  "gIdleLoopEvent (acquired l s) = gIdleLoopEvent s"
  "RuntimeEventHead (acquired l s) = RuntimeEventHead s"
  "mEfiTimerList (acquired l s) = mEfiTimerList s"
  "mEfiCheckTimerEvent (acquired l s) = mEfiCheckTimerEvent s"
  "mEfiSystemTime (acquired l s) = mEfiSystemTime s"
  "gTimer (acquired l s) = gTimer s"
  "EVENT_STATE.more (acquired l s) = EVENT_STATE.more s"
  "LockTpl (Locks (acquired l s) k) = LockTpl (Locks s k)"
  by (simp_all add: acquired_def)

lemma event_wf_acquired [simp]: "event_wf (acquired l s) = event_wf s"
  by (rule event_wf_cong) simp_all

lemma event_wf_event:
  assumes "event_wf s" and "Events s p = Some e"
  shows "event_ok e" "p \<noteq> NULL" "EvSignature e = EVENT_SIGNATURE" "EventCR p s = Some e"
proof -
  show "event_ok e" using assms by (simp add: event_wf_def)
  then show "EvSignature e = EVENT_SIGNATURE" by (simp add: event_ok_def)
  then show "EventCR p s = Some e" using assms(2) by (simp add: EventCR_def)
  have "Events s NULL = None" using assms(1) by (simp add: event_wf_def event_pool_wf_def)
  then show "p \<noteq> NULL" using assms(2) by (cases "p = NULL") simp_all
qed

lemma signals_notifies: "signals e \<Longrightarrow> notifies e"
  by (simp add: signals_def notifies_def bit.conj_disj_distrib or_eq_0_iff)

lemma event_pool_wf_cong:
  assumes "Pool s' = Pool s" and "\<And>p. Events s' p = None \<longleftrightarrow> Events s p = None"
  shows "event_pool_wf s' = event_pool_wf s"
  by (simp add: event_pool_wf_def assms)

lemma timers_wf_same:
  assumes "timers_wf s" and "mEfiTimerList s' = mEfiTimerList s" and "links_wf (Events s') TimerLinked (mEfiTimerList s)"
    and "\<And>q. q \<in> set (mEfiTimerList s) \<Longrightarrow> TriggerTime (the (Events s' q)) = TriggerTime (the (Events s q))"
  shows "timers_wf s'"
proof -
  have "map (\<lambda>q. TriggerTime (the (Events s' q))) (mEfiTimerList s) = map (\<lambda>q. TriggerTime (the (Events s q))) (mEfiTimerList s)"
    using assms(4) by simp
  then show ?thesis using assms(1-3) by (simp only: timers_wf_def)
qed

text \<open>
  Changing an event in what the queues do not depend on, with a timer list that fits the change.
\<close>

lemma event_wf_update_timers:
  assumes wf: "event_wf s" and e: "Events s p = Some e"
    and same: "EvSignature e' = EvSignature e" "EvType e' = EvType e" "NotifyTpl e' = NotifyTpl e"
      "NotifyFunction e' = NotifyFunction e" "ExFlag e' = ExFlag e" "NotifyLinked e' = NotifyLinked e"
      "SignalLinked e' = SignalLinked e" "RuntimeLinked e' = RuntimeLinked e"
    and time: "timers_wf (s\<lparr>Events := (Events s)(p \<mapsto> e'), mEfiTimerList := ts\<rparr>)" (is "timers_wf ?s")
  shows "event_wf (s\<lparr>Events := (Events s)(p \<mapsto> e'), mEfiTimerList := ts\<rparr>)"
proof -
  have t: "notifies e' = notifies e" "signals e' = signals e" using same by (simp_all add: notifies_def signals_def)
  then have ok: "event_ok e' = event_ok e" using same by (simp add: event_ok_def)
  have links: "links_wf (Events s) inl ps \<Longrightarrow> inl e' = inl e \<Longrightarrow> links_wf ((Events s)(p \<mapsto> e')) inl ps" for inl ps
    using links_wf_update e by blast
  have "check_timer_wf ?s" using wf e same by (auto simp: event_wf_def check_timer_wf_def)
  moreover have "queues_wf ?s" using wf e same t links by (auto simp: event_wf_def queues_wf_def)
  moreover have "signal_wf ?s" using wf e same t links by (auto simp: event_wf_def signal_wf_def)
  moreover have "event_pool_wf ?s = event_pool_wf s" by (rule event_pool_wf_cong) (auto simp: e)
  moreover have "links_wf ((Events s)(p \<mapsto> e')) RuntimeLinked (RuntimeEventHead s)"
    using wf same by (intro links) (simp_all add: event_wf_def)
  ultimately show ?thesis using wf e ok time by (simp add: event_wf_def event_locks_wf_def)
qed

lemma event_wf_update:
  assumes wf: "event_wf s" and e: "Events s p = Some e"
    and same: "EvSignature e' = EvSignature e" "EvType e' = EvType e" "NotifyTpl e' = NotifyTpl e"
      "NotifyFunction e' = NotifyFunction e" "ExFlag e' = ExFlag e" "NotifyLinked e' = NotifyLinked e"
      "SignalLinked e' = SignalLinked e" "RuntimeLinked e' = RuntimeLinked e" "TimerLinked e' = TimerLinked e"
    and time: "TimerLinked e \<longrightarrow> TriggerTime e' = TriggerTime e"
  shows "event_wf (s\<lparr>Events := (Events s)(p \<mapsto> e')\<rparr>)"
proof -
  have "TimerLinked e" if "p \<in> set (mEfiTimerList s)"
    using that links_wfD(2) [OF event_wf_links(2) [OF wf], of p] e by simp
  then have "TriggerTime (the (((Events s)(p \<mapsto> e')) q)) = TriggerTime (the (Events s q))" if "q \<in> set (mEfiTimerList s)" for q
    using that e time by (cases "q = p") simp_all
  moreover have "links_wf ((Events s)(p \<mapsto> e')) TimerLinked (mEfiTimerList s)"
    by (rule links_wf_update [OF event_wf_links(2) [OF wf] e same(9)])
  moreover have "timers_wf s" using wf by (simp add: event_wf_def)
  ultimately have "timers_wf (s\<lparr>Events := (Events s)(p \<mapsto> e'), mEfiTimerList := mEfiTimerList s\<rparr>)"
    using timers_wf_same [of s "s\<lparr>Events := (Events s)(p \<mapsto> e'), mEfiTimerList := mEfiTimerList s\<rparr>"] by simp
  then show ?thesis using event_wf_update_timers [OF wf e same(1-8)] by fastforce
qed

section \<open>Queueing a notification\<close>

definition notified :: "ptr \<Rightarrow> 'a EVENT_STATE_scheme \<Rightarrow> 'a EVENT_STATE_scheme" where
  "notified p s = (let t = NotifyTpl (the (Events s p)) in
     s\<lparr>Events := (Events s)(p := map_option (NotifyLinked_update (\<lambda>_. True)) (Events s p)),
       gEventQueue := (gEventQueue s)(t := remove1 p (gEventQueue s t) @ [p]),
       gEventPending := gEventPending s OR push_bit t 1\<rparr>)"

lemma event_wf_queue:
  assumes "event_wf s" and "Events s p = Some e"
  shows "p \<in> set (gEventQueue s t) \<longleftrightarrow> NotifyLinked e \<and> NotifyTpl e = t"
proof -
  have "links_wf (Events s) (\<lambda>e. NotifyLinked e \<and> NotifyTpl e = t) (gEventQueue s t)"
    using assms(1) by (simp add: event_wf_def queues_wf_def)
  then show ?thesis using links_wfD(2) [of "Events s" _ "gEventQueue s t" p] assms(2) by simp
qed

lemma CoreNotifyEvent_eq:
  assumes wf: "event_wf s" and e: "Events s p = Some e" and "notifies e"
    and "LockState (Locks s gEventQueueLock) = EfiLockAcquired"
  shows "CoreNotifyEvent p s = Some (notified p s)"
proof -
  let ?t = "NotifyTpl e"
  have t: "?t < 31" using event_wf_event(1) [OF wf e] assms(3) by (simp add: event_ok_def)
  note q = event_wf_queue [OF wf e]
  have r: "(\<lambda>u. remove1 p (gEventQueue s u)) = (gEventQueue s)(?t := remove1 p (gEventQueue s ?t))"
    using q by (auto simp: remove1_idem)
  show ?thesis
  proof (cases "NotifyLinked e")
    case True
    then have "RemoveNotifyLink p s = Some (s\<lparr>gEventQueue := (gEventQueue s)(?t := remove1 p (gEventQueue s ?t))\<rparr>)"
      using q t by (auto simp: RemoveNotifyLink_def r)
    then show ?thesis using e t assms(4) True
      by (simp add: CoreNotifyEvent_def ASSERT_LOCKED_def IntBit_def notified_def Let_def PutEvent_def)
  next
    case False
    then have "p \<notin> set (gEventQueue s ?t)" using q by simp
    then show ?thesis using e t assms(4) False
      by (simp add: CoreNotifyEvent_def ASSERT_LOCKED_def IntBit_def notified_def Let_def PutEvent_def remove1_idem)
  qed
qed

lemma notified_simps [simp]:
  "gEfiCurrentTpl (notified p s) = gEfiCurrentTpl s"
  "Locks (notified p s) = Locks s"
  "Pool (notified p s) = Pool s"
  "gEventSignalQueue (notified p s) = gEventSignalQueue s"
  "RuntimeEventHead (notified p s) = RuntimeEventHead s"
  "mEfiTimerList (notified p s) = mEfiTimerList s"
  "mEfiCheckTimerEvent (notified p s) = mEfiCheckTimerEvent s"
  "mEfiSystemTime (notified p s) = mEfiSystemTime s"
  "gTimer (notified p s) = gTimer s"
  "EVENT_STATE.more (notified p s) = EVENT_STATE.more s"
  "Events (notified p s) = (Events s)(p := map_option (NotifyLinked_update (\<lambda>_. True)) (Events s p))"
  "bit (gEventPending (notified p s)) t \<longleftrightarrow> bit (gEventPending s) t \<or> t = NotifyTpl (the (Events s p)) \<and> t < 64"
  by (auto simp: notified_def Let_def bit_simps bit_1_iff)

lemma event_wf_notified:
  assumes wf: "event_wf s" and e: "Events s p = Some e" and n: "notifies e"
  shows "event_wf (notified p s)"
proof -
  let ?t = "NotifyTpl e" and ?e = "e\<lparr>NotifyLinked := True\<rparr>"
  have ok: "event_ok e" using event_wf_event(1) [OF wf e] .
  then have t: "4 < ?t" "?t < 31" using n by (simp_all add: event_ok_def)
  have same: "notifies ?e" "signals ?e = signals e" "event_ok ?e"
    using n ok by (simp_all add: notifies_def signals_def event_ok_def)
  have links: "links_wf (Events s) inl ps \<Longrightarrow> inl ?e = inl e \<Longrightarrow> links_wf ((Events s)(p \<mapsto> ?e)) inl ps" for inl ps
    using links_wf_update e by blast
  have Qs: "links_wf (Events s) (\<lambda>e. NotifyLinked e \<and> NotifyTpl e = u) (gEventQueue s u)" for u
    by (rule event_wf_links(1) [OF wf])
  have "links_wf ((Events s)(p \<mapsto> ?e)) (\<lambda>e. NotifyLinked e \<and> NotifyTpl e = u) (gEventQueue (notified p s) u)" for u
  proof (cases "u = ?t")
    case True
    have "links_wf ((Events s)(p \<mapsto> e\<lparr>NotifyLinked := False\<rparr>)) (\<lambda>e. NotifyLinked e \<and> NotifyTpl e = u) (remove1 p (gEventQueue s u))"
      by (rule links_wf_remove [OF Qs]) simp
    then have "links_wf (((Events s)(p \<mapsto> e\<lparr>NotifyLinked := False\<rparr>))(p \<mapsto> ?e)) (\<lambda>e. NotifyLinked e \<and> NotifyTpl e = u)
        (remove1 p (gEventQueue s u) @ [p])"
      using True links_wfD(1) [OF Qs] by (intro links_wf_append) simp_all
    then show ?thesis using True e by (simp add: notified_def Let_def)
  next
    case False
    then show ?thesis using links_wf_update [OF Qs e] e by (simp add: notified_def Let_def)
  qed
  then have Q: "queues_wf (notified p s)"
    using wf e t same(1) by (auto simp: event_wf_def queues_wf_def notified_def Let_def bit_simps bit_1_iff split: if_splits)
  have "timers_wf (notified p s)"
  proof (rule timers_wf_same)
    show "timers_wf s" using wf by (simp add: event_wf_def)
    show "links_wf (Events (notified p s)) TimerLinked (mEfiTimerList s)"
      using links [OF event_wf_links(2) [OF wf]] e by simp
    show "TriggerTime (the (Events (notified p s) q)) = TriggerTime (the (Events s q))" for q
      using e by (cases "q = p") simp_all
  qed simp
  moreover have "check_timer_wf (notified p s)" using wf e by (auto simp: event_wf_def check_timer_wf_def)
  moreover have "signal_wf (notified p s)" using wf e links same(2) by (auto simp: event_wf_def signal_wf_def)
  moreover have "event_pool_wf (notified p s) = event_pool_wf s"
    by (rule event_pool_wf_cong) (auto simp: e)
  moreover have "links_wf ((Events s)(p \<mapsto> ?e)) RuntimeLinked (RuntimeEventHead s)"
    using wf by (intro links) (simp_all add: event_wf_def)
  ultimately show ?thesis using Q wf e same(3) by (simp add: event_wf_def event_locks_wf_def)
qed

end
