(* ===== verification/Event_Dispatch.thy ===== *)
theory Event_Dispatch
  imports Event_Wf
begin

unbundle bit_operations_syntax

text \<open>
  Lowering the task priority level: with nothing pending above the new level \<open>CoreRestoreTpl\<close> only sets the level;
  otherwise it delivers the queued notifications, the highest level first and each level in the order of its queue.
\<close>

section \<open>Lowering the level\<close>

definition lowered :: "EFI_TPL \<Rightarrow> 'a EVENT_STATE_scheme \<Rightarrow> 'a EVENT_STATE_scheme" where
  "lowered t s = (let s = s\<lparr>gEfiCurrentTpl := t\<rparr> in if t < TPL_HIGH_LEVEL then CoreSetInterruptState True s else s)"

lemma lowered_eq: "\<exists>i. lowered t s = s\<lparr>gEfiCurrentTpl := t, InterruptsEnabled := i\<rparr>"
proof -
  have "\<exists>i. s\<lparr>gEfiCurrentTpl := t\<rparr> = s\<lparr>gEfiCurrentTpl := t, InterruptsEnabled := i\<rparr>"
    by (rule exI [of _ "InterruptsEnabled s"]) simp
  then show ?thesis
    unfolding lowered_def CoreSetInterruptState_def Let_def by (auto split: option.split)
qed

lemma lowered_simps [simp]:
  "gEfiCurrentTpl (lowered t s) = t"
  "Locks (lowered t s) = Locks s"
  "Pool (lowered t s) = Pool s"
  "gCpu (lowered t s) = gCpu s"
  "gSmmBase2 (lowered t s) = gSmmBase2 s"
  "PcdVerifyNodeInList (lowered t s) = PcdVerifyNodeInList s"
  "PcdMaximumLinkedListLength (lowered t s) = PcdMaximumLinkedListLength s"
  "GcdLinks (lowered t s) = GcdLinks s"
  "GcdEntries (lowered t s) = GcdEntries s"
  "Events (lowered t s) = Events s"
  "gEventQueue (lowered t s) = gEventQueue s"
  "gEventPending (lowered t s) = gEventPending s"
  "gEventSignalQueue (lowered t s) = gEventSignalQueue s"
  "gIdleLoopEvent (lowered t s) = gIdleLoopEvent s"
  "RuntimeEventHead (lowered t s) = RuntimeEventHead s"
  "mEfiTimerList (lowered t s) = mEfiTimerList s"
  "mEfiCheckTimerEvent (lowered t s) = mEfiCheckTimerEvent s"
  "mEfiSystemTime (lowered t s) = mEfiSystemTime s"
  "gTimer (lowered t s) = gTimer s"
  "EVENT_STATE.more (lowered t s) = EVENT_STATE.more s"
  using lowered_eq [of t s] by auto

definition none_above :: "EFI_TPL \<Rightarrow> 'a EVENT_STATE_scheme \<Rightarrow> bool" where
  "none_above t s \<longleftrightarrow> (\<forall>u>t. \<not> bit (gEventPending s) u)"

lemma PendingLoop_done:
  assumes "none_above t s"
  shows "PendingLoop R Call t s = Some s"
proof (cases "gEventPending s = 0")
  case False
  then obtain k where k: "highest_bit (gEventPending s) k" using highest_bit_exists by blast
  then have "k \<le> t" using assms unfolding none_above_def highest_bit_def by (meson not_le)
  then show ?thesis using False HighBitSet64_eq [OF k] by (subst PendingLoop.simps) simp
qed (subst PendingLoop.simps, simp)

lemma CoreSetInterruptState_tpl [simp]: "gEfiCurrentTpl (CoreSetInterruptState b s) = gEfiCurrentTpl s"
  by (auto simp: CoreSetInterruptState_def split: option.split)

lemma PendingLoop_step:
  assumes "highest_bit (gEventPending s) k" and "t < k"
  shows "PendingLoop R Call t s = Option.bind (CoreDispatchEventNotifies R Call k (lowered k s)) (PendingLoop R Call t)"
proof -
  have "gEventPending s \<noteq> 0" using assms(1) by (auto simp: highest_bit_def)
  then show ?thesis using assms(2) HighBitSet64_eq [OF assms(1)]
    by (subst PendingLoop.simps) (simp add: lowered_def Let_def)
qed

lemma CoreRestoreTpl_eq:
  assumes "t \<le> gEfiCurrentTpl s" and "gEfiCurrentTpl s \<le> TPL_HIGH_LEVEL"
  shows "CoreRestoreTpl R Call t s = map_option (lowered t) (PendingLoop R Call t s)"
proof (cases "gEfiCurrentTpl s = TPL_HIGH_LEVEL")
  case True
  then have eq: "s\<lparr>gEfiCurrentTpl := TPL_HIGH_LEVEL\<rparr> = s" by (intro EVENT_STATE.equality) simp_all
  show ?thesis using assms True
    by (cases "PendingLoop R Call t s") (auto simp: CoreRestoreTpl_def VALID_TPL_def Let_def lowered_def eq)
next
  case False
  then show ?thesis using assms
    by (cases "PendingLoop R Call t s") (auto simp: CoreRestoreTpl_def VALID_TPL_def Let_def lowered_def)
qed

section \<open>What the clients of \<open>CoreRestoreTpl\<close> rely on\<close>

locale lowers =
  fixes R :: "'a restore"
  assumes quiet_law: "\<lbrakk>t \<le> gEfiCurrentTpl s; gEfiCurrentTpl s \<le> TPL_HIGH_LEVEL; none_above t s\<rbrakk> \<Longrightarrow> R t s = Some (lowered t s)"
begin

text \<open>Releasing a lock with nothing pending above the level it was taken at.\<close>

lemma release_quiet:
  assumes "LockState (Locks s l) = EfiLockAcquired" and "OwnerTpl (Locks s l) \<le> gEfiCurrentTpl s"
    and "gEfiCurrentTpl s \<le> TPL_HIGH_LEVEL" and "none_above (OwnerTpl (Locks s l)) s"
  shows "CoreReleaseLock R l s = Some (lowered (OwnerTpl (Locks s l))
    (s\<lparr>Locks := (Locks s)(l := (Locks s l)\<lparr>LockState := EfiLockReleased\<rparr>)\<rparr>))"
  using assms by (simp add: CoreReleaseLock_eq quiet_law none_above_def)

end

interpretation rt: lowers "RestoreTpl Notify (Suc n)" for Notify n
  by unfold_locales (simp add: CoreRestoreTpl_eq PendingLoop_done)

section \<open>Delivering notifications\<close>

definition cleared :: "IEVENT \<Rightarrow> IEVENT" where
  "cleared e = e\<lparr>NotifyLinked := False, SignalCount := (if signals e then 0 else SignalCount e)\<rparr>"

text \<open>
  What dispatching does not change: all but the level, the queues, the delivered events, the client's data and who last
  owned a free lock.
\<close>

definition dispatch_frame :: "'a EVENT_STATE_scheme \<Rightarrow> 'a EVENT_STATE_scheme \<Rightarrow> bool" where
  "dispatch_frame s s' \<longleftrightarrow> gCpu s' = gCpu s \<and> gSmmBase2 s' = gSmmBase2 s
     \<and> PcdVerifyNodeInList s' = PcdVerifyNodeInList s
     \<and> PcdMaximumLinkedListLength s' = PcdMaximumLinkedListLength s \<and> Pool s' = Pool s
     \<and> GcdLinks s' = GcdLinks s \<and> GcdEntries s' = GcdEntries s \<and> gEventSignalQueue s' = gEventSignalQueue s
     \<and> gIdleLoopEvent s' = gIdleLoopEvent s \<and> RuntimeEventHead s' = RuntimeEventHead s
     \<and> mEfiTimerList s' = mEfiTimerList s \<and> mEfiCheckTimerEvent s' = mEfiCheckTimerEvent s
     \<and> mEfiSystemTime s' = mEfiSystemTime s \<and> gTimer s' = gTimer s
     \<and> (\<forall>l. LockState (Locks s' l) = LockState (Locks s l) \<and> LockTpl (Locks s' l) = LockTpl (Locks s l)
            \<and> (LockState (Locks s l) = EfiLockAcquired \<longrightarrow> OwnerTpl (Locks s' l) = OwnerTpl (Locks s l)))"

text \<open>
  The effect of delivering the notifications \<open>ps\<close> in this order, \<open>g\<close> being what the notification functions do with the
  client's data.
\<close>

type_synonym 'a effect = "ptr \<Rightarrow> ptr \<Rightarrow> ptr \<Rightarrow> EFI_TPL \<Rightarrow> 'a \<Rightarrow> 'a"

definition effect_of :: "'a effect \<Rightarrow> (ptr \<Rightarrow> IEVENT option) \<Rightarrow> ptr \<Rightarrow> 'a \<Rightarrow> 'a" where
  "effect_of g ev p = (let e = the (ev p) in g (NotifyFunction e) p (NotifyContext e) (NotifyTpl e))"

definition delivered :: "'a effect \<Rightarrow> ptr list \<Rightarrow> 'a EVENT_STATE_scheme \<Rightarrow> 'a EVENT_STATE_scheme \<Rightarrow> bool" where
  "delivered g ps s s' \<longleftrightarrow> dispatch_frame s s'
     \<and> Events s' = (\<lambda>p. if p \<in> set ps then map_option cleared (Events s p) else Events s p)
     \<and> gEventQueue s' = (\<lambda>t. filter (\<lambda>p. p \<notin> set ps) (gEventQueue s t))
     \<and> EVENT_STATE.more s' = fold (effect_of g (Events s)) ps (EVENT_STATE.more s)"

lemma cleared_simps [simp]:
  "EvSignature (cleared e) = EvSignature e"
  "EvType (cleared e) = EvType e"
  "NotifyTpl (cleared e) = NotifyTpl e"
  "NotifyFunction (cleared e) = NotifyFunction e"
  "NotifyContext (cleared e) = NotifyContext e"
  "ExFlag (cleared e) = ExFlag e"
  "\<not> NotifyLinked (cleared e)"
  "SignalLinked (cleared e) = SignalLinked e"
  "RuntimeLinked (cleared e) = RuntimeLinked e"
  "TimerLinked (cleared e) = TimerLinked e"
  "TriggerTime (cleared e) = TriggerTime e"
  "signals (cleared e) = signals e"
  "notifies (cleared e) = notifies e"
  "event_ok (cleared e) = event_ok e"
  by (simp_all add: cleared_def signals_def notifies_def event_ok_def)

lemma dispatch_frame_trans: "dispatch_frame s s1 \<Longrightarrow> dispatch_frame s1 s2 \<Longrightarrow> dispatch_frame s s2"
  unfolding dispatch_frame_def by simp

lemma delivered_append:
  assumes "delivered g ps s s1" and "delivered g qs s1 s2" and "set ps \<inter> set qs = {}"
  shows "delivered g (ps @ qs) s s2"
proof -
  have "effect_of g (Events s1) q = effect_of g (Events s) q" if "q \<in> set qs" for q
    using that assms(1,3) by (auto simp: delivered_def effect_of_def Let_def)
  then have "fold (effect_of g (Events s1)) qs x = fold (effect_of g (Events s)) qs x" for x
    by (rule fold_cong [OF refl refl])
  then show ?thesis using assms dispatch_frame_trans [of s s1 s2]
    by (auto simp: delivered_def fun_eq_iff conj_commute)
qed

lemma links_wf_cleared:
  assumes "links_wf ev inl xs" and "\<And>e. inl (cleared e) = inl e"
  shows "links_wf (\<lambda>p. if p \<in> set ps then map_option cleared (ev p) else ev p) inl xs"
  using assms(2) by (intro links_wfI) (auto simp: links_wfD(1) [OF assms(1)] links_wfD(2) [OF assms(1)])

lemma event_wf_delivered:
  assumes wf: "event_wf s" and del: "delivered g ps s s'"
    and pend: "\<And>t. bit (gEventPending s') t \<Longrightarrow> bit (gEventPending s) t"
      "\<And>t. gEventQueue s' t \<noteq> [] \<Longrightarrow> bit (gEventPending s') t"
  shows "event_wf s'"
proof -
  have ev: "Events s' = (\<lambda>p. if p \<in> set ps then map_option cleared (Events s p) else Events s p)"
    and q: "gEventQueue s' = (\<lambda>t. filter (\<lambda>p. p \<notin> set ps) (gEventQueue s t))" and fr: "dispatch_frame s s'"
    using del by (simp_all add: delivered_def)
  have Q: "links_wf (Events s) (\<lambda>e. NotifyLinked e \<and> NotifyTpl e = t) (gEventQueue s t)" for t
    by (rule event_wf_links(1) [OF wf])
  have "links_wf (Events s') (\<lambda>e. NotifyLinked e \<and> NotifyTpl e = t) (gEventQueue s' t)" for t
    by (intro links_wfI) (auto simp: ev q links_wfD(1) [OF Q] links_wfD(2) [OF Q])
  moreover have "notifies e" if "Events s' p = Some e" "NotifyLinked e" for p e
    using wf that by (auto simp: ev event_wf_def queues_wf_def split: if_splits)
  ultimately have QW: "queues_wf s'"
    using wf pend by (simp add: queues_wf_def event_wf_def)
  have T: "links_wf (Events s') TimerLinked (mEfiTimerList s)"
    using event_wf_links(2) [OF wf] by (simp add: ev links_wf_cleared)
  have "TriggerTime (the (Events s' q)) = TriggerTime (the (Events s q))" if "q \<in> set (mEfiTimerList s)" for q
    using that links_wfD(2) [OF event_wf_links(2) [OF wf], of q] by (auto simp: ev)
  moreover have "timers_wf s" "mEfiTimerList s' = mEfiTimerList s"
    using wf fr by (simp_all add: event_wf_def dispatch_frame_def)
  ultimately have "timers_wf s'" using T timers_wf_same [of s s'] by blast
  moreover have "signal_wf s'"
    using wf fr by (auto simp: signal_wf_def event_wf_def dispatch_frame_def ev links_wf_cleared split: if_splits)
  moreover have "check_timer_wf s'"
    using wf fr by (auto simp: check_timer_wf_def event_wf_def dispatch_frame_def ev)
  moreover have "event_pool_wf s' = event_pool_wf s"
    using fr by (intro event_pool_wf_cong) (simp_all add: dispatch_frame_def ev)
  moreover have "event_locks_wf s' = event_locks_wf s" using fr by (simp add: event_locks_wf_def dispatch_frame_def)
  moreover have "event_ok e" if "Events s' p = Some e" for p e
    using wf that by (auto simp: ev event_wf_def split: if_splits)
  moreover have "links_wf (Events s') RuntimeLinked (RuntimeEventHead s')"
    using wf fr by (simp add: event_wf_def dispatch_frame_def ev links_wf_cleared)
  ultimately show ?thesis using wf QW by (simp add: event_wf_def)
qed

section \<open>The queue of one level\<close>

text \<open>The notification functions of the events \<open>ps\<close> change the client's data only, as \<open>g\<close> says.\<close>

definition benign :: "'a notify \<Rightarrow> 'a effect \<Rightarrow> (ptr \<Rightarrow> IEVENT option) \<Rightarrow> ptr list \<Rightarrow> bool" where
  "benign Call g ev ps \<longleftrightarrow> (\<forall>p e s. p \<in> set ps \<longrightarrow> ev p = Some e \<longrightarrow>
     Call (NotifyFunction e) p (NotifyContext e) s
       = Some (EVENT_STATE.more_update (g (NotifyFunction e) p (NotifyContext e) (gEfiCurrentTpl s)) s))"

text \<open>Taking the first event out of a queue before its notification.\<close>

definition take_event :: "ptr \<Rightarrow> 'a EVENT_STATE_scheme \<Rightarrow> 'a EVENT_STATE_scheme" where
  "take_event p s = s\<lparr>Events := (Events s)(p := map_option cleared (Events s p)),
     gEventQueue := (\<lambda>t. filter (\<lambda>q. q \<noteq> p) (gEventQueue s t))\<rparr>"

definition released_event_lock :: "'a EVENT_STATE_scheme \<Rightarrow> 'a EVENT_STATE_scheme" where
  "released_event_lock s = s\<lparr>Locks := (Locks s)(gEventQueueLock := (Locks s gEventQueueLock)\<lparr>LockState := EfiLockReleased\<rparr>)\<rparr>"

context lowers
begin

lemma DispatchLoop_head:
  assumes wf: "event_wf s" and q: "gEventQueue s P = p # ps" and e: "Events s p = Some e"
    and lock: "LockState (Locks s gEventQueueLock) = EfiLockAcquired" "OwnerTpl (Locks s gEventQueueLock) = P"
    and tpl: "gEfiCurrentTpl s = TPL_HIGH_LEVEL" and above: "none_above P s" and P: "P < TPL_HIGH_LEVEL"
  shows "DispatchLoop R Call P s
    = Option.bind (Call (NotifyFunction e) p (NotifyContext e) (lowered P (released_event_lock (take_event p s))))
        (\<lambda>s. Option.bind (CoreAcquireEventLock s) (DispatchLoop R Call P))"
proof -
  let ?l = gEventQueueLock and ?s0 = "take_event p s"
  let ?s2 = "lowered P (released_event_lock ?s0)"
  have pe: "NotifyTpl e = P" "NotifyLinked e" using event_wf_queue [OF wf e, of P] q by simp_all
  have ok: "NotifyFunction e \<noteq> NULL"
    using wf e pe(2) by (auto simp: event_wf_def queues_wf_def event_ok_def)
  have r: "(\<lambda>u. remove1 p (gEventQueue s u)) = (\<lambda>u. filter (\<lambda>x. x \<noteq> p) (gEventQueue s u))"
    by (simp add: remove1_filter [OF links_wfD(1) [OF event_wf_links(1) [OF wf]]])
  have in_q: "\<exists>t\<in>set [0..<Suc TPL_HIGH_LEVEL]. p \<in> set (gEventQueue s t)" using q P by (intro bexI [of _ P]) auto
  have s0: "(if signals e then PutEvent p (SignalCount_update (\<lambda>_. 0)) s' else s') = ?s0"
    if "s' = PutEvent p (NotifyLinked_update (\<lambda>_. False)) (s\<lparr>gEventQueue := (\<lambda>u. remove1 p (gEventQueue s u))\<rparr>)" for s'
    using e by (simp add: that take_event_def PutEvent_def cleared_def r)
  have rel: "CoreReleaseEventLock R ?s0 = Some ?s2"
    using release_quiet [of ?s0 ?l] lock tpl above P
    by (simp add: CoreReleaseEventLock_def take_event_def released_event_lock_def none_above_def)
  have "Events ?s2 p = Some (cleared e)" using e by (simp add: take_event_def released_event_lock_def)
  then show ?thesis
    using q event_wf_event(4) [OF wf e] in_q rel ok
    by (subst DispatchLoop.simps) (simp add: RemoveNotifyLink_def Let_def s0 flip: signals_def)
qed

lemma DispatchLoop_step:
  assumes wf: "event_wf s" and q: "gEventQueue s P = p # ps" and e: "Events s p = Some e"
    and lock: "LockState (Locks s gEventQueueLock) = EfiLockAcquired" "OwnerTpl (Locks s gEventQueueLock) = P"
    and tpl: "gEfiCurrentTpl s = TPL_HIGH_LEVEL" and above: "none_above P s" and P: "P < TPL_HIGH_LEVEL"
    and call: "benign Call g (Events s) [p]"
  shows "\<exists>s1. DispatchLoop R Call P s = DispatchLoop R Call P s1 \<and> delivered g [p] s s1
    \<and> gEventPending s1 = gEventPending s \<and> OwnerTpl (Locks s1 gEventQueueLock) = P \<and> gEfiCurrentTpl s1 = TPL_HIGH_LEVEL"
proof -
  let ?l = gEventQueueLock
  have lt: "LockTpl (Locks s ?l) = TPL_HIGH_LEVEL" using wf by (simp add: event_wf_def event_locks_wf_def)
  have pe: "NotifyTpl e = P" using event_wf_queue [OF wf e, of P] q by simp
  define s2 where "s2 = lowered P (released_event_lock (take_event p s))"
  define s3 where "s3 = EVENT_STATE.more_update (g (NotifyFunction e) p (NotifyContext e) P) s2"
  have "gEfiCurrentTpl s2 = P" by (simp add: s2_def)
  then have cl: "Call (NotifyFunction e) p (NotifyContext e) s2 = Some s3"
    using call e by (simp add: benign_def s3_def)
  have "lock_free ?l s3" using P lt by (simp add: lock_free_def s3_def s2_def take_event_def released_event_lock_def)
  then have acq: "CoreAcquireEventLock s3 = Some (acquired ?l s3)"
    by (simp add: CoreAcquireEventLock_def CoreAcquireLock_eq)
  have "DispatchLoop R Call P s = DispatchLoop R Call P (acquired ?l s3)"
    using DispatchLoop_head [OF wf q e lock tpl above P, of Call] cl acq by (simp flip: s2_def)
  moreover have "delivered g [p] s (acquired ?l s3)"
    using lock lt e pe
    by (auto simp: delivered_def dispatch_frame_def acquired_def s3_def s2_def take_event_def released_event_lock_def effect_of_def)
  moreover have "gEventPending (acquired ?l s3) = gEventPending s" "OwnerTpl (Locks (acquired ?l s3) ?l) = P"
    "gEfiCurrentTpl (acquired ?l s3) = TPL_HIGH_LEVEL"
    using lt by (simp_all add: s3_def s2_def take_event_def released_event_lock_def)
  ultimately show ?thesis by blast
qed

lemma DispatchLoop_all:
  assumes "event_wf s" and "LockState (Locks s gEventQueueLock) = EfiLockAcquired"
    and "OwnerTpl (Locks s gEventQueueLock) = P" and "gEfiCurrentTpl s = TPL_HIGH_LEVEL" and "none_above P s"
    and P: "P < TPL_HIGH_LEVEL" and "benign Call g (Events s) (gEventQueue s P)"
  shows "\<exists>s1. DispatchLoop R Call P s = Some s1 \<and> delivered g (gEventQueue s P) s s1
    \<and> gEventPending s1 = gEventPending s \<and> OwnerTpl (Locks s1 gEventQueueLock) = P \<and> gEfiCurrentTpl s1 = TPL_HIGH_LEVEL"
  using assms(1-5,7)
proof (induction "gEventQueue s P" arbitrary: s)
  case Nil
  then have "DispatchLoop R Call P s = Some s" by (subst DispatchLoop.simps) simp
  moreover have "delivered g [] s s" by (simp add: delivered_def dispatch_frame_def)
  ultimately show ?case using Nil by auto
next
  case (Cons p ps)
  have Q: "links_wf (Events s) (\<lambda>e. NotifyLinked e \<and> NotifyTpl e = P) (gEventQueue s P)"
    by (rule event_wf_links(1) [OF Cons.prems(1)])
  then obtain e where e: "Events s p = Some e" using links_wfD(2) [OF Q, of p] Cons.hyps(2) [symmetric] by auto
  have p: "p \<notin> set ps" using links_wfD(1) [OF Q] Cons.hyps(2) [symmetric] by simp
  have "benign Call g (Events s) [p]" using Cons.prems(6) Cons.hyps(2) [symmetric] by (simp add: benign_def)
  then obtain s1 where s1: "DispatchLoop R Call P s = DispatchLoop R Call P s1" and d1: "delivered g [p] s s1"
    and p1: "gEventPending s1 = gEventPending s" and o1: "OwnerTpl (Locks s1 gEventQueueLock) = P"
      "gEfiCurrentTpl s1 = TPL_HIGH_LEVEL"
    using DispatchLoop_step [OF Cons.prems(1) Cons.hyps(2) [symmetric] e Cons.prems(2,3,4,5) P] by blast
  have q1: "gEventQueue s1 = (\<lambda>t. filter (\<lambda>x. x \<notin> set [p]) (gEventQueue s t))" using d1 by (simp add: delivered_def)
  have "gEventQueue s t \<noteq> []" if "gEventQueue s1 t \<noteq> []" for t using that by (auto simp: q1)
  then have "gEventQueue s1 t \<noteq> [] \<Longrightarrow> bit (gEventPending s) t" for t
    using Cons.prems(1) by (simp add: event_wf_def queues_wf_def)
  then have wf1: "event_wf s1" using event_wf_delivered [OF Cons.prems(1) d1] by (simp add: p1)
  have "filter (\<lambda>x. x \<noteq> p) ps = ps" using p by (auto intro!: filter_True)
  then have qs: "ps = gEventQueue s1 P" using Cons.hyps(2) [symmetric] by (simp add: q1)
  have "benign Call g (Events s1) (gEventQueue s1 P)"
    using Cons.prems(6) Cons.hyps(2) [symmetric] p d1 by (auto simp: benign_def delivered_def simp flip: qs)
  moreover have "LockState (Locks s1 gEventQueueLock) = EfiLockAcquired"
    using d1 Cons.prems(2) by (simp add: delivered_def dispatch_frame_def)
  moreover have "none_above P s1" using Cons.prems(5) by (simp add: none_above_def p1)
  ultimately obtain s2 where s2: "DispatchLoop R Call P s1 = Some s2" "delivered g (gEventQueue s1 P) s1 s2"
    "gEventPending s2 = gEventPending s1" "OwnerTpl (Locks s2 gEventQueueLock) = P" "gEfiCurrentTpl s2 = TPL_HIGH_LEVEL"
    using Cons.hyps(1) [OF qs wf1 _ o1] by blast
  then have "delivered g ([p] @ ps) s s2" using delivered_append [OF d1] p by (simp flip: qs)
  then show ?case using s1 s2 p1 Cons.hyps(2) [symmetric] by auto
qed

lemma CoreDispatchEventNotifies_all:
  assumes wf: "event_wf s" and lock: "LockState (Locks s gEventQueueLock) = EfiLockReleased"
    and tpl: "gEfiCurrentTpl s = P" and above: "none_above P s" and P: "P < TPL_HIGH_LEVEL"
    and call: "benign Call g (Events s) (gEventQueue s P)"
  shows "\<exists>s1. CoreDispatchEventNotifies R Call P s = Some s1 \<and> delivered g (gEventQueue s P) s s1
    \<and> gEventPending s1 = gEventPending s AND NOT (push_bit P 1) \<and> gEfiCurrentTpl s1 = P"
proof -
  let ?l = gEventQueueLock
  let ?a = "acquired ?l s"
  have lt: "LockTpl (Locks s ?l) = TPL_HIGH_LEVEL" using wf by (simp add: event_wf_def event_locks_wf_def)
  then have "lock_free ?l s" using lock tpl P by (simp add: lock_free_def)
  then have acq: "CoreAcquireEventLock s = Some ?a" by (simp add: CoreAcquireEventLock_def CoreAcquireLock_eq)
  have "none_above P ?a" using above by (simp add: none_above_def)
  then obtain s2 where s2: "DispatchLoop R Call P ?a = Some s2" "delivered g (gEventQueue s P) ?a s2"
    "gEventPending s2 = gEventPending s" "OwnerTpl (Locks s2 ?l) = P" "gEfiCurrentTpl s2 = TPL_HIGH_LEVEL"
    using DispatchLoop_all [of ?a P Call g] wf lt tpl P call by auto
  let ?s3 = "s2\<lparr>gEventPending := gEventPending s AND NOT (push_bit P 1)\<rparr>"
  let ?s4 = "lowered P (?s3\<lparr>Locks := (Locks s2)(?l := (Locks s2 ?l)\<lparr>LockState := EfiLockReleased\<rparr>)\<rparr>)"
  have ls: "LockState (Locks s2 ?l) = EfiLockAcquired" using s2(2) by (simp add: delivered_def dispatch_frame_def)
  have "none_above P ?s3" using above by (simp add: none_above_def bit_simps)
  then have "CoreReleaseEventLock R ?s3 = Some ?s4"
    using release_quiet [of ?s3 ?l] ls s2(4,5) P by (simp add: CoreReleaseEventLock_def)
  then have "CoreDispatchEventNotifies R Call P s = Some ?s4"
    using acq s2 P tpl by (simp add: CoreDispatchEventNotifies_def IntBit_def Let_def)
  moreover have "LockState (Locks ?a k) = LockState (Locks s k)" "OwnerTpl (Locks ?a k) = OwnerTpl (Locks s k)"
    if "k \<noteq> ?l" for k using that by simp_all
  then have "delivered g (gEventQueue s P) s ?s4"
    using s2(2) lock by (auto simp: delivered_def dispatch_frame_def)
  ultimately show ?thesis by (intro exI [of _ ?s4]) simp
qed

text \<open>
  The order of delivery: the levels above the new one, from the highest down, each in the order of its queue.
\<close>

end

definition delivery_order :: "EFI_TPL \<Rightarrow> EFI_TPL \<Rightarrow> (EFI_TPL \<Rightarrow> ptr list) \<Rightarrow> ptr list" where
  "delivery_order t k q = concat (map q (rev [Suc t..<k]))"

lemma delivery_order_Suc: "t < k \<Longrightarrow> delivery_order t (Suc k) q = q k @ delivery_order t k q"
  by (simp add: delivery_order_def)

lemma set_delivery_order: "p \<in> set (delivery_order t k q) \<longleftrightarrow> (\<exists>u. t < u \<and> u < k \<and> p \<in> set (q u))"
  by (auto simp: delivery_order_def Suc_le_eq)

lemma queue_disjoint:
  assumes "event_wf s" and "t \<noteq> u" and "p \<in> set (gEventQueue s t)"
  shows "p \<notin> set (gEventQueue s u)"
proof -
  have Q: "links_wf (Events s) (\<lambda>e. NotifyLinked e \<and> NotifyTpl e = t) (gEventQueue s t)" for t
    by (rule event_wf_links(1) [OF assms(1)])
  show ?thesis using assms(2,3) by (auto simp: links_wfD(2) [OF Q])
qed

context lowers
begin

lemma PendingLoop_idle:
  assumes "none_above t s"
  shows "\<exists>s1. PendingLoop R Call t s = Some s1 \<and> delivered g [] s s1
    \<and> (\<forall>u. bit (gEventPending s1) u \<longleftrightarrow> u \<le> t \<and> bit (gEventPending s) u)"
proof -
  have "delivered g [] s s" by (simp add: delivered_def dispatch_frame_def)
  moreover have "u \<le> t" if "bit (gEventPending s) u" for u
    using assms that by (cases "t < u") (auto simp: none_above_def)
  ultimately show ?thesis using PendingLoop_done [OF assms, of R Call] by blast
qed

lemma PendingLoop_all:
  assumes "event_wf s" and "LockState (Locks s gEventQueueLock) = EfiLockReleased" and "none_above k s"
    and "k < TPL_HIGH_LEVEL" and "benign Call g (Events s) (delivery_order t (Suc k) (gEventQueue s))"
  shows "\<exists>s1. PendingLoop R Call t s = Some s1 \<and> delivered g (delivery_order t (Suc k) (gEventQueue s)) s s1
    \<and> (\<forall>u. bit (gEventPending s1) u \<longleftrightarrow> u \<le> t \<and> bit (gEventPending s) u)"
  using assms
proof (induction k arbitrary: s)
  case 0
  have "none_above t s" using 0(3) by (simp add: none_above_def)
  then show ?case using PendingLoop_idle by (simp add: delivery_order_def)
next
  case (Suc k)
  let ?q = "gEventQueue s" and ?k = "Suc k"
  show ?case
  proof (cases "?k \<le> t")
    case True
    then have "none_above t s" "delivery_order t (Suc ?k) ?q = []"
      using Suc.prems(3) by (auto simp: none_above_def delivery_order_def)
    then show ?thesis using PendingLoop_idle by simp
  next
    case False
    then have tk: "t < ?k" by simp
    have ord: "delivery_order t (Suc ?k) ?q = ?q ?k @ delivery_order t ?k ?q" by (rule delivery_order_Suc [OF tk])
    show ?thesis
    proof (cases "bit (gEventPending s) ?k")
      case False
      then have "?q ?k = []" using Suc.prems(1) by (auto simp: event_wf_def queues_wf_def)
      moreover have "none_above k s" using Suc.prems(3) False by (auto simp: none_above_def) (metis Suc_lessI)
      ultimately show ?thesis using Suc.IH [OF Suc.prems(1,2)] Suc.prems(4,5) by (simp add: ord)
    next
      case True
      then have hb: "highest_bit (gEventPending s) ?k" using Suc.prems(3) by (simp add: highest_bit_def none_above_def)
      have b: "benign Call g (Events s) (?q ?k)" "benign Call g (Events s) (delivery_order t ?k ?q)"
        using Suc.prems(5) by (simp_all add: ord benign_def)
      have wfl: "event_wf (lowered ?k s) = event_wf s" by (rule event_wf_cong) simp_all
      then obtain s1 where s1: "CoreDispatchEventNotifies R Call ?k (lowered ?k s) = Some s1"
        "delivered g (?q ?k) (lowered ?k s) s1" "gEventPending s1 = gEventPending s AND NOT (push_bit ?k 1)"
        using CoreDispatchEventNotifies_all [of "lowered ?k s" ?k Call g] Suc.prems b(1) by (auto simp: none_above_def)
      have d1: "delivered g (?q ?k) s s1" using s1(2) by (simp add: delivered_def dispatch_frame_def cong del: if_weak_cong)
      have p1: "bit (gEventPending s1) u \<longleftrightarrow> bit (gEventPending s) u \<and> u \<noteq> ?k" for u
        using Suc.prems(1,4) bit_imp_le_length [of "gEventPending s" u]
        by (auto simp: s1(3) bit_simps bit_1_iff)
      have q1: "gEventQueue s1 u = (if u = ?k then [] else ?q u)" for u
        using d1 queue_disjoint [OF Suc.prems(1), of u ?k] by (auto simp: delivered_def intro!: filter_True)
      have wf1: "event_wf s1"
        by (rule event_wf_delivered [OF Suc.prems(1) d1])
          (use Suc.prems(1) in \<open>auto simp: p1 q1 event_wf_def queues_wf_def split: if_splits\<close>)
      have o1: "delivery_order t ?k (gEventQueue s1) = delivery_order t ?k ?q"
        by (auto simp: delivery_order_def q1 intro!: arg_cong [of _ _ concat])
      have dis: "set (?q ?k) \<inter> set (delivery_order t ?k ?q) = {}"
        using queue_disjoint [OF Suc.prems(1), of ?k] by (fastforce simp: set_delivery_order)
      have "benign Call g (Events s1) (delivery_order t ?k (gEventQueue s1))"
        unfolding o1 using b(2) d1 dis by (auto simp: benign_def delivered_def)
      moreover have "LockState (Locks s1 gEventQueueLock) = EfiLockReleased"
        using d1 Suc.prems(2) by (simp add: delivered_def dispatch_frame_def)
      moreover have "none_above k s1" using Suc.prems(3) by (auto simp: none_above_def p1) (metis Suc_lessI)
      moreover have "k < TPL_HIGH_LEVEL" using Suc.prems(4) by simp
      ultimately obtain s2 where s2: "PendingLoop R Call t s1 = Some s2" "delivered g (delivery_order t ?k ?q) s1 s2"
        "\<forall>u. bit (gEventPending s2) u \<longleftrightarrow> u \<le> t \<and> bit (gEventPending s1) u"
        using Suc.IH [OF wf1] unfolding o1 by blast
      have "PendingLoop R Call t s = Some s2" using PendingLoop_step [OF hb tk, of R Call] s1(1) s2(1) by simp
      moreover have "bit (gEventPending s2) u \<longleftrightarrow> u \<le> t \<and> bit (gEventPending s) u" for u
        using s2(3) p1 [of u] tk by (cases "u \<le> t") auto
      ultimately show ?thesis using delivered_append [OF d1 s2(2) dis] unfolding ord by blast
    qed
  qed
qed

end

end
