(* ===== verification/Event_Signal.thy ===== *)
theory Event_Signal
  imports Event_Dispatch
begin

unbundle bit_operations_syntax

text \<open>
  What signalling an event does to the event database, for an event on its own and for one in a group, and
  that \<open>CoreSignalEvent\<close> does it.
\<close>

section \<open>Equal up to the level\<close>

text \<open>The same state but for the task priority level, the interrupt flag and the last owner of free locks.\<close>

definition agrees :: "'a EVENT_STATE_scheme \<Rightarrow> 'a EVENT_STATE_scheme \<Rightarrow> bool" where
  "agrees s s' \<longleftrightarrow> dispatch_frame s s' \<and> Events s' = Events s \<and> gEventQueue s' = gEventQueue s
     \<and> gEventPending s' = gEventPending s \<and> EVENT_STATE.more s' = EVENT_STATE.more s"

lemma agrees_refl: "agrees s s"
  by (simp add: agrees_def dispatch_frame_def)

lemma agrees_trans: "agrees s s1 \<Longrightarrow> agrees s1 s2 \<Longrightarrow> agrees s s2"
  unfolding agrees_def using dispatch_frame_trans [of s s1 s2] by simp

lemma agrees_wf: "agrees s s' \<Longrightarrow> event_wf s' = event_wf s"
  by (rule event_wf_cong) (simp_all add: agrees_def dispatch_frame_def)

lemma agrees_above: "agrees s s' \<Longrightarrow> none_above t s' = none_above t s"
  by (simp add: agrees_def none_above_def)

lemma agrees_PutEvent: "agrees s s' \<Longrightarrow> agrees (PutEvent p f s) (PutEvent p f s')"
  by (simp add: agrees_def dispatch_frame_def PutEvent_def)

lemma agrees_notified: "agrees s s' \<Longrightarrow> agrees (notified p s) (notified p s')"
  by (simp add: agrees_def dispatch_frame_def notified_def Let_def)

lemma agrees_fold_notified: "agrees s s' \<Longrightarrow> agrees (fold notified ps s) (fold notified ps s')"
  by (induction ps arbitrary: s s') (simp_all add: agrees_notified)

section \<open>Signalling\<close>

definition grouped :: "IEVENT \<Rightarrow> bool" where
  "grouped e \<longleftrightarrow> ExFlag e AND EVT_EXFLAG_EVENT_GROUP \<noteq> 0"

definition group_members :: "EFI_GUID \<Rightarrow> 'a EVENT_STATE_scheme \<Rightarrow> ptr list" where
  "group_members G s = filter (\<lambda>q. EventGroup (the (Events s q)) = G) (gEventSignalQueue s)"

definition signalled :: "ptr \<Rightarrow> 'a EVENT_STATE_scheme \<Rightarrow> 'a EVENT_STATE_scheme" where
  "signalled p s =
     (let e = the (Events s p) in
      if SignalCount e \<noteq> 0 then s
      else let s1 = PutEvent p (SignalCount_update (\<lambda>c. c + 1)) s in
        if \<not> signals e then s1
        else if grouped e then fold notified (group_members (EventGroup e) s) s1
        else notified p s1)"

lemma agrees_signalled:
  assumes "agrees s s'" shows "agrees (signalled p s) (signalled p s')"
proof -
  have "Events s' = Events s" "gEventSignalQueue s' = gEventSignalQueue s"
    using assms by (simp_all add: agrees_def dispatch_frame_def)
  then show ?thesis
    unfolding signalled_def Let_def group_members_def
    using assms by (simp add: agrees_PutEvent agrees_notified agrees_fold_notified)
qed

text \<open>Queueing changes nothing in an event but the flag of its queue.\<close>

lemma Events_fold_notified:
  assumes "Events s q = Some e"
  shows "\<exists>b. Events (fold notified ps s) q = Some (e\<lparr>NotifyLinked := b\<rparr>) \<and> (NotifyLinked e \<or> q \<in> set ps \<longrightarrow> b)"
  using assms
proof (induction ps arbitrary: s e)
  case Nil
  then show ?case by (auto intro!: exI [of _ "NotifyLinked e"])
next
  case (Cons p ps)
  let ?e = "if q = p then e\<lparr>NotifyLinked := True\<rparr> else e"
  have "Events (notified p s) q = Some ?e" using Cons.prems by (cases "q = p") simp_all
  from Cons.IH [OF this] obtain b where "Events (fold notified ps (notified p s)) q = Some (?e\<lparr>NotifyLinked := b\<rparr>)"
    "NotifyLinked ?e \<or> q \<in> set ps \<longrightarrow> b" by blast
  then show ?case by (intro exI [of _ b]) (auto split: if_splits)
qed

lemma fold_notified_simps [simp]:
  "gEfiCurrentTpl (fold notified ps s) = gEfiCurrentTpl s"
  "Locks (fold notified ps s) = Locks s"
  "gEventSignalQueue (fold notified ps s) = gEventSignalQueue s"
  "mEfiTimerList (fold notified ps s) = mEfiTimerList s"
  "mEfiCheckTimerEvent (fold notified ps s) = mEfiCheckTimerEvent s"
  "mEfiSystemTime (fold notified ps s) = mEfiSystemTime s"
  "EVENT_STATE.more (fold notified ps s) = EVENT_STATE.more s"
  by (induction ps arbitrary: s) simp_all

lemma event_wf_fold_notified:
  assumes "event_wf s" and "\<forall>p\<in>set ps. \<exists>e. Events s p = Some e \<and> notifies e"
  shows "event_wf (fold notified ps s)"
  using assms
proof (induction ps arbitrary: s)
  case (Cons p ps)
  then obtain e where e: "Events s p = Some e" "notifies e" by auto
  have "\<forall>q\<in>set ps. \<exists>e. Events (notified p s) q = Some e \<and> notifies e"
    using Cons.prems(2) by (auto simp: notifies_def)
  then show ?case using Cons.IH [OF event_wf_notified [OF Cons.prems(1) e]] by simp
qed simp

lemma signal_queue_event:
  assumes "event_wf s" and "p \<in> set (gEventSignalQueue s)"
  shows "\<exists>e. Events s p = Some e \<and> signals e"
  using assms links_wfD(2) by (fastforce simp: event_wf_def signal_wf_def)

lemma NotifySignalLoop_eq:
  assumes "event_wf s" and "LockState (Locks s gEventQueueLock) = EfiLockAcquired"
    and "\<forall>p\<in>set qs. \<exists>e. Events s p = Some e \<and> signals e"
  shows "NotifySignalLoop G qs s = Some (fold notified (filter (\<lambda>q. EventGroup (the (Events s q)) = G) qs) s)"
  using assms
proof (induction qs arbitrary: s)
  case (Cons p qs)
  then obtain e where e: "Events s p = Some e" "signals e" by auto
  then have n: "notifies e" by (simp add: signals_notifies)
  note cr = event_wf_event(4) [OF Cons.prems(1) e(1)]
  show ?case
  proof (cases "EventGroup e = G")
    case True
    have wf: "event_wf (notified p s)" by (rule event_wf_notified [OF Cons.prems(1) e(1) n])
    have "\<forall>q\<in>set qs. \<exists>e. Events (notified p s) q = Some e \<and> signals e"
      using Cons.prems(3) by (auto simp: signals_def)
    moreover have "EventGroup (the (Events (notified p s) q)) = EventGroup (the (Events s q))" for q
      using e by (cases "q = p") simp_all
    ultimately show ?thesis
      using cr e True Cons.IH [OF wf] Cons.prems(2) CoreNotifyEvent_eq [OF Cons.prems(1) e(1) n] by simp
  next
    case False
    then show ?thesis using cr e Cons by simp
  qed
qed simp

lemma group_members_notify:
  assumes "event_wf s"
  shows "\<forall>q\<in>set (group_members G s). \<exists>e. Events (PutEvent p (SignalCount_update f) s) q = Some e \<and> notifies e"
proof
  fix q assume "q \<in> set (group_members G s)"
  then obtain e' where "Events s q = Some e'" "signals e'"
    using signal_queue_event [OF assms] by (auto simp: group_members_def)
  then show "\<exists>e. Events (PutEvent p (SignalCount_update f) s) q = Some e \<and> notifies e"
    using signals_notifies [of e'] by (auto simp: notifies_def)
qed

lemma event_wf_signalled:
  assumes wf: "event_wf s" and e: "Events s p = Some e"
  shows "event_wf (signalled p s)"
proof -
  let ?s = "PutEvent p (SignalCount_update (\<lambda>c. c + 1)) s"
  have w: "event_wf ?s" using event_wf_update [OF wf e] e by (simp add: PutEvent_def)
  have "event_wf (notified p ?s)" if "signals e"
    by (rule event_wf_notified [OF w]) (use that e signals_notifies in \<open>auto simp: notifies_def signals_def\<close>)
  then show ?thesis using w wf e event_wf_fold_notified [OF w group_members_notify [OF wf]] by (simp add: signalled_def Let_def)
qed

section \<open>Under the event lock\<close>

definition unlocked :: "lock_id \<Rightarrow> 'a EVENT_STATE_scheme \<Rightarrow> 'a EVENT_STATE_scheme" where
  "unlocked l s = s\<lparr>Locks := (Locks s)(l := (Locks s l)\<lparr>LockState := EfiLockReleased\<rparr>)\<rparr>"

text \<open>\<open>s'\<close> is \<open>s\<close> with the event lock taken.\<close>

definition under_lock :: "'a EVENT_STATE_scheme \<Rightarrow> 'a EVENT_STATE_scheme \<Rightarrow> bool" where
  "under_lock s s' \<longleftrightarrow> agrees s (unlocked gEventQueueLock s') \<and> LockState (Locks s' gEventQueueLock) = EfiLockAcquired
     \<and> OwnerTpl (Locks s' gEventQueueLock) = gEfiCurrentTpl s \<and> gEfiCurrentTpl s' = TPL_HIGH_LEVEL"

definition event_ready :: "'a EVENT_STATE_scheme \<Rightarrow> bool" where
  "event_ready s \<longleftrightarrow> event_wf s \<and> LockState (Locks s gEventQueueLock) = EfiLockReleased \<and> gEfiCurrentTpl s \<le> TPL_HIGH_LEVEL"

lemma CoreAcquireEventLock_ready:
  assumes "event_ready s"
  shows "CoreAcquireEventLock s = Some (acquired gEventQueueLock s)" "under_lock s (acquired gEventQueueLock s)"
proof -
  have lt: "LockTpl (Locks s gEventQueueLock) = TPL_HIGH_LEVEL" and ls: "LockState (Locks s gEventQueueLock) = EfiLockReleased"
    using assms by (simp_all add: event_ready_def event_wf_def event_locks_wf_def)
  then show "CoreAcquireEventLock s = Some (acquired gEventQueueLock s)"
    using assms by (simp add: CoreAcquireEventLock_def CoreAcquireLock_eq lock_free_def event_ready_def)
  show "under_lock s (acquired gEventQueueLock s)"
    using lt ls by (auto simp: under_lock_def agrees_def dispatch_frame_def unlocked_def)
qed

lemma under_lock_PutEvent: "under_lock s s' \<Longrightarrow> under_lock (PutEvent p f s) (PutEvent p f s')"
proof -
  have "unlocked l (PutEvent p f s') = PutEvent p f (unlocked l s')" for l by (simp add: unlocked_def PutEvent_def)
  then show "under_lock s s' \<Longrightarrow> under_lock (PutEvent p f s) (PutEvent p f s')"
    by (simp add: under_lock_def agrees_PutEvent)
qed

lemma under_lock_notified: "under_lock s s' \<Longrightarrow> under_lock (notified p s) (notified p s')"
proof -
  have "unlocked l (notified p s') = notified p (unlocked l s')" for l
    by (simp add: unlocked_def notified_def Let_def)
  then show "under_lock s s' \<Longrightarrow> under_lock (notified p s) (notified p s')"
    by (simp add: under_lock_def agrees_notified)
qed

lemma under_lock_fold_notified: "under_lock s s' \<Longrightarrow> under_lock (fold notified ps s) (fold notified ps s')"
  by (induction ps arbitrary: s s') (simp_all add: under_lock_notified)

lemma under_lock_same:
  assumes "under_lock s s'"
  shows "Events s' = Events s" "gEventSignalQueue s' = gEventSignalQueue s" "gEventQueue s' = gEventQueue s"
    "gEventPending s' = gEventPending s" "event_wf s' = event_wf s" "RuntimeEventHead s' = RuntimeEventHead s"
    "LockState (Locks s' gEventQueueLock) = EfiLockAcquired" "LockState (Locks s gEventQueueLock) = EfiLockReleased"
proof -
  have a: "agrees s (unlocked gEventQueueLock s')" using assms by (simp add: under_lock_def)
  then show "Events s' = Events s" "gEventSignalQueue s' = gEventSignalQueue s" "gEventQueue s' = gEventQueue s"
    "gEventPending s' = gEventPending s" "RuntimeEventHead s' = RuntimeEventHead s"
    by (simp_all add: agrees_def dispatch_frame_def unlocked_def)
  have "event_wf s' = event_wf (unlocked gEventQueueLock s')" by (rule event_wf_cong) (simp_all add: unlocked_def)
  then show "event_wf s' = event_wf s" using agrees_wf [OF a] by simp
  show "LockState (Locks s' gEventQueueLock) = EfiLockAcquired" using assms by (simp add: under_lock_def)
  have "LockState (Locks (unlocked gEventQueueLock s') gEventQueueLock) = LockState (Locks s gEventQueueLock)"
    using a unfolding agrees_def dispatch_frame_def by blast
  then show "LockState (Locks s gEventQueueLock) = EfiLockReleased" by (simp add: unlocked_def)
qed

lemma CoreReleaseEventLock_under:
  assumes "under_lock s s'"
  shows "CoreReleaseEventLock R s' = R (gEfiCurrentTpl s) (unlocked gEventQueueLock s')"
  using assms by (simp add: CoreReleaseEventLock_def CoreReleaseLock_eq under_lock_def unlocked_def)

lemma agrees_lowered: "agrees s s' \<Longrightarrow> agrees s (lowered t s')"
  by (simp add: agrees_def dispatch_frame_def)

lemma agrees_ready: "agrees s s' \<Longrightarrow> event_ready s \<Longrightarrow> gEfiCurrentTpl s' \<le> TPL_HIGH_LEVEL \<Longrightarrow> event_ready s'"
  using agrees_wf by (auto simp: event_ready_def agrees_def dispatch_frame_def)

context lowers
begin

lemma release_under:
  assumes u: "under_lock s s'" and "gEfiCurrentTpl s \<le> TPL_HIGH_LEVEL" and above: "none_above (gEfiCurrentTpl s) s"
  shows "\<exists>s''. CoreReleaseEventLock R s' = Some s'' \<and> agrees s s'' \<and> gEfiCurrentTpl s'' = gEfiCurrentTpl s"
proof -
  let ?u = "unlocked gEventQueueLock s'"
  have "agrees s ?u" "gEfiCurrentTpl ?u = TPL_HIGH_LEVEL" using u by (simp_all add: under_lock_def unlocked_def)
  moreover have "none_above (gEfiCurrentTpl s) ?u" using above agrees_above [OF \<open>agrees s ?u\<close>] by simp
  ultimately have "R (gEfiCurrentTpl s) ?u = Some (lowered (gEfiCurrentTpl s) ?u)" using assms(2) by (simp add: quiet_law)
  then show ?thesis
    using CoreReleaseEventLock_under [OF u] agrees_lowered [OF \<open>agrees s ?u\<close>]
    by (intro exI [of _ "lowered (gEfiCurrentTpl s) ?u"]) simp
qed

end

section \<open>\<open>CoreSignalEvent\<close>\<close>

lemma signalled_simps [simp]:
  "gEfiCurrentTpl (signalled p s) = gEfiCurrentTpl s"
  "Locks (signalled p s) = Locks s"
  "mEfiTimerList (signalled p s) = mEfiTimerList s"
  "mEfiCheckTimerEvent (signalled p s) = mEfiCheckTimerEvent s"
  "mEfiSystemTime (signalled p s) = mEfiSystemTime s"
  "EVENT_STATE.more (signalled p s) = EVENT_STATE.more s"
  by (simp_all add: signalled_def Let_def)

lemma pending_fold_notified: "bit (gEventPending s) t \<Longrightarrow> bit (gEventPending (fold notified ps s)) t"
  by (induction ps arbitrary: s) simp_all

lemma none_above_signalled: "none_above t (signalled p s) \<Longrightarrow> none_above t s"
  using pending_fold_notified [of "PutEvent p (SignalCount_update (\<lambda>c. c + 1)) s"]
  by (auto simp: signalled_def Let_def none_above_def split: if_splits)

lemma signalled_single:
  assumes "Events s p = Some e" and "\<not> (SignalCount e = 0 \<and> signals e \<and> grouped e)"
  shows "signalled p s = (if SignalCount e \<noteq> 0 then s
    else if signals e then notified p (PutEvent p (SignalCount_update (\<lambda>c. c + 1)) s)
    else PutEvent p (SignalCount_update (\<lambda>c. c + 1)) s)"
  using assms by (simp add: signalled_def Let_def)

lemma CoreSignalEvent_single:
  assumes ready: "event_ready s" and e: "Events s p = Some e" and single: "\<not> (SignalCount e = 0 \<and> signals e \<and> grouped e)"
  shows "\<exists>s1. CoreSignalEvent R p s = map_option (Pair EFI_SUCCESS) (R (gEfiCurrentTpl s) s1)
    \<and> agrees (signalled p s) s1 \<and> gEfiCurrentTpl s1 = TPL_HIGH_LEVEL"
proof -
  let ?a = "acquired gEventQueueLock s" and ?put = "PutEvent p (SignalCount_update (\<lambda>c. c + 1))"
  have wf: "event_wf s" using ready by (simp add: event_ready_def)
  note acq = CoreAcquireEventLock_ready [OF ready] and ev = event_wf_event [OF wf e]
  have u: "under_lock (signalled p s) (signalled p ?a)"
    unfolding signalled_single [OF e single] signalled_single [of ?a p e, OF _ single, simplified, OF e]
    using acq(2) by (simp add: under_lock_PutEvent under_lock_notified)
  have n: "CoreNotifyEvent p (?put ?a) = Some (notified p (?put ?a))" if "signals e"
  proof (rule CoreNotifyEvent_eq)
    show "event_wf (?put ?a)" using event_wf_update [of ?a p e] wf e by (simp add: PutEvent_def)
    show "Events (?put ?a) p = Some (e\<lparr>SignalCount := SignalCount e + 1\<rparr>)" using e by simp
    show "notifies (e\<lparr>SignalCount := SignalCount e + 1\<rparr>)" using signals_notifies [OF that] by (simp add: notifies_def)
    show "LockState (Locks (?put ?a) gEventQueueLock) = EfiLockAcquired" by simp
  qed
  have "CoreSignalEvent R p s = Option.bind (CoreReleaseEventLock R (signalled p ?a)) (\<lambda>s. Some (EFI_SUCCESS, s))"
    using ev acq(1) e n single unfolding signalled_single [of ?a p e, OF _ single, simplified, OF e]
    by (auto simp: CoreSignalEvent_def Let_def grouped_def simp flip: signals_def)
  also have "\<dots> = map_option (Pair EFI_SUCCESS) (R (gEfiCurrentTpl s) (unlocked gEventQueueLock (signalled p ?a)))"
    using CoreReleaseEventLock_under [OF u] by (simp add: map_conv_bind_option comp_def)
  finally show ?thesis using u
    by (intro exI [of _ "unlocked gEventQueueLock (signalled p ?a)"]) (simp add: under_lock_def unlocked_def)
qed

context lowers
begin

lemma CoreNotifySignalList_quiet:
  assumes ready: "event_ready s" and above: "none_above (gEfiCurrentTpl s) (fold notified (group_members G s) s)"
  shows "\<exists>s'. CoreNotifySignalList R G s = Some s' \<and> agrees (fold notified (group_members G s) s) s'
    \<and> gEfiCurrentTpl s' = gEfiCurrentTpl s"
proof -
  let ?a = "acquired gEventQueueLock s"
  note acq = CoreAcquireEventLock_ready [OF ready]
  have wf: "event_wf s" "gEfiCurrentTpl s \<le> TPL_HIGH_LEVEL" using ready by (simp_all add: event_ready_def)
  have "NotifySignalLoop G (gEventSignalQueue s) ?a = Some (fold notified (group_members G s) ?a)"
    using NotifySignalLoop_eq [of ?a "gEventSignalQueue s" G] wf signal_queue_event [OF wf(1)]
    by (simp add: group_members_def)
  moreover have "under_lock (fold notified (group_members G s) s) (fold notified (group_members G s) ?a)"
    by (rule under_lock_fold_notified [OF acq(2)])
  note release_under [OF this]
  ultimately show ?thesis using acq(1) above wf(2) by (simp add: CoreNotifySignalList_def)
qed

lemma CoreSignalEvent_quiet:
  assumes ready: "event_ready s" and e: "Events s p = Some e"
    and above: "none_above (gEfiCurrentTpl s) (signalled p s)"
  shows "\<exists>s'. CoreSignalEvent R p s = Some (EFI_SUCCESS, s') \<and> agrees (signalled p s) s' \<and> gEfiCurrentTpl s' = gEfiCurrentTpl s"
proof (cases "SignalCount e = 0 \<and> signals e \<and> grouped e")
  case False
  then obtain s1 where s1: "CoreSignalEvent R p s = map_option (Pair EFI_SUCCESS) (R (gEfiCurrentTpl s) s1)"
    "agrees (signalled p s) s1" "gEfiCurrentTpl s1 = TPL_HIGH_LEVEL"
    using CoreSignalEvent_single [OF ready e] by blast
  have "R (gEfiCurrentTpl s) s1 = Some (lowered (gEfiCurrentTpl s) s1)"
    using s1(2,3) above ready by (intro quiet_law) (simp_all add: event_ready_def agrees_above)
  then show ?thesis using s1 agrees_lowered by auto
next
  case True
  let ?put = "PutEvent p (SignalCount_update (\<lambda>c. c + 1))" and ?t = "gEfiCurrentTpl s" and ?a = "acquired gEventQueueLock s"
  let ?g = "group_members (EventGroup e) s"
  have wf: "event_wf s" "?t \<le> TPL_HIGH_LEVEL" using ready by (simp_all add: event_ready_def)
  note ev = event_wf_event [OF wf(1) e] and acq = CoreAcquireEventLock_ready [OF ready]
  have sig: "signalled p s = fold notified ?g (?put s)" using True e by (simp add: signalled_def Let_def)
  have "none_above ?t (?put s)" using none_above_signalled [OF above] by (simp add: none_above_def)
  then obtain s1 where s1: "CoreReleaseEventLock R (?put ?a) = Some s1" "agrees (?put s) s1" "gEfiCurrentTpl s1 = ?t"
    using release_under [OF under_lock_PutEvent [OF acq(2)]] wf(2) by (metis PutEvent_simps(1))
  have "event_ready (?put s)" using ready e event_wf_update [OF wf(1) e] by (simp add: event_ready_def PutEvent_def)
  then have r1: "event_ready s1" using agrees_ready [OF s1(2)] s1(3) wf(2) by simp
  have e1: "Events s1 p = Some (e\<lparr>SignalCount := SignalCount e + 1\<rparr>)" using s1(2) e by (simp add: agrees_def)
  have "EventGroup (the (Events s1 q)) = EventGroup (the (Events s q))" for q
    using s1(2) e by (cases "q = p") (simp_all add: agrees_def)
  then have g1: "group_members (EventGroup e) s1 = ?g"
    using s1(2) by (simp add: group_members_def agrees_def dispatch_frame_def)
  have a1: "agrees (signalled p s) (fold notified ?g s1)" unfolding sig by (rule agrees_fold_notified [OF s1(2)])
  then obtain s2 where s2: "CoreNotifySignalList R (EventGroup e) s1 = Some s2" "agrees (fold notified ?g s1) s2"
    "gEfiCurrentTpl s2 = ?t"
    using CoreNotifySignalList_quiet [OF r1, of "EventGroup e"] above agrees_above [OF a1] s1(3) by (auto simp: g1)
  have a2: "agrees (signalled p s) s2" by (rule agrees_trans [OF a1 s2(2)])
  have "event_ready (signalled p s)" using ready event_wf_signalled [OF wf(1) e] by (simp add: event_ready_def)
  then have r2: "event_ready s2" using agrees_ready [OF a2] s2(3) wf(2) by simp
  then obtain s3 where s3: "CoreReleaseEventLock R (acquired gEventQueueLock s2) = Some s3" "agrees s2 s3" "gEfiCurrentTpl s3 = ?t"
    using release_under [OF CoreAcquireEventLock_ready(2) [OF r2]] above agrees_above [OF a2] s2(3) wf(2) by auto
  have "CoreSignalEvent R p s = Some (EFI_SUCCESS, s3)"
    using ev acq(1) e e1 s1(1) s2(1) s3(1) True CoreAcquireEventLock_ready(1) [OF r2]
    by (simp add: CoreSignalEvent_def Let_def flip: signals_def grouped_def)
  then show ?thesis using agrees_trans [OF a2 s3(2)] s3(3) by blast
qed

end

end
