(* ===== verification/Event_Properties.thy ===== *)
theory Event_Properties
  imports Event_Signal
begin

unbundle bit_operations_syntax

text \<open>
  The properties of events: delivery when the task priority level is lowered, and what signalling an event does.
\<close>

section \<open>Delivery when the level is lowered\<close>

lemma wf_none_above: "event_wf s \<Longrightarrow> none_above (TPL_HIGH_LEVEL - 1) s"
  by (auto simp: event_wf_def queues_wf_def none_above_def)

lemma delivered_queues:
  assumes wf: "event_wf s" and del: "delivered g (delivery_order t TPL_HIGH_LEVEL (gEventQueue s)) s s'"
  shows "gEventQueue s' u = (if t < u then [] else gEventQueue s u)"
proof -
  have "gEventQueue s u = []" if "TPL_HIGH_LEVEL \<le> u" using wf that by (fastforce simp: event_wf_def queues_wf_def)
  moreover have "p \<notin> set (delivery_order t TPL_HIGH_LEVEL (gEventQueue s))" if "u \<le> t" "p \<in> set (gEventQueue s u)" for p
    using that queue_disjoint [OF wf, of u _ p] by (metis leD set_delivery_order)
  ultimately show ?thesis using del
    by (cases "u < TPL_HIGH_LEVEL") (auto simp: delivered_def set_delivery_order filter_empty_conv intro!: filter_True)
qed

text \<open>
  A database for the witnesses: the event of the timer check and two events of level 8 and 16, both queued or none;
  the client's data is the list of events notified.
\<close>

definition witness_event :: "EFI_TPL \<Rightarrow> ptr \<Rightarrow> UINT8 \<Rightarrow> bool \<Rightarrow> IEVENT" where
  "witness_event t f x b = ZeroEvent\<lparr>EvSignature := EVENT_SIGNATURE, EvType := EVT_NOTIFY_SIGNAL, NotifyTpl := t,
     NotifyFunction := f, SignalLinked := True, NotifyLinked := b,
     SignalCount := (if b then 1 else 0), ExFlag := x\<rparr>"

definition witness_pending :: UINT64 where
  "witness_pending = push_bit 8 1 OR push_bit 16 1"

lemma bit_witness_pending [simp]: "bit witness_pending u \<longleftrightarrow> u = 8 \<or> u = 16"
proof -
  have b: "bit (push_bit k (1 :: UINT64)) u \<longleftrightarrow> u = k" if "k < 64" for k
    using that unfolding bit_push_bit_iff bit_1_iff by auto
  have "(8 :: nat) < 64" "(16 :: nat) < 64" by simp_all
  then show ?thesis unfolding witness_pending_def bit_or_iff by (simp only: b)
qed

definition witness_events :: "UINT8 \<Rightarrow> bool \<Rightarrow> EFI_TPL \<Rightarrow> ptr list EVENT_STATE_scheme" where
  "witness_events x b t = \<lparr>gEfiCurrentTpl = t, gCpu = False, gSmmBase2 = None, InterruptsEnabled = False, Locks = initial_lock,
     PcdVerifyNodeInList = False, PcdMaximumLinkedListLength = 0, Pool = [], GcdLinks = (\<lambda>_. None), GcdEntries = (\<lambda>_. None),
     Events = [100 \<mapsto> witness_event 30 1 0 False, 101 \<mapsto> witness_event 8 7 x b, 102 \<mapsto> witness_event 16 7 x b],
     gEventQueue = (\<lambda>u. if b \<and> u = 8 then [101] else if b \<and> u = 16 then [102] else []),
     gEventPending = (if b then witness_pending else 0), gEventSignalQueue = [102, 101, 100],
     gIdleLoopEvent = 0, RuntimeEventHead = [], mEfiTimerList = [], mEfiCheckTimerEvent = 100, mEfiSystemTime = 0,
     gTimer = None, \<dots> = []\<rparr>"

definition witness_notify :: "ptr list restore \<Rightarrow> ptr list notify" where
  "witness_notify R f p c s = Some (EVENT_STATE.more_update (\<lambda>log. log @ [p]) s)"

lemma witness_event_simps [simp]:
  "signals (witness_event t f x b)" "notifies (witness_event t f x b)" "EvSignature (witness_event t f x b) = EVENT_SIGNATURE"
  "NotifyTpl (witness_event t f x b) = t" "NotifyFunction (witness_event t f x b) = f" "NotifyLinked (witness_event t f x b) = b"
  "SignalLinked (witness_event t f x b)" "\<not> TimerLinked (witness_event t f x b)" "\<not> RuntimeLinked (witness_event t f x b)"
  "grouped (witness_event t f x b) \<longleftrightarrow> x AND 1 \<noteq> 0" "EvType (witness_event t f x b) = EVT_NOTIFY_SIGNAL"
  "SignalCount (witness_event t f x b) = (if b then 1 else 0)" "ExFlag (witness_event t f x b) = x" "EventGroup (witness_event t f x b) = replicate 16 0"
  "NotifyContext (witness_event t f x b) = 0"
  by (simp_all add: witness_event_def ZeroEvent_def signals_def notifies_def grouped_def EVT_defs
      EVT_EXFLAG_EVENT_GROUP_def)

lemma witness_events_wf: "event_wf (witness_events x b t)"
proof -
  have "links_wf (Events (witness_events x b t)) (\<lambda>e. NotifyLinked e \<and> NotifyTpl e = u) (gEventQueue (witness_events x b t) u)" for u
    by (rule links_wfI) (auto simp: witness_events_def)
  moreover have "links_wf (Events (witness_events x b t)) TimerLinked []"
    "links_wf (Events (witness_events x b t)) RuntimeLinked []"
    "links_wf (Events (witness_events x b t)) SignalLinked [102, 101, 100]"
    by (rule links_wfI, auto simp: witness_events_def)+
  ultimately show ?thesis
    by (auto simp: event_wf_defs event_ok_def witness_events_def EFI_INITIALIZE_LOCK_VARIABLE_def
        split: if_splits)
qed

lemma RestoreTpl_all:
  assumes wf: "event_wf s" and lock: "LockState (Locks s gEventQueueLock) = EfiLockReleased"
    and tpl: "t \<le> gEfiCurrentTpl s" "gEfiCurrentTpl s \<le> TPL_HIGH_LEVEL"
    and call: "benign (CallNotify Notify (RestoreTpl Notify (Suc n))) g (Events s)
      (delivery_order t TPL_HIGH_LEVEL (gEventQueue s))"
  shows "\<exists>s'. RestoreTpl Notify (Suc (Suc n)) t s = Some s'
    \<and> delivered g (delivery_order t TPL_HIGH_LEVEL (gEventQueue s)) s s'
    \<and> (\<forall>u. gEventQueue s' u = (if t < u then [] else gEventQueue s u))
    \<and> gEfiCurrentTpl s' = t \<and> none_above t s' \<and> event_wf s'"
proof -
  have "Suc (TPL_HIGH_LEVEL - 1) = TPL_HIGH_LEVEL" by simp
  then obtain s1 where s1: "PendingLoop (RestoreTpl Notify (Suc n)) (CallNotify Notify (RestoreTpl Notify (Suc n))) t s = Some s1"
    "delivered g (delivery_order t TPL_HIGH_LEVEL (gEventQueue s)) s s1"
    "\<forall>u. bit (gEventPending s1) u \<longleftrightarrow> u \<le> t \<and> bit (gEventPending s) u"
    using rt.PendingLoop_all [OF wf lock wf_none_above [OF wf], of _ g t Notify n] call
    by (metis diff_less less_numeral_extra(1) zero_less_numeral)
  let ?s = "lowered t s1"
  have "RestoreTpl Notify (Suc (Suc n)) t s = Some ?s" using CoreRestoreTpl_eq [OF tpl] s1(1) by simp
  moreover have d: "delivered g (delivery_order t TPL_HIGH_LEVEL (gEventQueue s)) s ?s"
    using s1(2) by (simp add: delivered_def dispatch_frame_def)
  moreover have "none_above t ?s" using s1(3) by (simp add: none_above_def)
  moreover have "event_wf ?s"
    by (rule event_wf_delivered [OF wf d])
      (use wf s1(3) delivered_queues [OF wf d] in \<open>auto simp: event_wf_def queues_wf_def split: if_splits\<close>)
  ultimately show ?thesis using delivered_queues [OF wf d] by (intro exI [of _ ?s]) simp
qed

lemma witness_benign:
  assumes "\<forall>p\<in>set ps. \<forall>e. ev p = Some e \<longrightarrow> NotifyFunction e = 7"
  shows "benign (CallNotify witness_notify R) (\<lambda>f p c t log. log @ [p]) ev ps"
proof -
  have "NotifyFunction e = 7" if "p \<in> set ps" "ev p = Some e" for p e using assms that by blast
  then show ?thesis by (simp add: benign_def CallNotify_def witness_notify_def)
qed

lemma witness_order: "delivery_order 4 31 (gEventQueue (witness_events 0 True t)) = [102, 101]"
  unfolding delivery_order_def witness_events_def by (simp add: upt_rec)

text \<open>
  C3. Lowering the level delivers every notification queued above the new level exactly once, from the highest level
  down and within a level in the order of queueing: the queues above are empty afterwards, the events are unqueued (and their
  signalled state cleared if they are of the signal kind), the client's data is changed by the notification functions in this
  order, each told the level of its event, and the rest of the state is as before. The notification functions are assumed to change the
  client's data only; a nesting depth of two is enough.
\<close>

theorem RestoreTpl_delivers:
  assumes "event_wf s" and "LockState (Locks s gEventQueueLock) = EfiLockReleased"
    and "t \<le> gEfiCurrentTpl s" and "gEfiCurrentTpl s \<le> TPL_HIGH_LEVEL"
    and "benign (CallNotify Notify (RestoreTpl Notify (Suc n))) g (Events s)
      (delivery_order t TPL_HIGH_LEVEL (gEventQueue s))"
  shows "\<exists>s'. RestoreTpl Notify (Suc (Suc n)) t s = Some s'
    \<and> delivered g (delivery_order t TPL_HIGH_LEVEL (gEventQueue s)) s s'
    \<and> (\<forall>u. gEventQueue s' u = (if t < u then [] else gEventQueue s u))
    \<and> gEfiCurrentTpl s' = t \<and> none_above t s' \<and> event_wf s'"
  using assms by (rule RestoreTpl_all)

theorem RestoreTpl_delivers_witness:
  "\<exists>s'. RestoreTpl witness_notify 2 4 (witness_events 0 True 31) = Some s' \<and> EVENT_STATE.more s' = [102, 101]
    \<and> gEfiCurrentTpl s' = 4"
proof -
  let ?s = "witness_events 0 True 31"
  have "benign (CallNotify witness_notify (RestoreTpl witness_notify (Suc 0))) (\<lambda>f p c t log. log @ [p]) (Events ?s)
      (delivery_order 4 31 (gEventQueue ?s))"
    by (rule witness_benign) (simp add: witness_order, simp add: witness_events_def)
  moreover have "LockState (Locks ?s gEventQueueLock) = EfiLockReleased" "4 \<le> gEfiCurrentTpl ?s" "gEfiCurrentTpl ?s \<le> 31"
    "EVENT_STATE.more ?s = []"
    by (simp_all add: witness_events_def EFI_INITIALIZE_LOCK_VARIABLE_def)
  ultimately show ?thesis
    using RestoreTpl_delivers [OF witness_events_wf, of 0 True 31 4 witness_notify 0 "\<lambda>f p c t log. log @ [p]"]
    by (auto simp: witness_order delivered_def effect_of_def numeral_2_eq_2)
qed

section \<open>Signalling\<close>

lemma notified_queue:
  assumes "event_wf s" and "Events s p = Some e"
  shows "gEventQueue (notified p s) u = filter (\<lambda>q. q \<noteq> p) (gEventQueue s u) @ (if NotifyTpl e = u then [p] else [])"
proof -
  have "remove1 p (gEventQueue s u) = filter (\<lambda>q. q \<noteq> p) (gEventQueue s u)"
    by (rule remove1_filter [OF links_wfD(1) [OF event_wf_links(1) [OF assms(1)]]])
  then show ?thesis using assms(2) event_wf_queue [OF assms, of u]
    by (auto simp: notified_def Let_def intro!: filter_True [symmetric])
qed

lemma fold_notified_queue:
  assumes "event_wf s" and "distinct ps" and "\<forall>p\<in>set ps. \<exists>e. Events s p = Some e \<and> notifies e"
  shows "gEventQueue (fold notified ps s) u
    = filter (\<lambda>q. q \<notin> set ps) (gEventQueue s u) @ filter (\<lambda>q. NotifyTpl (the (Events s q)) = u) ps"
  using assms
proof (induction ps arbitrary: s)
  case (Cons p ps)
  then obtain e where e: "Events s p = Some e" "notifies e" by auto
  have "\<forall>q\<in>set ps. \<exists>e. Events (notified p s) q = Some e \<and> notifies e"
    using Cons.prems(3) by (auto simp: notifies_def)
  moreover have "NotifyTpl (the (Events (notified p s) q)) = NotifyTpl (the (Events s q))" for q
    using e by (cases "q = p") simp_all
  ultimately have "gEventQueue (fold notified ps (notified p s)) u
      = filter (\<lambda>q. q \<notin> set ps) (gEventQueue (notified p s) u) @ filter (\<lambda>q. NotifyTpl (the (Events s q)) = u) ps"
    using Cons.IH [OF event_wf_notified [OF Cons.prems(1) e]] Cons.prems(2) by simp
  then show ?case using e Cons.prems(2) by (auto simp: notified_queue [OF Cons.prems(1) e(1)] intro!: filter_cong)
qed simp

lemma fold_notified_pending:
  assumes "\<forall>q\<in>set qs. \<exists>e. Events s q = Some e \<and> notifies e" and "bit (gEventPending (fold notified qs s)) u"
  shows "bit (gEventPending s) u \<or> (\<exists>q\<in>set qs. u = NotifyTpl (the (Events s q)))"
  using assms
proof (induction qs arbitrary: s)
  case (Cons q qs)
  then obtain e where e: "Events s q = Some e" by auto
  have "\<forall>r\<in>set qs. \<exists>e. Events (notified q s) r = Some e \<and> notifies e" using Cons.prems(1) by (auto simp: notifies_def)
  moreover have "NotifyTpl (the (Events (notified q s) r)) = NotifyTpl (the (Events s r))" for r
    using e by (cases "r = q") auto
  ultimately show ?case using Cons.IH [of "notified q s"] Cons.prems(2) e by auto
qed simp

lemma delivery_order_single:
  assumes "t < k" and "k < m" and q: "\<And>u. t < u \<Longrightarrow> q u = (if u = k then [p] else [])"
  shows "delivery_order t m q = [p]"
  using assms(2)
proof (induction m)
  case (Suc m)
  have none: "delivery_order t k q = []" using q by (auto simp: delivery_order_def)
  show ?case
  proof (cases "m = k")
    case True
    then show ?thesis using delivery_order_Suc [OF assms(1), of q] q [OF assms(1)] none by simp
  next
    case False
    then show ?thesis using Suc assms(1) delivery_order_Suc [of t m q] q [of m] by simp
  qed
qed simp

lemma signalled_queue:
  assumes wf: "event_wf s" and e: "Events s p = Some e" "SignalCount e = 0" "signals e" "\<not> grouped e"
  shows "gEventQueue (signalled p s) = (gEventQueue s)(NotifyTpl e := filter (\<lambda>q. q \<noteq> p) (gEventQueue s (NotifyTpl e)) @ [p])"
    "Events (signalled p s) = (Events s)(p \<mapsto> e\<lparr>SignalCount := 1, NotifyLinked := True\<rparr>)"
    "bit (gEventPending (signalled p s)) u \<longleftrightarrow> bit (gEventPending s) u \<or> u = NotifyTpl e \<and> u < 64"
proof -
  let ?s = "PutEvent p (SignalCount_update (\<lambda>c. c + 1)) s" and ?e = "e\<lparr>SignalCount := 1\<rparr>"
  have sg: "signalled p s = notified p ?s" using e by (simp add: signalled_def Let_def)
  have w: "event_wf ?s" using event_wf_update [OF wf e(1)] e(1) by (simp add: PutEvent_def)
  have up: "SignalCount_update (\<lambda>c. c + 1) e = ?e" using e(2) by (cases e) simp
  have ep: "Events ?s p = Some ?e" using e(1) up by simp
  have "filter (\<lambda>q. q \<noteq> p) (gEventQueue s u) = gEventQueue s u" if "u \<noteq> NotifyTpl e" for u
    using event_wf_queue [OF wf e(1), of u] that by (auto intro!: filter_True)
  then show "gEventQueue (signalled p s) = (gEventQueue s)(NotifyTpl e := filter (\<lambda>q. q \<noteq> p) (gEventQueue s (NotifyTpl e)) @ [p])"
    unfolding sg by (auto simp: notified_queue [OF w ep])
  show "Events (signalled p s) = (Events s)(p \<mapsto> e\<lparr>SignalCount := 1, NotifyLinked := True\<rparr>)"
    "bit (gEventPending (signalled p s)) u \<longleftrightarrow> bit (gEventPending s) u \<or> u = NotifyTpl e \<and> u < 64"
    using e(1) up by (simp_all add: sg)
qed

text \<open>
  C13. Signalling an event of the signal kind that is not yet signalled and not in a group, with nothing pending above the
  current level: if its level is not above the current one, its notification is put at the end of the queue of its level and the
  event is marked signalled; otherwise its notification function is called once, at its level, before the call returns, and the event
  is unqueued and not signalled again. In both cases the level is the caller's again and nothing is pending above it.
\<close>

theorem CoreSignalEvent_delivers:
  assumes ready: "event_ready s" and e: "Events s p = Some e" "SignalCount e = 0" "signals e" "\<not> grouped e"
    and above: "none_above (gEfiCurrentTpl s) s"
    and call: "gEfiCurrentTpl s < NotifyTpl e \<longrightarrow> benign (CallNotify Notify (RestoreTpl Notify (Suc n))) g (Events s) [p]"
  shows "\<exists>s'. CoreSignalEvent (RestoreTpl Notify (Suc (Suc n))) p s = Some (EFI_SUCCESS, s')
    \<and> event_wf s' \<and> gEfiCurrentTpl s' = gEfiCurrentTpl s \<and> none_above (gEfiCurrentTpl s) s'
    \<and> (if NotifyTpl e \<le> gEfiCurrentTpl s
       then EVENT_STATE.more s' = EVENT_STATE.more s
         \<and> gEventQueue s' = (gEventQueue s)(NotifyTpl e := filter (\<lambda>q. q \<noteq> p) (gEventQueue s (NotifyTpl e)) @ [p])
         \<and> Events s' = (Events s)(p \<mapsto> e\<lparr>SignalCount := 1, NotifyLinked := True\<rparr>)
       else EVENT_STATE.more s' = g (NotifyFunction e) p (NotifyContext e) (NotifyTpl e) (EVENT_STATE.more s)
         \<and> gEventQueue s' = gEventQueue s
         \<and> Events s' = (Events s)(p \<mapsto> e\<lparr>SignalCount := 0, NotifyLinked := False\<rparr>))"
proof -
  let ?R = "RestoreTpl Notify (Suc (Suc n))" and ?t = "gEfiCurrentTpl s"
  have wf: "event_wf s" "?t \<le> 31" using ready by (simp_all add: event_ready_def)
  note sq = signalled_queue [OF wf(1) e]
  have wfs: "event_wf (signalled p s)" by (rule event_wf_signalled [OF wf(1) e(1)])
  show ?thesis
  proof (cases "NotifyTpl e \<le> ?t")
    case True
    then have na: "none_above ?t (signalled p s)" using above sq(3) by (auto simp: none_above_def)
    then obtain s' where s': "CoreSignalEvent ?R p s = Some (EFI_SUCCESS, s')" "agrees (signalled p s) s'" "gEfiCurrentTpl s' = ?t"
      using rt.CoreSignalEvent_quiet [OF ready e(1)] by blast
    have "event_wf s'" "none_above ?t s'" using agrees_wf [OF s'(2)] wfs agrees_above [OF s'(2)] na by simp_all
    then show ?thesis using True s' sq(1,2) by (auto simp: agrees_def)
  next
    case False
    obtain s1 where s1: "CoreSignalEvent ?R p s = map_option (Pair EFI_SUCCESS) (?R ?t s1)"
      "agrees (signalled p s) s1" "gEfiCurrentTpl s1 = TPL_HIGH_LEVEL"
      using CoreSignalEvent_single [OF ready e(1), of ?R] e(4) by blast
    have wf1: "event_wf s1" using agrees_wf [OF s1(2)] wfs by simp
    have lock: "LockState (Locks s1 gEventQueueLock) = EfiLockReleased"
      using s1(2) ready by (simp add: agrees_def dispatch_frame_def event_ready_def)
    have empty: "gEventQueue s u = []" if "?t < u" for u
      using above that wf(1) by (auto simp: none_above_def event_wf_def queues_wf_def)
    have "NotifyTpl e < 31" using event_wf_event(1) [OF wf(1) e(1)] signals_notifies [OF e(3)] by (simp add: event_ok_def)
    then have ord: "delivery_order ?t 31 (gEventQueue s1) = [p]"
      using False s1(2) sq(1) empty by (intro delivery_order_single [of _ "NotifyTpl e"]) (auto simp: agrees_def)
    have ev1: "Events s1 = (Events s)(p \<mapsto> e\<lparr>SignalCount := 1, NotifyLinked := True\<rparr>)"
      using s1(2) sq(2) by (simp add: agrees_def)
    then have "benign (CallNotify Notify (RestoreTpl Notify (Suc n))) g (Events s1) [p]"
      using call False e(1) by (simp add: benign_def)
    then obtain s' where s': "?R ?t s1 = Some s'" "delivered g [p] s1 s'"
      "\<forall>u. gEventQueue s' u = (if ?t < u then [] else gEventQueue s1 u)" "gEfiCurrentTpl s' = ?t" "none_above ?t s'" "event_wf s'"
      using RestoreTpl_all [OF wf1 lock, of ?t Notify n g] s1(3) wf(2) ord by auto
    have "Events s' = (Events s)(p \<mapsto> e\<lparr>SignalCount := 0, NotifyLinked := False\<rparr>)"
      using s'(2) e(3) ev1 by (auto simp: delivered_def cleared_def signals_def)
    moreover have "gEventQueue s' = gEventQueue s"
      using s'(3) s1(2) sq(1) empty False by (auto simp: agrees_def)
    moreover have "EVENT_STATE.more s' = g (NotifyFunction e) p (NotifyContext e) (NotifyTpl e) (EVENT_STATE.more s)"
      using s'(2) s1(2) ev1 by (simp add: delivered_def effect_of_def agrees_def)
    ultimately show ?thesis using False s1(1) s' by auto
  qed
qed

theorem CoreSignalEvent_delivers_witness:
  "\<exists>s'. CoreSignalEvent (RestoreTpl witness_notify 2) 102 (witness_events 0 False 8) = Some (EFI_SUCCESS, s')
     \<and> EVENT_STATE.more s' = [102] \<and> gEfiCurrentTpl s' = 8"
proof -
  let ?s = "witness_events 0 False 8"
  have s: "Events ?s 102 = Some (witness_event 16 7 0 False)" "gEfiCurrentTpl ?s = 8" "EVENT_STATE.more ?s = []"
    "LockState (Locks ?s gEventQueueLock) = EfiLockReleased" "gEventPending ?s = 0"
    by (simp_all add: witness_events_def EFI_INITIALIZE_LOCK_VARIABLE_def)
  have "benign (CallNotify witness_notify (RestoreTpl witness_notify (Suc 0))) (\<lambda>f p c t log. log @ [p]) (Events ?s) [102]"
    by (rule witness_benign) (simp add: s)
  then show ?thesis
    using CoreSignalEvent_delivers [of ?s 102 "witness_event 16 7 0 False" witness_notify 0 "\<lambda>f p c t log. log @ [p]"]
      witness_events_wf [of 0 False 8] s
    by (auto simp: event_ready_def none_above_def numeral_2_eq_2)
qed

text \<open>
  C14. Signalling an event of a group whose members are all at or below the current level queues the notification of every
  member of the group, the newest member of a level first behind what was queued at that level, and marks the event itself signalled.
\<close>

theorem CoreSignalEvent_group:
  assumes ready: "event_ready s" and e: "Events s p = Some e" "SignalCount e = 0" "signals e" "grouped e"
    and above: "none_above (gEfiCurrentTpl s) s"
    and low: "\<forall>q\<in>set (group_members (EventGroup e) s). NotifyTpl (the (Events s q)) \<le> gEfiCurrentTpl s"
  shows "\<exists>s'. CoreSignalEvent (RestoreTpl Notify (Suc n)) p s = Some (EFI_SUCCESS, s')
    \<and> event_wf s' \<and> gEfiCurrentTpl s' = gEfiCurrentTpl s \<and> EVENT_STATE.more s' = EVENT_STATE.more s
    \<and> SignalCount (the (Events s' p)) = 1
    \<and> (\<forall>u. gEventQueue s' u = filter (\<lambda>q. q \<notin> set (group_members (EventGroup e) s)) (gEventQueue s u)
          @ filter (\<lambda>q. NotifyTpl (the (Events s q)) = u) (group_members (EventGroup e) s))"
proof -
  let ?ms = "group_members (EventGroup e) s" and ?s = "PutEvent p (SignalCount_update (\<lambda>c. c + 1)) s" and ?t = "gEfiCurrentTpl s"
  have wf: "event_wf s" using ready by (simp add: event_ready_def)
  have w: "event_wf ?s" using event_wf_update [OF wf e(1)] e(1) by (simp add: PutEvent_def)
  have sg: "signalled p s = fold notified ?ms ?s" using e by (simp add: signalled_def Let_def)
  have same: "NotifyTpl (the (Events ?s q)) = NotifyTpl (the (Events s q))" for q using e(1) by (cases "q = p") simp_all
  have ms: "\<forall>q\<in>set ?ms. \<exists>e. Events ?s q = Some e \<and> notifies e" "distinct ?ms"
    using group_members_notify [OF wf] links_wfD(1) [OF event_wf_links(3) [OF wf]] by (simp_all add: group_members_def)
  have q: "gEventQueue (signalled p s) u = filter (\<lambda>q. q \<notin> set ?ms) (gEventQueue s u)
      @ filter (\<lambda>q. NotifyTpl (the (Events s q)) = u) ?ms" for u
    using fold_notified_queue [OF w ms(2,1), of u] unfolding sg same PutEvent_simps(6) .
  have "none_above ?t (signalled p s)"
    using above low fold_notified_pending [OF ms(1)] unfolding none_above_def sg same by (metis PutEvent_simps(7) leD)
  then obtain s' where s': "CoreSignalEvent (RestoreTpl Notify (Suc n)) p s = Some (EFI_SUCCESS, s')"
    "agrees (signalled p s) s'" "gEfiCurrentTpl s' = ?t"
    using rt.CoreSignalEvent_quiet [OF ready e(1)] by blast
  have "SignalCount (the (Events (signalled p s) p)) = 1"
    using Events_fold_notified [of ?s p "e\<lparr>SignalCount := 1\<rparr>" ?ms] e by (auto simp: sg)
  moreover have "event_wf s'" using agrees_wf [OF s'(2)] event_wf_signalled [OF wf e(1)] by simp
  ultimately show ?thesis using s' q by (auto simp: agrees_def)
qed

theorem CoreSignalEvent_group_witness:
  "\<exists>s'. CoreSignalEvent (RestoreTpl witness_notify 1) 101 (witness_events 1 False 30) = Some (EFI_SUCCESS, s')
     \<and> gEventQueue s' 8 = [101] \<and> gEventQueue s' 16 = [102]"
proof -
  let ?s = "witness_events 1 False 30"
  have s: "Events ?s 101 = Some (witness_event 8 7 1 False)" "gEfiCurrentTpl ?s = 30" "EVENT_STATE.more ?s = []"
    "LockState (Locks ?s gEventQueueLock) = EfiLockReleased" "gEventPending ?s = 0" "gEventQueue ?s 8 = []" "gEventQueue ?s 16 = []"
    "group_members (replicate 16 0) ?s = [102, 101, 100]" "Events ?s 102 = Some (witness_event 16 7 1 False)"
    "Events ?s 100 = Some (witness_event 30 1 0 False)"
    by (simp_all add: witness_events_def EFI_INITIALIZE_LOCK_VARIABLE_def group_members_def)
  show ?thesis
    using CoreSignalEvent_group [of ?s 101 "witness_event 8 7 1 False" witness_notify 0] witness_events_wf [of 1 False 30]
    by (auto simp: event_ready_def none_above_def s One_nat_def [symmetric] simp del: One_nat_def)
qed

end
