(* ===== verification/Event_Timer.thy ===== *)
theory Event_Timer
  imports Event_Properties
begin

unbundle bit_operations_syntax

text \<open>
  Timers: the timer list stays sorted by trigger time, \<open>CoreSetTimer\<close> arms and cancels, a tick signals the timer check
  when the first timer has expired, and the check handles every expired timer and ends, provided no period wraps
  around the clock; when one does, it never ends.
\<close>

section \<open>Inserting into the sorted list\<close>

definition trigger :: "'a EVENT_STATE_scheme \<Rightarrow> ptr \<Rightarrow> UINT64" where
  "trigger s q = TriggerTime (the (Events s q))"

definition place :: "('b \<Rightarrow> 'k::linorder) \<Rightarrow> 'k \<Rightarrow> 'b \<Rightarrow> 'b list \<Rightarrow> 'b list" where
  "place f k x xs = takeWhile (\<lambda>y. f y \<le> k) xs @ x # dropWhile (\<lambda>y. f y \<le> k) xs"

lemma set_place [simp]: "set (place f k x xs) = insert x (set xs)"
proof -
  have "set (takeWhile P xs) \<union> set (dropWhile P xs) = set xs" for P
    by (metis set_append takeWhile_dropWhile_id)
  then show ?thesis by (auto simp: place_def)
qed

lemma distinct_place: "distinct xs \<Longrightarrow> x \<notin> set xs \<Longrightarrow> distinct (place f k x xs)"
proof -
  assume a: "distinct xs" "x \<notin> set xs"
  have "distinct (takeWhile P xs @ dropWhile P xs)" for P using a(1) by simp
  then show ?thesis using a(2) unfolding place_def distinct_append by (auto dest: set_takeWhileD set_dropWhileD)
qed

lemma sorted_place: "sorted (map f xs) \<Longrightarrow> f x = k \<Longrightarrow> sorted (map f (place f k x xs))"
proof (induction xs)
  case (Cons y ys)
  then show ?case by (auto simp: place_def dest!: set_takeWhileD set_dropWhileD)
qed (simp add: place_def)

lemma InsertTimerLoop_eq:
  assumes "\<forall>q\<in>set qs. \<exists>e. EventCR q s = Some e"
  shows "InsertTimerLoop k p qs s = Some (place (trigger s) k p qs)"
  using assms
proof (induction qs)
  case (Cons q qs)
  then obtain e where e: "EventCR q s = Some e" by auto
  then have "Events s q = Some e" by (auto simp: EventCR_def bind_Some_iff)
  then show ?case using Cons e by (auto simp: place_def trigger_def not_le)
qed (simp add: place_def)

section \<open>Arming and disarming\<close>

definition timed :: "ptr \<Rightarrow> 'a EVENT_STATE_scheme \<Rightarrow> 'a EVENT_STATE_scheme" where
  "timed p s = s\<lparr>Events := (Events s)(p := map_option (TimerLinked_update (\<lambda>_. True)) (Events s p)),
     mEfiTimerList := place (trigger s) (trigger s p) p (mEfiTimerList s)\<rparr>"

definition untimed :: "ptr \<Rightarrow> 'a EVENT_STATE_scheme \<Rightarrow> 'a EVENT_STATE_scheme" where
  "untimed p s = s\<lparr>Events := (Events s)(p := map_option (TimerLinked_update (\<lambda>_. False)) (Events s p)),
     mEfiTimerList := remove1 p (mEfiTimerList s)\<rparr>"

definition period :: "'a EVENT_STATE_scheme \<Rightarrow> ptr \<Rightarrow> UINT64" where
  "period s q = Period (the (Events s q))"

lemma timer_event:
  assumes "event_wf s" and "Events s p = Some e"
  shows "p \<in> set (mEfiTimerList s) \<longleftrightarrow> TimerLinked e"
  using links_wfD(2) [OF event_wf_links(2) [OF assms(1)], of p] assms(2) by simp

lemma timer_list_event:
  assumes "event_wf s" and "p \<in> set (mEfiTimerList s)"
  shows "\<exists>e. Events s p = Some e \<and> EventCR p s = Some e \<and> TimerLinked e"
  using links_wfD(2) [OF event_wf_links(2) [OF assms(1)], of p] assms(2) event_wf_event(4) [OF assms(1)] by blast

lemma CoreInsertEventTimer_eq:
  assumes wf: "event_wf s" and e: "Events s p = Some e" and "LockState (Locks s mEfiTimerLock) = EfiLockAcquired"
  shows "CoreInsertEventTimer p s = Some (timed p s)"
proof -
  have "\<forall>q\<in>set (mEfiTimerList s). \<exists>e. EventCR q s = Some e" using timer_list_event [OF wf] by blast
  then show ?thesis using e assms(3)
    by (simp add: CoreInsertEventTimer_def ASSERT_LOCKED_def InsertTimerLoop_eq timed_def PutEvent_def)
      (simp add: trigger_def)
qed

lemma event_wf_timed:
  assumes wf: "event_wf s" and e: "Events s p = Some e" and "\<not> TimerLinked e"
  shows "event_wf (timed p s)"
proof -
  let ?e = "e\<lparr>TimerLinked := True\<rparr>" and ?ts = "place (trigger s) (trigger s p) p (mEfiTimerList s)"
  let ?s = "s\<lparr>Events := (Events s)(p \<mapsto> ?e), mEfiTimerList := ?ts\<rparr>"
  have p: "p \<notin> set (mEfiTimerList s)" using timer_event [OF wf e] assms(3) by simp
  have L: "links_wf (Events s) TimerLinked (mEfiTimerList s)" by (rule event_wf_links(2) [OF wf])
  have "links_wf ((Events s)(p \<mapsto> ?e)) TimerLinked ?ts"
    by (rule links_wfI) (rule distinct_place [OF links_wfD(1) [OF L] p], auto simp: links_wfD(2) [OF L])
  moreover have "(\<lambda>q. TriggerTime (the (Events ?s q))) = trigger s" using e by (auto simp: trigger_def)
  moreover have "sorted (map (trigger s) (mEfiTimerList s))" using wf by (simp add: event_wf_def timers_wf_def trigger_def [abs_def])
  ultimately have "timers_wf ?s" using sorted_place [of "trigger s"] by (simp add: timers_wf_def del: fun_upd_apply)
  then have "event_wf ?s" by (intro event_wf_update_timers [OF wf e]) simp_all
  then show ?thesis using e by (simp add: timed_def)
qed

lemma RemoveTimerLink_eq:
  assumes wf: "event_wf s" and e: "Events s p = Some e" and "TimerLinked e"
  shows "RemoveTimerLink p s = Some (untimed p s)"
  using timer_event [OF wf e] assms(3) by (simp add: RemoveTimerLink_def Unlink_def untimed_def PutEvent_def)

lemma event_wf_untimed:
  assumes wf: "event_wf s" and e: "Events s p = Some e"
  shows "event_wf (untimed p s)"
proof -
  let ?e = "e\<lparr>TimerLinked := False\<rparr>" and ?ts = "remove1 p (mEfiTimerList s)"
  let ?s = "s\<lparr>Events := (Events s)(p \<mapsto> ?e), mEfiTimerList := ?ts\<rparr>"
  have "links_wf ((Events s)(p \<mapsto> ?e)) TimerLinked ?ts" by (rule links_wf_remove [OF event_wf_links(2) [OF wf]]) simp
  moreover have "(\<lambda>q. TriggerTime (the (Events ?s q))) = trigger s" using e by (auto simp: trigger_def)
  moreover have "sorted (map (trigger s) (mEfiTimerList s))" using wf by (simp add: event_wf_def timers_wf_def trigger_def [abs_def])
  ultimately have "timers_wf ?s" using sorted_map_remove1 [of "trigger s"] by (simp add: timers_wf_def del: fun_upd_apply)
  then have "event_wf ?s" by (intro event_wf_update_timers [OF wf e]) simp_all
  then show ?thesis using e by (simp add: untimed_def)
qed

section \<open>What signalling keeps\<close>

definition keeps :: "IEVENT \<Rightarrow> IEVENT \<Rightarrow> bool" where
  "keeps e e' \<longleftrightarrow> EvType e' = EvType e \<and> Period e' = Period e \<and> NotifyTpl e' = NotifyTpl e
     \<and> NotifyFunction e' = NotifyFunction e \<and> NotifyContext e' = NotifyContext e \<and> (SignalCount e \<noteq> 0 \<longrightarrow> SignalCount e' \<noteq> 0)
     \<and> (NotifyLinked e \<longrightarrow> NotifyLinked e')
     \<and> (signals e \<and> SignalCount e = 0 \<and> SignalCount e' \<noteq> 0 \<longrightarrow> NotifyLinked e')"

definition events_keep :: "'a EVENT_STATE_scheme \<Rightarrow> 'a EVENT_STATE_scheme \<Rightarrow> bool" where
  "events_keep s s' \<longleftrightarrow> (\<forall>q. rel_option keeps (Events s q) (Events s' q))"

lemma events_keepI:
  assumes "\<And>q. Events s q = None \<Longrightarrow> Events s' q = None"
    and "\<And>q e. Events s q = Some e \<Longrightarrow> \<exists>e'. Events s' q = Some e' \<and> keeps e e'"
  shows "events_keep s s'"
  unfolding events_keep_def
proof
  fix q
  show "rel_option keeps (Events s q) (Events s' q)" using assms [of q] by (cases "Events s q") auto
qed

lemma events_keepD:
  assumes "events_keep s s'"
  shows "Events s q = None \<Longrightarrow> Events s' q = None" and "Events s q = Some e \<Longrightarrow> \<exists>e'. Events s' q = Some e' \<and> keeps e e'"
  using assms unfolding events_keep_def by (metis option.rel_sel option.collapse option.sel option.distinct(1))+

lemma events_keep_trans:
  assumes "events_keep s s1" and "events_keep s1 s2"
  shows "events_keep s s2"
proof (rule events_keepI)
  show "Events s q = None \<Longrightarrow> Events s2 q = None" for q using assms events_keepD(1) by blast
  show "\<exists>e'. Events s2 q = Some e' \<and> keeps e e'" if "Events s q = Some e" for q e
    using events_keepD(2) [OF assms(1) that] events_keepD(2) [OF assms(2)] by (fastforce simp: keeps_def signals_def)
qed

lemma events_keep_agrees: "agrees s s1 \<Longrightarrow> events_keep s0 s1 = events_keep s0 s"
  by (simp add: events_keep_def agrees_def)

lemma None_fold_notified: "Events s q = None \<Longrightarrow> Events (fold notified ps s) q = None"
proof (induction ps arbitrary: s)
  case (Cons p ps)
  have "Events (notified p s) q = None" using Cons.prems by (cases "q = p") simp_all
  then show ?case using Cons.IH by simp
qed simp

text \<open>Signalling changes the signal count and the flag of the queue, nothing else of an event.\<close>

lemma signalled_event:
  assumes wf: "event_wf s" and e: "Events s q = Some e"
  shows "\<exists>c b. Events (signalled p s) q = Some (e\<lparr>SignalCount := c, NotifyLinked := b\<rparr>)
    \<and> (SignalCount e \<noteq> 0 \<or> q = p \<longrightarrow> c \<noteq> 0) \<and> (NotifyLinked e \<longrightarrow> b) \<and> (q \<noteq> p \<longrightarrow> c = SignalCount e) \<and> (q = p \<and> signals e \<and> SignalCount e = 0 \<longrightarrow> b)"
proof (cases "SignalCount (the (Events s p)) \<noteq> 0")
  case True
  then show ?thesis using e
    by (intro exI [of _ "SignalCount e"] exI [of _ "NotifyLinked e"]) (auto simp: signalled_def Let_def)
next
  case False
  let ?s = "PutEvent p (SignalCount_update (\<lambda>c. c + 1)) s" and ?ep = "the (Events s p)"
  define e1 where "e1 = (if q = p then e\<lparr>SignalCount := 1\<rparr> else e)"
  have e1: "Events ?s q = Some e1" using e False by (auto simp: e1_def)
  define ps where "ps = (if \<not> signals ?ep then [] else if grouped ?ep then group_members (EventGroup ?ep) s else [p])"
  have sg: "signalled p s = fold notified ps ?s" using False by (simp add: signalled_def Let_def ps_def)
  have "q \<in> set ps" if "q = p" "signals e"
    using that e wf links_wfD(2) [OF event_wf_links(3) [OF wf], of p]
    by (auto simp: ps_def group_members_def event_wf_def signal_wf_def)
  moreover obtain b where b: "Events (signalled p s) q = Some (e1\<lparr>NotifyLinked := b\<rparr>)" "NotifyLinked e1 \<or> q \<in> set ps \<longrightarrow> b"
    using Events_fold_notified [OF e1, of ps] unfolding sg by blast
  moreover have "e1\<lparr>NotifyLinked := b\<rparr> = e\<lparr>SignalCount := SignalCount e1, NotifyLinked := b\<rparr>" by (simp add: e1_def)
  ultimately show ?thesis
    by (intro exI [of _ "SignalCount e1"] exI [of _ b]) (auto simp: e1_def)
qed

lemma signalled_none: "Events s q = None \<Longrightarrow> Events (signalled p s) q = None"
  by (cases "q = p") (simp_all add: signalled_def Let_def None_fold_notified)

lemma signalled_keep:
  assumes "event_wf s"
  shows "events_keep s (signalled p s)"
proof (rule events_keepI)
  show "\<exists>e'. Events (signalled p s) q = Some e' \<and> keeps e e'" if "Events s q = Some e" for q e
    using signalled_event [OF assms that, of p] by (fastforce simp: keeps_def)
qed (rule signalled_none)

lemma signalled_trigger:
  assumes "event_wf s" and "Events s q \<noteq> None"
  shows "trigger (signalled p s) q = trigger s q"
  using assms signalled_event [OF assms(1), of q _ p] by (fastforce simp: trigger_def)

section \<open>One expired timer\<close>

definition check_ready :: "'a EVENT_STATE_scheme \<Rightarrow> bool" where
  "check_ready s \<longleftrightarrow> event_ready s \<and> gEfiCurrentTpl s = TPL_HIGH_LEVEL - 1
     \<and> LockState (Locks s mEfiTimerLock) = EfiLockAcquired"

text \<open>What the timer check does not change.\<close>

definition check_frame :: "'a EVENT_STATE_scheme \<Rightarrow> 'a EVENT_STATE_scheme \<Rightarrow> bool" where
  "check_frame s s' \<longleftrightarrow> events_keep s s' \<and> mEfiSystemTime s' = mEfiSystemTime s \<and> mEfiCheckTimerEvent s' = mEfiCheckTimerEvent s
     \<and> EVENT_STATE.more s' = EVENT_STATE.more s
     \<and> (\<forall>l. LockState (Locks s' l) = LockState (Locks s l) \<and> LockTpl (Locks s' l) = LockTpl (Locks s l)
          \<and> (LockState (Locks s l) = EfiLockAcquired \<longrightarrow> OwnerTpl (Locks s' l) = OwnerTpl (Locks s l)))"

lemma check_frame_trans: "check_frame s s1 \<Longrightarrow> check_frame s1 s2 \<Longrightarrow> check_frame s s2"
  unfolding check_frame_def using events_keep_trans [of s s1 s2] by simp

lemma check_frame_agrees: "agrees s s' \<Longrightarrow> events_keep s0 s \<Longrightarrow> check_frame s0 s \<Longrightarrow> check_frame s0 s'"
  by (simp add: check_frame_def events_keep_agrees) (simp add: agrees_def dispatch_frame_def)

lemma events_keep_put:
  assumes "\<And>e. Events s p = Some e \<Longrightarrow> keeps e (f e)" and "Events s' = (Events s)(p := map_option f (Events s p))"
  shows "events_keep s s'"
  by (rule events_keepI) (use assms in \<open>auto simp: keeps_def\<close>)

text \<open>Setting the trigger time of a timer that is not in the list.\<close>

lemma set_trigger:
  fixes t :: UINT64
  assumes wf: "event_wf s" and e: "Events s p = Some e" and "\<not> TimerLinked e"
  defines "s1 \<equiv> PutEvent p (TriggerTime_update (\<lambda>_. t)) s"
  shows "event_wf s1" "Events s1 p = Some (e\<lparr>TriggerTime := t\<rparr>)" "trigger s1 q = (if q = p then t else trigger s q)"
    "check_frame s s1" "mEfiTimerList s1 = mEfiTimerList s"
proof -
  show "event_wf s1" using event_wf_update [OF wf e, of "e\<lparr>TriggerTime := t\<rparr>"] assms(3) e by (simp add: s1_def PutEvent_def)
  show "Events s1 p = Some (e\<lparr>TriggerTime := t\<rparr>)" "trigger s1 q = (if q = p then t else trigger s q)"
    "mEfiTimerList s1 = mEfiTimerList s"
    using e by (simp_all add: s1_def trigger_def)
  have "events_keep s s1" by (rule events_keep_put [of _ p "TriggerTime_update (\<lambda>_. t)"]) (simp_all add: keeps_def s1_def)
  then show "check_frame s s1" by (simp add: check_frame_def s1_def)
qed

lemma timed_facts:
  assumes e: "Events s p = Some e"
  shows "trigger (timed p s) q = trigger s q" "check_frame s (timed p s)"
    "set (mEfiTimerList (timed p s)) = insert p (set (mEfiTimerList s))" "gEfiCurrentTpl (timed p s) = gEfiCurrentTpl s"
proof -
  have "events_keep s (timed p s)"
    by (rule events_keep_put [of _ p "TimerLinked_update (\<lambda>_. True)"]) (simp_all add: keeps_def timed_def)
  then show "check_frame s (timed p s)" by (simp add: check_frame_def timed_def)
  show "trigger (timed p s) q = trigger s q" using e by (simp add: trigger_def timed_def)
qed (simp_all add: timed_def)

lemma untimed_facts:
  assumes wf: "event_wf s" and e: "Events s p = Some e"
  shows "trigger (untimed p s) q = trigger s q" "check_frame s (untimed p s)"
    "mEfiTimerList (untimed p s) = remove1 p (mEfiTimerList s)" "Events (untimed p s) p = Some (e\<lparr>TimerLinked := False\<rparr>)"
    "gEfiCurrentTpl (untimed p s) = gEfiCurrentTpl s"
proof -
  have "events_keep s (untimed p s)"
    by (rule events_keep_put [of _ p "TimerLinked_update (\<lambda>_. False)"]) (simp_all add: keeps_def untimed_def)
  then show "check_frame s (untimed p s)" by (simp add: check_frame_def untimed_def)
  show "trigger (untimed p s) q = trigger s q" using e by (simp add: trigger_def untimed_def)
qed (simp_all add: untimed_def e)

lemma check_ready_frame:
  assumes "check_ready s" and "check_frame s s'" and "event_wf s'" and "gEfiCurrentTpl s' = gEfiCurrentTpl s"
  shows "check_ready s'"
  using assms by (simp add: check_ready_def check_frame_def event_ready_def)

context lowers
begin

text \<open>Signalling while the timer list is checked never runs a notification: nothing is pending above that level.\<close>

lemma signal_checked:
  assumes ready: "check_ready s" and e: "Events s p = Some e"
  shows "\<exists>s'. CoreSignalEvent R p s = Some (EFI_SUCCESS, s') \<and> agrees (signalled p s) s' \<and> check_ready s' \<and> check_frame s s'
    \<and> mEfiTimerList s' = mEfiTimerList s \<and> (\<forall>q. Events s q \<noteq> None \<longrightarrow> trigger s' q = trigger s q)"
proof -
  have wf: "event_wf s" "event_ready s" "gEfiCurrentTpl s = TPL_HIGH_LEVEL - 1"
    using ready by (simp_all add: check_ready_def event_ready_def)
  have wfs: "event_wf (signalled p s)" by (rule event_wf_signalled [OF wf(1) e])
  then have "none_above (gEfiCurrentTpl s) (signalled p s)" using wf_none_above [OF wfs] wf(3) by simp
  then obtain s' where s': "CoreSignalEvent R p s = Some (EFI_SUCCESS, s')" "agrees (signalled p s) s'"
    "gEfiCurrentTpl s' = gEfiCurrentTpl s"
    using CoreSignalEvent_quiet [OF wf(2) e] by blast
  have "check_frame s (signalled p s)" using signalled_keep [OF wf(1)] by (simp add: check_frame_def)
  then have f: "check_frame s s'" using check_frame_agrees [OF s'(2)] by (simp add: check_frame_def)
  moreover have "event_wf s'" using agrees_wf [OF s'(2)] wfs by simp
  ultimately have "check_ready s'" using check_ready_frame [OF ready] s'(3) by blast
  moreover have "trigger s' = trigger (signalled p s)" "mEfiTimerList s' = mEfiTimerList s"
    using s'(2) by (auto simp: agrees_def dispatch_frame_def trigger_def)
  ultimately show ?thesis using s'(1,2) f signalled_trigger [OF wf(1)] by auto
qed

end

definition rearm :: "UINT64 \<Rightarrow> UINT64 \<Rightarrow> UINT64 \<Rightarrow> UINT64" where
  "rearm T t d = (if d = 0 then t else if t + d \<le> T then T else t + d)"

lemma timed_checked:
  assumes ready: "check_ready s" and e: "Events s p = Some e" and p: "p \<notin> set (mEfiTimerList s)"
  shows "CoreInsertEventTimer p s = Some (timed p s)" "check_ready (timed p s)"
proof -
  have wf: "event_wf s" "LockState (Locks s mEfiTimerLock) = EfiLockAcquired"
    using ready by (simp_all add: check_ready_def event_ready_def)
  then show "CoreInsertEventTimer p s = Some (timed p s)" using CoreInsertEventTimer_eq [OF _ e] by blast
  have "event_wf (timed p s)" using event_wf_timed [OF wf(1) e] timer_event [OF wf(1) e] p by blast
  then show "check_ready (timed p s)" using check_ready_frame [OF ready] timed_facts [OF e] by blast
qed

context lowers
begin

lemma RearmTimer_checked:
  assumes ready: "check_ready s" and e: "Events s p = Some e" and p: "p \<notin> set (mEfiTimerList s)"
  shows "\<exists>s'. RearmTimer R T p s = Some s' \<and> check_ready s' \<and> check_frame s s'
    \<and> set (mEfiTimerList s') = (if Period e = 0 then set (mEfiTimerList s) else insert p (set (mEfiTimerList s)))
    \<and> (\<forall>q. Events s q \<noteq> None \<longrightarrow> trigger s' q = (if q = p then rearm T (TriggerTime e) (Period e) else trigger s q))"
proof (cases "Period e = 0")
  case True
  moreover have "check_frame s s" by (auto simp: check_frame_def events_keep_def keeps_def option.rel_refl)
  ultimately show ?thesis using e ready by (auto simp: RearmTimer_def rearm_def trigger_def)
next
  case False
  have wf: "event_wf s" using ready by (simp add: check_ready_def event_ready_def)
  have nl: "\<not> TimerLinked e" using timer_event [OF wf e] p by simp
  define x where "x = rearm T (TriggerTime e) (Period e)"
  define s1 where "s1 = PutEvent p (TriggerTime_update (\<lambda>_. x)) s"
  note s1 = set_trigger [OF wf e nl, of x, folded s1_def]
  have r1: "check_ready s1" using check_ready_frame [OF ready s1(4,1)] by (simp add: s1_def)
  show ?thesis
  proof (cases "TriggerTime e + Period e \<le> T")
    case late: True
    have x: "x = T" using late False by (simp add: x_def rearm_def)
    obtain ec where ec: "Events s1 (mEfiCheckTimerEvent s1) = Some ec" using s1(1) by (auto simp: event_wf_def check_timer_wf_def)
    from signal_checked [OF r1 ec] obtain s2 where s2: "CoreSignalEvent R (mEfiCheckTimerEvent s1) s1 = Some (EFI_SUCCESS, s2)"
      "check_ready s2" "check_frame s1 s2" "mEfiTimerList s2 = mEfiTimerList s1"
      "\<forall>q. Events s1 q \<noteq> None \<longrightarrow> trigger s2 q = trigger s1 q" by blast
    obtain e2 where e2: "Events s2 p = Some e2" using s2(3) s1(2) events_keepD(2) by (fastforce simp: check_frame_def)
    have p2: "p \<notin> set (mEfiTimerList s2)" using p s1(5) s2(4) by simp
    have "RearmTimer R T p s = Some (timed p s2)"
      using e False late s2(1) timed_checked(1) [OF s2(2) e2 p2] x
      by (simp add: RearmTimer_def Let_def) (simp add: s1_def PutEvent_def)
    moreover have "check_frame s (timed p s2)"
      using check_frame_trans [OF check_frame_trans [OF s1(4) s2(3)] timed_facts(2) [OF e2]] .
    ultimately show ?thesis
      using timed_checked(2) [OF s2(2) e2 p2] timed_facts(1,3) [OF e2] s2(4,5) s1(2,3,5) False e
      by (auto simp: x_def s1_def)
  next
    case late: False
    have p1: "p \<notin> set (mEfiTimerList s1)" using p s1(5) by simp
    have "RearmTimer R T p s = Some (timed p s1)"
      using e False late timed_checked(1) [OF r1 s1(2) p1]
      by (simp add: RearmTimer_def Let_def) (simp add: s1_def PutEvent_def x_def rearm_def)
    moreover have "check_frame s (timed p s1)" using check_frame_trans [OF s1(4) timed_facts(2) [OF s1(2)]] .
    ultimately show ?thesis
      using timed_checked(2) [OF r1 s1(2) p1] timed_facts(1,3) [OF s1(2)] s1(3,5) False by (auto simp: x_def)
  qed
qed

end

text \<open>One round of the loop.\<close>

definition check_one :: "'a restore \<Rightarrow> UINT64 \<Rightarrow> ptr \<Rightarrow> 'a EVENT_STATE_scheme \<Rightarrow> 'a EVENT_STATE_scheme option" where
  "check_one R T p s = do { s \<leftarrow> RemoveTimerLink p s; (Status, s) \<leftarrow> CoreSignalEvent R p s; RearmTimer R T p s }"

lemma check_one_bind:
  "Option.bind (check_one R T p s) f
   = Option.bind (RemoveTimerLink p s) (\<lambda>s. Option.bind (CoreSignalEvent R p s) (\<lambda>(Status, s). Option.bind (RearmTimer R T p s) f))"
  by (cases "RemoveTimerLink p s") (simp_all add: check_one_def bind_assoc case_prod_unfold)

context lowers
begin

lemma CheckTimers_step:
  assumes ready: "check_ready s" and ts: "mEfiTimerList s = p # ps"
  shows "\<exists>s1. check_one R T p s = Some s1 \<and> check_ready s1 \<and> check_frame s s1
    \<and> set (mEfiTimerList s1) = (if period s p = 0 then set ps else insert p (set ps))
    \<and> (\<forall>q. Events s q \<noteq> None \<longrightarrow> trigger s1 q = (if q = p then rearm T (trigger s p) (period s p) else trigger s q))
    \<and> SignalCount (the (Events s1 p)) \<noteq> 0"
proof -
  have wf: "event_wf s" using ready by (simp add: check_ready_def event_ready_def)
  obtain e where e: "Events s p = Some e" "EventCR p s = Some e" "TimerLinked e" using timer_list_event [OF wf, of p] ts by auto
  have p: "p \<notin> set ps" using links_wfD(1) [OF event_wf_links(2) [OF wf]] ts by simp
  let ?u = "untimed p s" and ?e = "e\<lparr>TimerLinked := False\<rparr>"
  note u = untimed_facts [OF wf e(1)]
  have wfu: "event_wf ?u" by (rule event_wf_untimed [OF wf e(1)])
  have ru: "check_ready ?u" by (rule check_ready_frame [OF ready u(2) wfu u(5)])
  from signal_checked [OF ru u(4)] obtain s2 where s2: "CoreSignalEvent R p ?u = Some (EFI_SUCCESS, s2)" "agrees (signalled p ?u) s2"
    "check_ready s2" "check_frame ?u s2" "mEfiTimerList s2 = mEfiTimerList ?u"
    "\<forall>q. Events ?u q \<noteq> None \<longrightarrow> trigger s2 q = trigger ?u q" by blast
  from signalled_event [OF wfu u(4), of p] obtain c b where cb: "Events (signalled p ?u) p = Some (?e\<lparr>SignalCount := c, NotifyLinked := b\<rparr>)"
    "c \<noteq> 0" by blast
  then have e2: "Events s2 p = Some (?e\<lparr>SignalCount := c, NotifyLinked := b\<rparr>)" using s2(2) by (simp add: agrees_def)
  have l2: "mEfiTimerList s2 = ps" using s2(5) u(3) ts by simp
  from RearmTimer_checked [OF s2(3) e2, of T] obtain s3 where s3: "RearmTimer R T p s2 = Some s3" "check_ready s3" "check_frame s2 s3"
    "set (mEfiTimerList s3) = (if Period e = 0 then set ps else insert p (set ps))"
    "\<forall>q. Events s2 q \<noteq> None \<longrightarrow> trigger s3 q = (if q = p then rearm T (TriggerTime e) (Period e) else trigger s2 q)"
    using p by (auto simp: l2)
  have f2: "check_frame s s2" by (rule check_frame_trans [OF u(2) s2(4)])
  have live: "Events s2 q \<noteq> None" "Events ?u q \<noteq> None" if "Events s q \<noteq> None" for q
    using that events_keepD(2) [of s s2 q] events_keepD(2) [of s ?u q] f2 u(2) by (auto simp: check_frame_def)
  have "check_one R T p s = Some s3"
    using RemoveTimerLink_eq [OF wf e(1,3)] s2(1) s3(1) by (simp add: check_one_def)
  moreover have "check_frame s s3" by (rule check_frame_trans [OF f2 s3(3)])
  moreover obtain e3 where "Events s3 p = Some e3" "keeps (?e\<lparr>SignalCount := c, NotifyLinked := b\<rparr>) e3"
    using s3(3) events_keepD(2) [OF _ e2] by (auto simp: check_frame_def)
  moreover have "trigger s3 q = (if q = p then rearm T (trigger s p) (period s p) else trigger s q)" if "Events s q \<noteq> None" for q
    using s3(5) live [OF that] s2(6) u(1) e(1) by (simp add: trigger_def period_def)
  ultimately show ?thesis using s3(2,4) cb(2) e(1)
    by (intro exI [of _ s3]) (auto simp: keeps_def period_def)
qed

end

section \<open>The whole check\<close>

definition overdue :: "UINT64 \<Rightarrow> 'a EVENT_STATE_scheme \<Rightarrow> ptr set" where
  "overdue T s = {q \<in> set (mEfiTimerList s). trigger s q \<le> T}"

text \<open>No period of an expired timer reaches past the end of the 64-bit clock.\<close>

definition no_wrap :: "UINT64 \<Rightarrow> 'a EVENT_STATE_scheme \<Rightarrow> bool" where
  "no_wrap T s \<longleftrightarrow> (\<forall>q\<in>overdue T s. unat T + unat (period s q) < 2 ^ 64)"

definition next_trigger :: "UINT64 \<Rightarrow> UINT64 \<Rightarrow> UINT64 \<Rightarrow> UINT64" where
  "next_trigger T t d = (if t > T \<or> d = 0 then t else if t + d > T then t + d else T + d)"

definition timers_checked :: "UINT64 \<Rightarrow> 'a EVENT_STATE_scheme \<Rightarrow> 'a EVENT_STATE_scheme \<Rightarrow> bool" where
  "timers_checked T s s' \<longleftrightarrow> check_frame s s'
     \<and> set (mEfiTimerList s') = {q \<in> set (mEfiTimerList s). trigger s q \<le> T \<longrightarrow> period s q \<noteq> 0}
     \<and> (\<forall>q. Events s q \<noteq> None \<longrightarrow> trigger s' q =
          (if q \<in> set (mEfiTimerList s) then next_trigger T (trigger s q) (period s q) else trigger s q))
     \<and> (\<forall>q\<in>overdue T s. SignalCount (the (Events s' q)) \<noteq> 0)"

definition weight :: "UINT64 \<Rightarrow> 'a EVENT_STATE_scheme \<Rightarrow> ptr \<Rightarrow> nat" where
  "weight T s q = (if trigger s q > T then 0 else if period s q \<noteq> 0 \<and> trigger s q + period s q \<le> T then 2 else 1)"

lemma word_add_larger:
  fixes T d :: UINT64
  assumes "d \<noteq> 0" and "unat T + unat d < 2 ^ 64"
  shows "T < T + d"
proof -
  have "0 < unat d" using assms(1) by (simp add: unat_gt_0)
  moreover have "unat (T + d) = unat T + unat d" using assms(2) by (simp add: unat_word_ariths)
  ultimately show ?thesis by (simp add: word_less_nat_alt)
qed

lemma check_frame_period: "check_frame s s' \<Longrightarrow> Events s q \<noteq> None \<Longrightarrow> period s' q = period s q"
  unfolding check_frame_def using events_keepD(2) [of s s' q] by (auto simp: period_def keeps_def)

lemma check_frame_live: "check_frame s s' \<Longrightarrow> Events s q \<noteq> None \<Longrightarrow> Events s' q \<noteq> None"
  unfolding check_frame_def using events_keepD(2) [of s s' q] by auto

lemma timer_live: "event_wf s \<Longrightarrow> q \<in> set (mEfiTimerList s) \<Longrightarrow> Events s q \<noteq> None"
  using timer_list_event [of s q] by auto

lemma overdue_head:
  assumes wf: "event_wf s" and due: "q \<in> overdue T s"
  shows "\<exists>p ps. mEfiTimerList s = p # ps \<and> trigger s p \<le> T"
proof (cases "mEfiTimerList s")
  case (Cons p ps)
  have "sorted (map (trigger s) (p # ps))" using wf Cons by (simp add: event_wf_def timers_wf_def trigger_def [abs_def])
  then show ?thesis using due Cons by (auto simp: overdue_def)
qed (use due in \<open>simp add: overdue_def\<close>)

lemma CheckTimersLoop_done:
  assumes wf: "event_wf s" and "overdue T s = {}"
  shows "CheckTimersLoop R T s = Some s"
proof (cases "mEfiTimerList s")
  case (Cons p ps)
  then obtain e where "Events s p = Some e" "EventCR p s = Some e" using timer_list_event [OF wf, of p] by auto
  moreover have "T < trigger s p" using assms(2) Cons by (auto simp: overdue_def not_le)
  ultimately show ?thesis using Cons by (subst CheckTimersLoop.simps) (simp add: trigger_def)
qed (subst CheckTimersLoop.simps, simp)

lemma CheckTimersLoop_one:
  assumes wf: "event_wf s" and "mEfiTimerList s = p # ps" and "trigger s p \<le> T"
  shows "CheckTimersLoop R T s = Option.bind (check_one R T p s) (CheckTimersLoop R T)"
proof -
  obtain e where "Events s p = Some e" "EventCR p s = Some e" using timer_list_event [OF wf, of p] assms(2) by auto
  then show ?thesis using assms(2,3) by (subst CheckTimersLoop.simps) (auto simp: trigger_def check_one_bind)
qed

lemma next_trigger_rearm:
  assumes "t \<le> T" and "d \<noteq> 0"
  shows "next_trigger T (rearm T t d) d = next_trigger T t d"
proof (cases "t + d \<le> T")
  case True
  then show ?thesis using assms by (simp add: next_trigger_def rearm_def leD)
next
  case False
  then have "rearm T t d = t + d" "T < t + d" using assms(2) by (simp_all add: rearm_def)
  then show ?thesis using assms by (auto simp: next_trigger_def)
qed

lemma timers_checked_step:
  assumes wf: "event_wf s" and ts: "mEfiTimerList s = p # ps" and due: "trigger s p \<le> T"
    and f: "check_frame s s1"
    and l1: "set (mEfiTimerList s1) = (if period s p = 0 then set ps else insert p (set ps))"
    and t1: "\<forall>q. Events s q \<noteq> None \<longrightarrow> trigger s1 q = (if q = p then rearm T (trigger s p) (period s p) else trigger s q)"
    and c1: "SignalCount (the (Events s1 p)) \<noteq> 0" and ck: "timers_checked T s1 s'"
  shows "timers_checked T s s'"
proof -
  have live: "Events s q \<noteq> None" if "q \<in> set (p # ps)" for q using timer_live [OF wf] that ts by simp
  have p: "p \<notin> set ps" using links_wfD(1) [OF event_wf_links(2) [OF wf]] ts by simp
  have per: "period s1 q = period s q" if "Events s q \<noteq> None" for q by (rule check_frame_period [OF f that])
  have f': "check_frame s1 s'" using ck by (simp add: timers_checked_def)
  have tp: "trigger s1 q = trigger s q \<and> period s1 q = period s q" if "q \<in> set ps" for q
    using that t1 live [of q] per [of q] p by auto
  have "set (mEfiTimerList s') = {q \<in> set (mEfiTimerList s1). trigger s1 q \<le> T \<longrightarrow> period s1 q \<noteq> 0}"
    using ck by (simp add: timers_checked_def)
  then have "set (mEfiTimerList s') = {q \<in> set (p # ps). trigger s q \<le> T \<longrightarrow> period s q \<noteq> 0}"
    using l1 tp per [OF live, of p] p due by (auto split: if_splits)
  moreover have "trigger s' q = (if q \<in> set (p # ps) then next_trigger T (trigger s q) (period s q) else trigger s q)"
    if q: "Events s q \<noteq> None" for q
  proof -
    have "trigger s' q = (if q \<in> set (mEfiTimerList s1) then next_trigger T (trigger s1 q) (period s q) else trigger s1 q)"
      using ck check_frame_live [OF f q] per [OF q] by (simp add: timers_checked_def)
    moreover have "next_trigger T t 0 = t" "rearm T t 0 = t" for t by (simp_all add: next_trigger_def rearm_def)
    ultimately show ?thesis using l1 t1 q p next_trigger_rearm [OF due] by (cases "q = p") auto
  qed
  moreover have "SignalCount (the (Events s' q)) \<noteq> 0" if q: "q \<in> overdue T s" for q
  proof (cases "q = p")
    case True
    obtain e1 where e1: "Events s1 p = Some e1" using check_frame_live [OF f live, of p] by auto
    have "events_keep s1 s'" using f' by (simp add: check_frame_def)
    from events_keepD(2) [OF this e1] obtain e' where "Events s' p = Some e'" "keeps e1 e'" by blast
    then show ?thesis using c1 e1 True by (simp add: keeps_def)
  next
    case False
    then have "q \<in> overdue T s1" using q l1 tp ts by (auto simp: overdue_def)
    then show ?thesis using ck by (simp add: timers_checked_def)
  qed
  ultimately show ?thesis using check_frame_trans [OF f f'] ts by (simp add: timers_checked_def)
qed

context lowers
begin

lemma CheckTimersLoop_total:
  assumes "check_ready s" and "no_wrap T s"
  shows "\<exists>s'. CheckTimersLoop R T s = Some s' \<and> check_ready s' \<and> timers_checked T s s'"
  using assms
proof (induction "sum (weight T s) (set (mEfiTimerList s))" arbitrary: s rule: less_induct)
  case less
  have wf: "event_wf s" using less.prems(1) by (simp add: check_ready_def event_ready_def)
  show ?case
  proof (cases "overdue T s = {}")
    case True
    have "check_frame s s" by (auto simp: check_frame_def events_keep_def keeps_def option.rel_refl)
    then have "timers_checked T s s" using True by (auto simp: timers_checked_def next_trigger_def overdue_def)
    then show ?thesis using CheckTimersLoop_done [OF wf True] less.prems(1) by blast
  next
    case False
    then obtain p ps where ts: "mEfiTimerList s = p # ps" and due: "trigger s p \<le> T" using overdue_head [OF wf] by blast
    from CheckTimers_step [OF less.prems(1) ts, of T] obtain s1 where s1: "check_one R T p s = Some s1"
      "check_ready s1" "check_frame s s1" "set (mEfiTimerList s1) = (if period s p = 0 then set ps else insert p (set ps))"
      "\<forall>q. Events s q \<noteq> None \<longrightarrow> trigger s1 q = (if q = p then rearm T (trigger s p) (period s p) else trigger s q)"
      "SignalCount (the (Events s1 p)) \<noteq> 0" by blast
    have live: "Events s q \<noteq> None" if "q \<in> set (p # ps)" for q using timer_live [OF wf] that ts by simp
    have p: "p \<notin> set ps" using links_wfD(1) [OF event_wf_links(2) [OF wf]] ts by simp
    have tp: "trigger s1 q = trigger s q \<and> period s1 q = period s q" if "q \<in> set ps" for q
      using that s1(5) live [of q] check_frame_period [OF s1(3)] p by auto
    have pp: "trigger s1 p = rearm T (trigger s p) (period s p)" "period s1 p = period s p"
      using s1(5) live [of p] check_frame_period [OF s1(3)] by auto
    have ov: "p \<in> overdue T s" "overdue T s1 \<subseteq> overdue T s" using ts due s1(4) tp by (auto simp: overdue_def split: if_splits)
    have nw: "unat T + unat (period s p) < 2 ^ 64" using less.prems(2) ov(1) by (simp add: no_wrap_def)
    have "no_wrap T s1"
      using less.prems(2) ov(2) tp pp(2) s1(4) by (auto simp: no_wrap_def overdue_def split: if_splits)
    moreover have "sum (weight T s1) (set (mEfiTimerList s1)) < sum (weight T s) (set (mEfiTimerList s))"
    proof -
      have "weight T s1 p < weight T s p" if "period s p \<noteq> 0"
        using due pp that word_add_larger [OF that nw] by (auto simp: weight_def rearm_def not_le)
      moreover have "sum (weight T s1) (set ps) = sum (weight T s) (set ps)" using tp by (intro sum.cong) (simp_all add: weight_def)
      moreover have "0 < weight T s p" using due by (auto simp: weight_def)
      ultimately show ?thesis using s1(4) ts p by simp
    qed
    ultimately obtain s' where s': "CheckTimersLoop R T s1 = Some s'" "check_ready s'" "timers_checked T s1 s'"
      using less.hyps s1(2) by blast
    then show ?thesis using s1(1) CheckTimersLoop_one [OF wf ts due, of R] timers_checked_step [OF wf ts due s1(3-6)] by auto
  qed
qed

end

end
