(* ===== verification/Timer_Properties.thy ===== *)
theory Timer_Properties
  imports Event_Timer
begin

unbundle bit_operations_syntax

text \<open>
  The check of the expired timers as a whole, and the check that never ends when a period wraps around the clock.
\<close>

section \<open>Taking a free lock and giving it back\<close>

lemma agrees_cycle:
  assumes "lock_free l s"
  shows "agrees s (unlocked l (acquired l s))"
  using assms by (auto simp: agrees_def dispatch_frame_def unlocked_def acquired_def lock_free_def)

lemma agrees_unlocked:
  assumes "agrees (acquired l s) s1" and "LockState (Locks s l) = EfiLockReleased"
  shows "agrees s (unlocked l s1)" "LockState (Locks s1 l) = EfiLockAcquired" "OwnerTpl (Locks s1 l) = gEfiCurrentTpl s"
  using assms by (auto simp: agrees_def dispatch_frame_def unlocked_def)

lemma CoreReleaseLock_unlocked:
  assumes "LockState (Locks s l) = EfiLockAcquired"
  shows "CoreReleaseLock R l s = R (OwnerTpl (Locks s l)) (unlocked l s)"
  using assms by (simp add: CoreReleaseLock_eq unlocked_def)

context lowers
begin

lemma CoreCurrentSystemTime_quiet:
  assumes wf: "event_wf s" and "LockState (Locks s mEfiSystemTimeLock) = EfiLockReleased"
    and "gEfiCurrentTpl s \<le> TPL_HIGH_LEVEL" and above: "none_above (gEfiCurrentTpl s) s"
  shows "\<exists>s'. CoreCurrentSystemTime R s = Some (mEfiSystemTime s, s') \<and> agrees s s' \<and> gEfiCurrentTpl s' = gEfiCurrentTpl s"
proof -
  let ?l = mEfiSystemTimeLock
  have lt: "LockTpl (Locks s ?l) = TPL_HIGH_LEVEL" using wf by (simp add: event_wf_def event_locks_wf_def)
  then have free: "lock_free ?l s" using assms(2,3) by (simp add: lock_free_def)
  let ?s = "lowered (gEfiCurrentTpl s) (unlocked ?l (acquired ?l s))"
  have "CoreReleaseLock R ?l (acquired ?l s) = Some ?s"
    using release_quiet [of "acquired ?l s" ?l] lt assms(3) above by (simp add: none_above_def unlocked_def)
  then have "CoreCurrentSystemTime R s = Some (mEfiSystemTime s, ?s)"
    using free by (simp add: CoreCurrentSystemTime_def CoreAcquireLock_eq Let_def)
  then show ?thesis using agrees_lowered [OF agrees_cycle [OF free]] by auto
qed

text \<open>The timer check up to its loop, and as a whole up to the release of the lock of the timer list.\<close>

lemma CoreCheckTimers_enter:
  assumes ready: "event_ready s" and locks: "LockState (Locks s mEfiTimerLock) = EfiLockReleased"
      "LockState (Locks s mEfiSystemTimeLock) = EfiLockReleased"
    and tpl: "gEfiCurrentTpl s \<le> TPL_HIGH_LEVEL - 1"
  shows "\<exists>s2. CoreCheckTimers R s = Option.bind (CheckTimersLoop R (mEfiSystemTime s) s2) (CoreReleaseLock R mEfiTimerLock)
    \<and> check_ready s2 \<and> check_frame (acquired mEfiTimerLock s) s2 \<and> agrees (acquired mEfiTimerLock s) s2
    \<and> mEfiTimerList s2 = mEfiTimerList s \<and> trigger s2 = trigger s \<and> period s2 = period s \<and> Events s2 = Events s"
proof -
  let ?l = mEfiTimerLock
  let ?a = "acquired ?l s"
  have wf: "event_wf s" using ready by (simp add: event_ready_def)
  have lt: "LockTpl (Locks s ?l) = TPL_HIGH_LEVEL - 1" using wf by (simp add: event_wf_def event_locks_wf_def)
  have free: "lock_free ?l s" using locks tpl lt by (simp add: lock_free_def)
  have wfa: "event_wf ?a" using wf by simp
  have ra: "check_ready ?a" using ready lt by (simp add: check_ready_def event_ready_def)
  have "none_above (gEfiCurrentTpl ?a) ?a" using wf_none_above [OF wfa] lt by simp
  then obtain s2 where s2: "CoreCurrentSystemTime R ?a = Some (mEfiSystemTime s, s2)" "agrees ?a s2"
    "gEfiCurrentTpl s2 = TPL_HIGH_LEVEL - 1"
    using CoreCurrentSystemTime_quiet [OF wfa] locks lt by auto
  have f2: "check_frame ?a s2"
    using s2(2) by (auto simp: check_frame_def agrees_def dispatch_frame_def events_keep_def keeps_def option.rel_refl)
  moreover have "check_ready s2" using check_ready_frame [OF ra f2] agrees_wf [OF s2(2)] wfa s2(3) lt by simp
  moreover have "mEfiTimerList s2 = mEfiTimerList s" "trigger s2 = trigger s" "period s2 = period s" "Events s2 = Events s"
    using s2(2) by (auto simp: agrees_def dispatch_frame_def trigger_def period_def)
  moreover have "CoreCheckTimers R s = Option.bind (CheckTimersLoop R (mEfiSystemTime s) s2) (CoreReleaseLock R mEfiTimerLock)"
    using free s2(1) by (simp add: CoreCheckTimers_def CoreAcquireLock_eq)
  ultimately show ?thesis using s2(2) by blast
qed

text \<open>With no timer expired the check only takes its locks.\<close>

lemma CoreCheckTimers_idle:
  assumes ready: "event_ready s" and locks: "LockState (Locks s mEfiTimerLock) = EfiLockReleased"
      "LockState (Locks s mEfiSystemTimeLock) = EfiLockReleased"
    and tpl: "gEfiCurrentTpl s \<le> TPL_HIGH_LEVEL - 1" and idle: "overdue (mEfiSystemTime s) s = {}"
  shows "\<exists>s1. CoreCheckTimers R s = R (gEfiCurrentTpl s) s1 \<and> agrees s s1 \<and> gEfiCurrentTpl s1 = TPL_HIGH_LEVEL - 1"
proof -
  let ?l = mEfiTimerLock
  from CoreCheckTimers_enter [OF ready locks tpl] obtain s2 where
    s2: "CoreCheckTimers R s = Option.bind (CheckTimersLoop R (mEfiSystemTime s) s2) (CoreReleaseLock R ?l)" and r2: "check_ready s2"
    and a2: "agrees (acquired ?l s) s2" and eq2: "mEfiTimerList s2 = mEfiTimerList s" "trigger s2 = trigger s"
    by blast
  have loop: "CheckTimersLoop R (mEfiSystemTime s) s2 = Some s2"
    using idle r2 eq2 by (intro CheckTimersLoop_done) (simp_all add: overdue_def check_ready_def event_ready_def)
  note a2' = agrees_unlocked [OF a2 locks(1)]
  have "CoreCheckTimers R s = R (gEfiCurrentTpl s) (unlocked ?l s2)"
    using s2 loop CoreReleaseLock_unlocked [OF a2'(2), of R] a2'(3) by simp
  then show ?thesis using r2 a2'(1) by (intro exI [of _ "unlocked ?l s2"]) (simp add: check_ready_def unlocked_def)
qed

lemma CoreCheckTimers_checked:
  assumes ready: "event_ready s" and locks: "LockState (Locks s mEfiTimerLock) = EfiLockReleased"
      "LockState (Locks s mEfiSystemTimeLock) = EfiLockReleased"
    and tpl: "gEfiCurrentTpl s \<le> TPL_HIGH_LEVEL - 1" and nw: "no_wrap (mEfiSystemTime s) s"
  shows "\<exists>s1. CoreCheckTimers R s = R (gEfiCurrentTpl s) s1 \<and> timers_checked (mEfiSystemTime s) s s1 \<and> event_wf s1
    \<and> gEfiCurrentTpl s1 = TPL_HIGH_LEVEL - 1"
proof -
  let ?l = mEfiTimerLock and ?T = "mEfiSystemTime s"
  from CoreCheckTimers_enter [OF ready locks tpl] obtain s2 where
    s2: "CoreCheckTimers R s = Option.bind (CheckTimersLoop R ?T s2) (CoreReleaseLock R ?l)" and r2: "check_ready s2"
    and f2: "check_frame (acquired ?l s) s2"
    and eq2: "mEfiTimerList s2 = mEfiTimerList s" "trigger s2 = trigger s" "period s2 = period s" "Events s2 = Events s"
    by blast
  have ov: "overdue ?T s2 = overdue ?T s" using eq2 by (simp add: overdue_def)
  then have "no_wrap ?T s2" using nw eq2 by (simp add: no_wrap_def)
  then obtain s3 where s3: "CheckTimersLoop R ?T s2 = Some s3" "check_ready s3" "timers_checked ?T s2 s3"
    using CheckTimersLoop_total [OF r2] by blast
  have f3: "check_frame (acquired ?l s) s3" using check_frame_trans [OF f2] s3(3) by (simp add: timers_checked_def)
  then have l3: "LockState (Locks s3 ?l) = EfiLockAcquired" "OwnerTpl (Locks s3 ?l) = gEfiCurrentTpl s"
    by (simp_all add: check_frame_def)
  let ?s1 = "unlocked ?l s3"
  have "CoreCheckTimers R s = R (gEfiCurrentTpl s) ?s1"
    using s2 s3(1) CoreReleaseLock_unlocked [OF l3(1), of R] l3(2) by simp
  moreover have "check_frame s ?s1"
    using f3 locks(1) by (auto simp: check_frame_def unlocked_def events_keep_def)
  then have "timers_checked ?T s ?s1"
    using s3(3) eq2 ov by (simp add: timers_checked_def unlocked_def trigger_def)
  moreover have "event_wf ?s1 = event_wf s3" by (rule event_wf_cong) (simp_all add: unlocked_def)
  ultimately show ?thesis using s3(2) by (intro exI [of _ ?s1]) (simp add: check_ready_def event_ready_def unlocked_def)
qed

end

text \<open>A timer that is due again as soon as it is rearmed is never done with.\<close>

definition restless :: "UINT64 \<Rightarrow> 'a EVENT_STATE_scheme \<Rightarrow> ptr \<Rightarrow> bool" where
  "restless T s q \<longleftrightarrow> q \<in> overdue T s \<and> period s q \<noteq> 0 \<and> trigger s q + period s q \<le> T \<and> T + period s q \<le> T"

context lowers
begin

lemma restless_step:
  assumes ready: "check_ready s" and ts: "mEfiTimerList s = p # ps" and q: "restless T s q" and one: "check_one R T p s = Some s1"
  shows "check_ready s1 \<and> restless T s1 q"
proof -
  have wf: "event_wf s" using ready by (simp add: check_ready_def event_ready_def)
  have s1: "check_ready s1" "check_frame s s1" "set (mEfiTimerList s1) = (if period s p = 0 then set ps else insert p (set ps))"
    "\<forall>q. Events s q \<noteq> None \<longrightarrow> trigger s1 q = (if q = p then rearm T (trigger s p) (period s p) else trigger s q)"
    using CheckTimers_step [OF ready ts, of T] one by auto
  have "Events s q \<noteq> None" using q timer_live [OF wf] by (auto simp: restless_def overdue_def)
  then have "trigger s1 q = (if q = p then rearm T (trigger s p) (period s p) else trigger s q)" "period s1 q = period s q"
    using s1(4) check_frame_period [OF s1(2)] by auto
  then show ?thesis using s1(1,3) q ts by (auto simp: restless_def overdue_def rearm_def)
qed

lemma CheckTimersLoop_endless:
  assumes ready: "check_ready s" and q: "restless T s q"
  shows "CheckTimersLoop R T s = None"
proof -
  have "R' = R \<longrightarrow> check_ready s \<longrightarrow> restless T s q \<longrightarrow> False" if "CheckTimersLoop R' T s = Some s'" for R' T s s'
    using that
  proof (induction R' T s s' rule: CheckTimersLoop.raw_induct [rotated, consumes 1])
    case (1 F R' T s s')
    show ?case
    proof (intro impI)
      assume *: "R' = R" "check_ready s" "restless T s q"
      then have wf: "event_wf s" by (simp add: check_ready_def event_ready_def)
      obtain p ps where ts: "mEfiTimerList s = p # ps" "trigger s p \<le> T"
        using overdue_head [OF wf, of q T] *(3) unfolding restless_def by blast
      obtain e where e: "Events s p = Some e" "EventCR p s = Some e" using timer_list_event [OF wf, of p] ts(1) by auto
      have "\<not> T < TriggerTime e" using ts(2) e(1) by (simp add: trigger_def)
      then have "Option.bind (check_one R T p s) (F R T) = Some s'"
        using 1(2) ts(1) e(2) *(1) unfolding check_one_bind by simp
      then obtain s1 where s1: "check_one R T p s = Some s1" "F R T s1 = Some s'" unfolding bind_Some_iff by blast
      show False using 1(1) [OF s1(2)] restless_step [OF *(2) ts(1) *(3) s1(1)] by blast
    qed
  qed
  then show ?thesis using ready q by (cases "CheckTimersLoop R T s") blast+
qed

end

lemma timers_checked_future:
  assumes "event_wf s" and "no_wrap T s" and "timers_checked T s s'"
  shows "overdue T s' = {}"
proof -
  have "T < trigger s' q" if "q \<in> set (mEfiTimerList s')" for q
  proof -
    have q: "q \<in> set (mEfiTimerList s)" "trigger s q \<le> T \<longrightarrow> period s q \<noteq> 0"
      using that assms(3) by (auto simp: timers_checked_def)
    then have "trigger s' q = next_trigger T (trigger s q) (period s q)"
      using assms(3) timer_live [OF assms(1)] by (simp add: timers_checked_def)
    moreover have "T < T + period s q" if "trigger s q \<le> T"
      using q that assms(2) by (intro word_add_larger) (auto simp: no_wrap_def overdue_def)
    ultimately show ?thesis using q(2) by (auto simp: next_trigger_def not_less)
  qed
  then show ?thesis by (auto simp: overdue_def not_le)
qed

lemma timers_checked_queued:
  assumes "timers_checked T s s'" and "q \<in> overdue T s" and "Events s q = Some e" and "signals e" and "SignalCount e = 0"
  shows "NotifyLinked (the (Events s' q))"
proof -
  have "events_keep s s'" using assms(1) by (simp add: timers_checked_def check_frame_def)
  from events_keepD(2) [OF this assms(3)] obtain e' where "Events s' q = Some e'" "keeps e e'" by blast
  moreover have "SignalCount (the (Events s' q)) \<noteq> 0" using assms(1,2) by (simp add: timers_checked_def)
  ultimately show ?thesis using assms(4,5) by (simp add: keeps_def)
qed

section \<open>The timer check\<close>

text \<open>A database with one timer that is due once and one with a period.\<close>

definition witness_timer :: "UINT64 \<Rightarrow> UINT64 \<Rightarrow> IEVENT" where
  "witness_timer t d = ZeroEvent\<lparr>EvSignature := EVENT_SIGNATURE, EvType := EVT_TIMER, TimerLinked := True,
     TriggerTime := t, Period := d\<rparr>"

definition witness_timers :: "UINT64 \<Rightarrow> EFI_TPL \<Rightarrow> ptr list EVENT_STATE_scheme" where
  "witness_timers d t = (witness_events 0 False t)
     \<lparr>Events := (Events (witness_events 0 False t))(103 \<mapsto> witness_timer 5 0, 104 \<mapsto> witness_timer 7 d),
      mEfiTimerList := [103, 104], mEfiSystemTime := 20\<rparr>"

lemma witness_timer_simps [simp]:
  "\<not> signals (witness_timer t d)" "\<not> notifies (witness_timer t d)" "EvSignature (witness_timer t d) = EVENT_SIGNATURE"
  "\<not> NotifyLinked (witness_timer t d)" "\<not> SignalLinked (witness_timer t d)" "\<not> RuntimeLinked (witness_timer t d)"
  "TimerLinked (witness_timer t d)" "TriggerTime (witness_timer t d) = t" "Period (witness_timer t d) = d"
  "SignalCount (witness_timer t d) = 0" "EvType (witness_timer t d) = EVT_TIMER"
  by (simp_all add: witness_timer_def ZeroEvent_def signals_def notifies_def EVT_defs)

lemma witness_timers_wf: "event_wf (witness_timers d t)"
proof -
  let ?s = "witness_timers d t"
  have "links_wf (Events ?s) (\<lambda>e. NotifyLinked e \<and> NotifyTpl e = u) (gEventQueue ?s u)" for u
    by (rule links_wfI) (auto simp: witness_timers_def witness_events_def)
  moreover have "links_wf (Events ?s) TimerLinked [103, 104]" "links_wf (Events ?s) RuntimeLinked []"
    "links_wf (Events ?s) SignalLinked [102, 101, 100]"
    by (rule links_wfI, auto simp: witness_timers_def witness_events_def split: if_splits)+
  ultimately show ?thesis
    by (auto simp: event_wf_defs event_ok_def witness_timers_def witness_events_def EFI_INITIALIZE_LOCK_VARIABLE_def
        split: if_splits)
qed

lemma witness_timers_simps [simp]:
  "mEfiSystemTime (witness_timers d t) = 20" "gEfiCurrentTpl (witness_timers d t) = t"
  "mEfiTimerList (witness_timers d t) = [103, 104]" "Locks (witness_timers d t) = initial_lock"
  "Events (witness_timers d t) 103 = Some (witness_timer 5 0)" "Events (witness_timers d t) 104 = Some (witness_timer 7 d)"
  by (simp_all add: witness_timers_def witness_events_def)

text \<open>
  C5. The timer check ends and handles exactly the expired timers, when no period of an expired timer wraps around the clock:
  each expired event is signalled (and queued, if it is of the signal kind and was not signalled), one-shot timers leave the list,
  periodic ones are rearmed one period after they were due or, when that is past already, one period from now; the other timers keep
  their times, no timer is overdue afterwards and the list is sorted. Called at the level it is notified at it returns.
\<close>

theorem CoreCheckTimers_checks:
  assumes ready: "event_ready s" and locks: "LockState (Locks s mEfiTimerLock) = EfiLockReleased"
      "LockState (Locks s mEfiSystemTimeLock) = EfiLockReleased"
    and tpl: "gEfiCurrentTpl s \<le> TPL_HIGH_LEVEL - 1" and nw: "no_wrap (mEfiSystemTime s) s"
  shows "\<exists>s1. CoreCheckTimers (RestoreTpl Notify (Suc n)) s = RestoreTpl Notify (Suc n) (gEfiCurrentTpl s) s1
    \<and> timers_checked (mEfiSystemTime s) s s1 \<and> overdue (mEfiSystemTime s) s1 = {} \<and> event_wf s1
    \<and> (\<forall>q\<in>overdue (mEfiSystemTime s) s. \<forall>e. Events s q = Some e \<longrightarrow> signals e \<longrightarrow> SignalCount e = 0
          \<longrightarrow> NotifyLinked (the (Events s1 q)))
    \<and> (gEfiCurrentTpl s = TPL_HIGH_LEVEL - 1 \<longrightarrow> (\<exists>s'. CoreCheckTimers (RestoreTpl Notify (Suc n)) s = Some s' \<and> agrees s1 s'))"
proof -
  let ?R = "RestoreTpl Notify (Suc n)" and ?T = "mEfiSystemTime s"
  obtain s1 where s1: "CoreCheckTimers ?R s = ?R (gEfiCurrentTpl s) s1" "timers_checked ?T s s1" "event_wf s1"
    "gEfiCurrentTpl s1 = TPL_HIGH_LEVEL - 1"
    using rt.CoreCheckTimers_checked [OF ready locks tpl nw] by blast
  have "overdue ?T s1 = {}" using timers_checked_future [OF _ nw s1(2)] ready by (simp add: event_ready_def)
  moreover have "?R (gEfiCurrentTpl s) s1 = Some (lowered (gEfiCurrentTpl s) s1)" if "gEfiCurrentTpl s = TPL_HIGH_LEVEL - 1"
    using that wf_none_above [OF s1(3)] s1(4) by (intro rt.quiet_law) simp_all
  ultimately show ?thesis using s1 timers_checked_queued [OF s1(2)] agrees_lowered [OF agrees_refl, of s1]
    by (intro exI [of _ s1]) (auto simp del: RestoreTpl.simps)
qed

theorem CoreCheckTimers_checks_witness:
  "\<exists>s1. CoreCheckTimers (RestoreTpl witness_notify 1) (witness_timers 10 30) = RestoreTpl witness_notify 1 30 s1
     \<and> set (mEfiTimerList s1) = {104} \<and> trigger s1 104 = 30 \<and> SignalCount (the (Events s1 103)) \<noteq> 0"
proof -
  let ?s = "witness_timers 10 30"
  have s: "event_ready ?s" "LockState (Locks ?s mEfiTimerLock) = EfiLockReleased" "gEfiCurrentTpl ?s \<le> TPL_HIGH_LEVEL - 1"
    "LockState (Locks ?s mEfiSystemTimeLock) = EfiLockReleased" "no_wrap (mEfiSystemTime ?s) ?s"
    using witness_timers_wf [of 10 30]
    by (simp_all add: event_ready_def EFI_INITIALIZE_LOCK_VARIABLE_def) (auto simp: no_wrap_def overdue_def period_def)
  have "trigger ?s 103 = 5" "trigger ?s 104 = 7" "period ?s 103 = 0" "period ?s 104 = 10"
    by (simp_all add: trigger_def period_def)
  moreover obtain s1 where "CoreCheckTimers (RestoreTpl witness_notify (Suc 0)) ?s = RestoreTpl witness_notify (Suc 0) 30 s1"
    "timers_checked 20 ?s s1"
    using CoreCheckTimers_checks [OF s(1,2,4,3,5), of witness_notify 0] by auto
  moreover have "{q \<in> {103, 104}. trigger ?s q \<le> 20 \<longrightarrow> period ?s q \<noteq> 0} = {104}" using calculation(1-4) by auto
  ultimately show ?thesis unfolding One_nat_def
    by (intro exI [of _ s1]) (simp add: timers_checked_def overdue_def next_trigger_def)
qed

text \<open>
  C34. The timer check never returns when the list holds an expired periodic timer whose period, added to its trigger time and added
  to the current time, wraps around to a time that is not after the current time: the timer is rearmed for now in every round.
\<close>

theorem CoreCheckTimers_hangs:
  assumes ready: "event_ready s" and locks: "LockState (Locks s mEfiTimerLock) = EfiLockReleased"
      "LockState (Locks s mEfiSystemTimeLock) = EfiLockReleased"
    and tpl: "gEfiCurrentTpl s \<le> TPL_HIGH_LEVEL - 1" and q: "restless (mEfiSystemTime s) s q"
  shows "CoreCheckTimers (RestoreTpl Notify (Suc n)) s = None"
proof -
  let ?R = "RestoreTpl Notify (Suc n)" and ?T = "mEfiSystemTime s"
  obtain s2 where s2: "CoreCheckTimers ?R s = Option.bind (CheckTimersLoop ?R ?T s2) (CoreReleaseLock ?R mEfiTimerLock)"
    "check_ready s2" "mEfiTimerList s2 = mEfiTimerList s" "trigger s2 = trigger s" "period s2 = period s"
    using rt.CoreCheckTimers_enter [OF ready locks tpl] by blast
  have "restless ?T s2 q" using q s2(3-5) by (simp add: restless_def overdue_def)
  then show ?thesis using rt.CheckTimersLoop_endless [OF s2(2)] s2(1) by simp
qed

theorem CoreCheckTimers_hangs_witness:
  "CoreCheckTimers (RestoreTpl witness_notify 1) (witness_timers 0xFFFFFFFFFFFFFFFF 30) = None"
proof -
  let ?s = "witness_timers 0xFFFFFFFFFFFFFFFF 30"
  have s: "event_ready ?s" "LockState (Locks ?s mEfiTimerLock) = EfiLockReleased" "gEfiCurrentTpl ?s \<le> TPL_HIGH_LEVEL - 1"
    "LockState (Locks ?s mEfiSystemTimeLock) = EfiLockReleased"
    using witness_timers_wf by (simp_all add: event_ready_def EFI_INITIALIZE_LOCK_VARIABLE_def)
  have "restless (mEfiSystemTime ?s) ?s 104" by (simp add: restless_def overdue_def trigger_def period_def)
  then show ?thesis using CoreCheckTimers_hangs [OF s(1,2,4,3), of 104 witness_notify 0] by simp
qed

end
