(* ===== verification/Timer_Set.thy ===== *)
theory Timer_Set
  imports Timer_Properties
begin

unbundle bit_operations_syntax

text \<open>
  Arming and cancelling a timer with \<open>CoreSetTimer\<close>.
\<close>

section \<open>Arming a timer\<close>

text \<open>The same event database: all but the level, the locks and the interrupt flag.\<close>

definition same_events :: "'a EVENT_STATE_scheme \<Rightarrow> 'a EVENT_STATE_scheme \<Rightarrow> bool" where
  "same_events s s' \<longleftrightarrow> Events s' = Events s \<and> gEventQueue s' = gEventQueue s \<and> gEventPending s' = gEventPending s
     \<and> gEventSignalQueue s' = gEventSignalQueue s \<and> RuntimeEventHead s' = RuntimeEventHead s
     \<and> mEfiTimerList s' = mEfiTimerList s \<and> mEfiCheckTimerEvent s' = mEfiCheckTimerEvent s
     \<and> mEfiSystemTime s' = mEfiSystemTime s \<and> gTimer s' = gTimer s \<and> Pool s' = Pool s \<and> EVENT_STATE.more s' = EVENT_STATE.more s"

lemma same_events_trans: "same_events s s1 \<Longrightarrow> same_events s1 s2 \<Longrightarrow> same_events s s2"
  by (simp add: same_events_def)

lemma agrees_same: "agrees s s' \<Longrightarrow> same_events s s'"
  by (simp add: agrees_def dispatch_frame_def same_events_def)

lemma same_events_notified: "same_events s s' \<Longrightarrow> same_events (notified p s) (notified p s')"
  by (simp add: same_events_def notified_def Let_def)

lemma same_events_fold: "same_events s s' \<Longrightarrow> same_events (fold notified ps s) (fold notified ps s')"
  by (induction ps arbitrary: s s') (simp_all add: same_events_notified)

lemma same_events_put: "same_events s s' \<Longrightarrow> same_events (PutEvent p f s) (PutEvent p f s')"
  by (simp add: same_events_def PutEvent_def)

lemma same_events_signalled: "same_events s s' \<Longrightarrow> same_events (signalled p s) (signalled p s')"
proof -
  assume s: "same_events s s'"
  then have "Events s' = Events s" "gEventSignalQueue s' = gEventSignalQueue s" by (simp_all add: same_events_def)
  then show ?thesis
    unfolding signalled_def Let_def group_members_def
    using s by (simp add: same_events_put same_events_notified same_events_fold)
qed

lemma same_events_timed: "same_events s s' \<Longrightarrow> same_events (timed p s) (timed p s')"
  by (simp add: same_events_def timed_def trigger_def [abs_def])

lemma same_events_untimed: "same_events s s' \<Longrightarrow> same_events (untimed p s) (untimed p s')"
  by (simp add: same_events_def untimed_def)

lemmas same_events_ops = same_events_put same_events_signalled same_events_timed same_events_untimed

text \<open>The lock of the timer list is held, taken at level \<open>t\<close>.\<close>

definition timer_held :: "EFI_TPL \<Rightarrow> 'a EVENT_STATE_scheme \<Rightarrow> bool" where
  "timer_held t s \<longleftrightarrow> check_ready s \<and> OwnerTpl (Locks s mEfiTimerLock) = t"

lemma timer_held_wf:
  "timer_held t s \<Longrightarrow> event_wf s' \<Longrightarrow> Locks s' = Locks s \<Longrightarrow> gEfiCurrentTpl s' = gEfiCurrentTpl s \<Longrightarrow> timer_held t s'"
  by (simp add: timer_held_def check_ready_def event_ready_def)

lemma timer_held_agrees: "timer_held t s \<Longrightarrow> agrees s s' \<Longrightarrow> gEfiCurrentTpl s' = gEfiCurrentTpl s \<Longrightarrow> timer_held t s'"
  using agrees_wf [of s s'] by (simp add: timer_held_def check_ready_def event_ready_def) (simp add: agrees_def dispatch_frame_def)

definition set_times :: "ptr \<Rightarrow> UINT64 \<Rightarrow> UINT64 \<Rightarrow> 'a EVENT_STATE_scheme \<Rightarrow> 'a EVENT_STATE_scheme" where
  "set_times p t d s = PutEvent p (\<lambda>e. e\<lparr>TriggerTime := t, Period := d\<rparr>) s"

lemma set_times_held:
  assumes held: "timer_held u s" and e: "Events s p = Some e" "\<not> TimerLinked e"
  shows "timer_held u (set_times p t d s)"
proof -
  have "event_wf s" using held by (simp add: timer_held_def check_ready_def event_ready_def)
  then have "event_wf (set_times p t d s)"
    using event_wf_update [of s p e "e\<lparr>TriggerTime := t, Period := d\<rparr>"] e by (simp add: set_times_def PutEvent_def)
  then show ?thesis by (rule timer_held_wf [OF held]) (simp_all add: set_times_def)
qed

text \<open>What \<open>CoreSetTimer\<close> makes of the event database.\<close>

definition armed :: "ptr \<Rightarrow> UINT32 \<Rightarrow> UINT64 \<Rightarrow> 'a EVENT_STATE_scheme \<Rightarrow> 'a EVENT_STATE_scheme" where
  "armed p Type d s =
     (if Type = TimerCancel then set_times p 0 0 (untimed p s)
      else let s1 = timed p (set_times p (mEfiSystemTime s + d) (if Type = TimerPeriodic then d else 0) (untimed p s))
        in if d = 0 then signalled (mEfiCheckTimerEvent s) s1 else s1)"

lemma same_events_armed: "same_events s s' \<Longrightarrow> same_events (armed p Type d s) (armed p Type d s')"
proof -
  assume s: "same_events s s'"
  then have "mEfiSystemTime s' = mEfiSystemTime s" "mEfiCheckTimerEvent s' = mEfiCheckTimerEvent s" by (simp_all add: same_events_def)
  then show ?thesis unfolding armed_def Let_def set_times_def using s by (simp add: same_events_ops)
qed

lemma untimed_idle:
  assumes "event_wf s" and "Events s p = Some e" and "\<not> TimerLinked e"
  shows "untimed p s = s"
proof -
  have "e\<lparr>TimerLinked := False\<rparr> = e" using assms(3) by simp
  then have "(Events s)(p := map_option (TimerLinked_update (\<lambda>_. False)) (Events s p)) = Events s" using assms(2) by auto
  moreover have "remove1 p (mEfiTimerList s) = mEfiTimerList s"
    using timer_event [OF assms(1,2)] assms(3) by (simp add: remove1_idem)
  ultimately show ?thesis by (simp add: untimed_def)
qed

lemma timer_heldD:
  assumes "timer_held t s"
  shows "event_wf s" "event_ready s" "check_ready s" "gEfiCurrentTpl s = TPL_HIGH_LEVEL - 1"
    "LockState (Locks s mEfiTimerLock) = EfiLockAcquired" "OwnerTpl (Locks s mEfiTimerLock) = t"
  using assms by (simp_all add: timer_held_def check_ready_def event_ready_def)

lemma untimed_held:
  assumes held: "timer_held t s" and e: "Events s p = Some e"
  shows "timer_held t (untimed p s)"
  using timer_held_wf [OF held event_wf_untimed [OF timer_heldD(1) [OF held] e]] by (simp add: untimed_def)

context lowers
begin

lemma arm_held:
  assumes held: "timer_held u s" and sys: "LockState (Locks s mEfiSystemTimeLock) = EfiLockReleased"
    and e: "Events s p = Some e" "\<not> TimerLinked e"
  shows "\<exists>s1 s2. CoreCurrentSystemTime R s = Some (mEfiSystemTime s, s1)
    \<and> CoreInsertEventTimer p (PutEvent p (TriggerTime_update (\<lambda>_. mEfiSystemTime s + d)) s1) = Some s2
    \<and> same_events (timed p (PutEvent p (TriggerTime_update (\<lambda>_. mEfiSystemTime s + d)) s)) s2 \<and> timer_held u s2
    \<and> (\<forall>l. LockState (Locks s2 l) = LockState (Locks s l))"
proof -
  note h = timer_heldD [OF held]
  let ?put = "PutEvent p (TriggerTime_update (\<lambda>_. mEfiSystemTime s + d))"
  have "none_above (gEfiCurrentTpl s) s" using wf_none_above [OF h(1)] h(4) by simp
  then obtain s1 where s1: "CoreCurrentSystemTime R s = Some (mEfiSystemTime s, s1)" "agrees s s1" "gEfiCurrentTpl s1 = gEfiCurrentTpl s"
    using CoreCurrentSystemTime_quiet [OF h(1) sys] h(4) by auto
  have h1: "timer_held u s1" by (rule timer_held_agrees [OF held s1(2,3)])
  have e1: "Events s1 p = Some e" using s1(2) e(1) by (simp add: agrees_def)
  have st: "event_wf (?put s1)" "Events (?put s1) p = Some (e\<lparr>TriggerTime := mEfiSystemTime s + d\<rparr>)"
    using set_trigger(1,2) [OF timer_heldD(1) [OF h1] e1 e(2)] by blast+
  have hp: "timer_held u (?put s1)" by (rule timer_held_wf [OF h1 st(1)]) simp_all
  have ins: "CoreInsertEventTimer p (?put s1) = Some (timed p (?put s1))"
    by (rule CoreInsertEventTimer_eq [OF st timer_heldD(5) [OF hp]])
  have "event_wf (timed p (?put s1))" by (rule event_wf_timed [OF st]) (simp add: e(2))
  then have "timer_held u (timed p (?put s1))" by (rule timer_held_wf [OF hp]) (simp_all add: timed_def)
  moreover have "LockState (Locks (timed p (?put s1)) l) = LockState (Locks s l)" for l
    using s1(2) by (simp add: timed_def agrees_def dispatch_frame_def)
  ultimately show ?thesis using s1(1) ins agrees_same [OF s1(2)] same_events_ops by blast
qed

lemma signal_held:
  assumes held: "timer_held u s" and e: "Events s p = Some e"
  shows "\<exists>s'. CoreSignalEvent R p s = Some (EFI_SUCCESS, s') \<and> same_events (signalled p s) s' \<and> timer_held u s'
    \<and> (\<forall>l. LockState (Locks s' l) = LockState (Locks s l))"
proof -
  note h = timer_heldD [OF held]
  from signal_checked [OF h(3) e] obtain s' where s': "CoreSignalEvent R p s = Some (EFI_SUCCESS, s')" "agrees (signalled p s) s'"
    "check_ready s'" "check_frame s s'" by blast
  then show ?thesis using agrees_same [OF s'(2)] h by (auto simp: timer_held_def check_frame_def)
qed

end

lemma set_times_trigger:
  "PutEvent p (TriggerTime_update (\<lambda>_. x)) (set_times p t d s) = set_times p x d s"
proof -
  have "e\<lparr>Period := d, TriggerTime := x\<rparr> = e\<lparr>TriggerTime := x, Period := d\<rparr>" for e :: IEVENT by simp
  note swap = this
  show ?thesis by (cases "Events s p") (simp_all add: set_times_def PutEvent_def swap)
qed

lemma set_times_period:
  "PutEvent p (Period_update (\<lambda>_. x)) (set_times p t d s) = set_times p t x s"
  by (cases "Events s p") (simp_all add: set_times_def PutEvent_def)

lemma set_times_simps [simp]:
  "Locks (set_times p t d s) = Locks s" "mEfiSystemTime (set_times p t d s) = mEfiSystemTime s"
  "mEfiCheckTimerEvent (set_times p t d s) = mEfiCheckTimerEvent s" "gTimer (set_times p t d s) = gTimer s"
  "mEfiTimerList (set_times p t d s) = mEfiTimerList s" "gEfiCurrentTpl (set_times p t d s) = gEfiCurrentTpl s"
  by (simp_all add: set_times_def)

lemma untimed_simps [simp]:
  "Locks (untimed p s) = Locks s" "mEfiSystemTime (untimed p s) = mEfiSystemTime s"
  "mEfiCheckTimerEvent (untimed p s) = mEfiCheckTimerEvent s" "gTimer (untimed p s) = gTimer s"
  by (simp_all add: untimed_def)

context lowers
begin

text \<open>The part of \<open>CoreSetTimer\<close> that arms the timer.\<close>

lemma arm_and_signal:
  assumes held: "timer_held u (set_times p 0 x s)" and sys: "LockState (Locks s mEfiSystemTimeLock) = EfiLockReleased"
    and e: "Events s p = Some e" "\<not> TimerLinked e"
  shows "\<exists>z. do {
        (SystemTime, s) \<leftarrow> CoreCurrentSystemTime R (set_times p 0 x s);
        s \<leftarrow> CoreInsertEventTimer p (PutEvent p (TriggerTime_update (\<lambda>_. SystemTime + d)) s);
        if d = 0 then do { (Status, s) \<leftarrow> CoreSignalEvent R (mEfiCheckTimerEvent s) s; Some s } else Some s
      } = Some z \<and> timer_held u z
    \<and> same_events (let s1 = timed p (set_times p (mEfiSystemTime s + d) x s)
        in if d = 0 then signalled (mEfiCheckTimerEvent s) s1 else s1) z
    \<and> (\<forall>l. LockState (Locks z l) = LockState (Locks s l))"
proof -
  have ez: "Events (set_times p 0 x s) p = Some (e\<lparr>TriggerTime := 0, Period := x\<rparr>)" using e(1) by (simp add: set_times_def)
  have nl: "\<not> TimerLinked (e\<lparr>TriggerTime := 0, Period := x\<rparr>)" using e(2) by simp
  have sl: "LockState (Locks (set_times p 0 x s) mEfiSystemTimeLock) = EfiLockReleased" using sys by simp
  from arm_held [OF held sl ez nl, of d] obtain s1 s2 where
    s12: "CoreCurrentSystemTime R (set_times p 0 x s) = Some (mEfiSystemTime s, s1)"
      "CoreInsertEventTimer p (PutEvent p (TriggerTime_update (\<lambda>_. mEfiSystemTime s + d)) s1) = Some s2"
      "same_events (timed p (set_times p (mEfiSystemTime s + d) x s)) s2" "timer_held u s2"
      "\<forall>l. LockState (Locks s2 l) = LockState (Locks s l)" by (auto simp: set_times_trigger)
  show ?thesis
  proof (cases "d = 0")
    case True
    have ct: "mEfiCheckTimerEvent s2 = mEfiCheckTimerEvent s" using s12(3) by (simp add: same_events_def timed_def)
    obtain ec where ec: "Events s2 (mEfiCheckTimerEvent s2) = Some ec"
      using timer_heldD(1) [OF s12(4)] by (auto simp: event_wf_def check_timer_wf_def)
    from signal_held [OF s12(4) ec] obtain s3 where s3: "CoreSignalEvent R (mEfiCheckTimerEvent s2) s2 = Some (EFI_SUCCESS, s3)"
      "same_events (signalled (mEfiCheckTimerEvent s2) s2) s3" "timer_held u s3"
      "\<forall>l. LockState (Locks s3 l) = LockState (Locks s2 l)" by blast
    then show ?thesis
      using s12 same_events_trans [OF same_events_signalled [OF s12(3)] s3(2) [unfolded ct]] True
      by (intro exI [of _ s3]) simp
  next
    case False
    then show ?thesis using s12 by (intro exI [of _ s2]) simp
  qed
qed

lemma CoreSetTimer_armed:
  assumes ready: "event_ready s" and locks: "LockState (Locks s mEfiTimerLock) = EfiLockReleased"
      "LockState (Locks s mEfiSystemTimeLock) = EfiLockReleased"
    and tpl: "gEfiCurrentTpl s \<le> TPL_HIGH_LEVEL - 1"
    and e: "Events s p = Some e" "EvType e AND EVT_TIMER \<noteq> 0" and type: "Type \<le> TimerRelative"
    and d: "(if Type = TimerPeriodic \<and> Time = 0 then gTimer s else Some Time) = Some d"
  shows "\<exists>s1. CoreSetTimer R p Type Time s = map_option (Pair EFI_SUCCESS) (R (gEfiCurrentTpl s) s1)
    \<and> same_events (armed p Type d s) s1 \<and> event_wf s1 \<and> gEfiCurrentTpl s1 = TPL_HIGH_LEVEL - 1
    \<and> (\<forall>l. LockState (Locks s1 l) = LockState (Locks s l))"
proof -
  let ?l = mEfiTimerLock and ?t = "gEfiCurrentTpl s"
  let ?a = "acquired ?l s"
  have wf: "event_wf s" using ready by (simp add: event_ready_def)
  note ev = event_wf_event [OF wf e(1)]
  have lt: "LockTpl (Locks s ?l) = TPL_HIGH_LEVEL - 1" using wf by (simp add: event_wf_def event_locks_wf_def)
  have free: "lock_free ?l s" using locks tpl lt by (simp add: lock_free_def)
  have ha: "timer_held ?t ?a" using ready lt by (simp add: timer_held_def check_ready_def event_ready_def)
  have ea: "Events ?a p = Some e" using e(1) by simp
  let ?u = "untimed p ?a" and ?x = "if Type = TimerPeriodic then d else 0"
  have rem: "(if TimerLinked e then RemoveTimerLink p ?a else Some ?a) = Some ?u"
    using RemoveTimerLink_eq [of ?a p e] untimed_idle [of ?a p e] wf ea by simp
  have hu: "timer_held ?t ?u" by (rule untimed_held [OF ha ea])
  have eu: "Events ?u p = Some (e\<lparr>TimerLinked := False\<rparr>)" using ea by (simp add: untimed_def)
  have hz: "timer_held ?t (set_times p 0 y ?u)" for y by (rule set_times_held [OF hu eu]) simp
  let ?rest = "\<lambda>y. do {
        (SystemTime, s) \<leftarrow> CoreCurrentSystemTime R (set_times p 0 y ?u);
        s \<leftarrow> CoreInsertEventTimer p (PutEvent p (TriggerTime_update (\<lambda>_. SystemTime + d)) s);
        if d = 0 then do { (Status, s) \<leftarrow> CoreSignalEvent R (mEfiCheckTimerEvent s) s; Some s } else Some s }"
  obtain z where z: "(if Type \<noteq> TimerCancel then ?rest ?x else Some (set_times p 0 0 ?u)) = Some z"
    and held: "timer_held ?t z" and same: "same_events (armed p Type d ?a) z" and lz: "\<forall>k. LockState (Locks z k) = LockState (Locks ?a k)"
  proof (cases "Type = TimerCancel")
    case True
    then show ?thesis using that [of "set_times p 0 0 ?u"] hz by (simp add: armed_def same_events_def)
  next
    case False
    have "LockState (Locks ?u mEfiSystemTimeLock) = EfiLockReleased" using locks by simp
    moreover have "armed p Type d ?a = (let s1 = timed p (set_times p (mEfiSystemTime ?u + d) ?x ?u)
        in if d = 0 then signalled (mEfiCheckTimerEvent ?u) s1 else s1)"
      using False by (simp add: armed_def Let_def)
    ultimately have "\<exists>z. ?rest ?x = Some z \<and> timer_held ?t z \<and> same_events (armed p Type d ?a) z
        \<and> (\<forall>l. LockState (Locks z l) = LockState (Locks ?u l))"
      using arm_and_signal [OF hz _ eu, of ?x d] by simp
    then show ?thesis using that False by auto
  qed
  let ?F = "\<lambda>s. Option.bind (CoreReleaseLock R ?l s) (\<lambda>s. Some (EFI_SUCCESS, s))"
  have "CoreSetTimer R p Type Time s = ?F z"
  proof -
    have put: "PutEvent p (\<lambda>e. e\<lparr>TriggerTime := 0, Period := 0\<rparr>) ?u = set_times p 0 0 ?u" by (simp add: set_times_def)
    have le: "\<not> Type > TimerRelative" using type by simp
    have fin: "Option.bind (if Type \<noteq> TimerCancel then ?rest ?x else Some (set_times p 0 0 ?u)) ?F = ?F z" using z by simp
    note defs = CoreSetTimer_def CoreAcquireLock_eq Let_def rem put set_times_period
    consider "Type = TimerCancel" | "Type = TimerPeriodic" "Time = 0" "gTimer s = Some d"
      | "Type = TimerPeriodic" "Time \<noteq> 0" "Time = d" | "Type \<noteq> TimerCancel" "Type \<noteq> TimerPeriodic" "Time = d"
      using d by (auto split: if_splits)
    then show ?thesis using ev(2,3) e free fin le by cases (simp_all add: defs)
  qed
  also have "\<dots> = map_option (Pair EFI_SUCCESS) (R ?t (unlocked ?l z))"
    using CoreReleaseLock_unlocked [OF timer_heldD(5) [OF held], of R] timer_heldD(6) [OF held] by (simp add: map_conv_bind_option comp_def)
  finally have "CoreSetTimer R p Type Time s = map_option (Pair EFI_SUCCESS) (R ?t (unlocked ?l z))" .
  moreover have "same_events s ?a" "same_events z (unlocked ?l z)" by (simp_all add: same_events_def unlocked_def)
  then have "same_events (armed p Type d s) (unlocked ?l z)"
    using same_events_armed same same_events_trans by blast
  moreover have "event_wf (unlocked ?l z) = event_wf z" by (rule event_wf_cong) (simp_all add: unlocked_def)
  moreover have "LockState (Locks (unlocked ?l z) k) = LockState (Locks s k)" for k
    using lz locks(1) by (simp add: unlocked_def)
  ultimately show ?thesis using timer_heldD(1,4) [OF held] by (intro exI [of _ "unlocked ?l z"]) (simp add: unlocked_def)
qed

end

lemma filter_place: "filter (\<lambda>q. q \<noteq> x) (place f k x xs) = filter (\<lambda>q. q \<noteq> x) xs"
proof -
  have "filter P (takeWhile Q xs) @ filter P (dropWhile Q xs) = filter P xs" for P Q
    by (metis filter_append takeWhile_dropWhile_id)
  then show ?thesis by (simp add: place_def)
qed

lemma signalled_period:
  assumes "event_wf s" and "Events s q \<noteq> None"
  shows "period (signalled p s) q = period s q"
  using assms signalled_event [OF assms(1), of q _ p] by (fastforce simp: period_def)

lemma armed_facts:
  assumes wf: "event_wf s" and e: "Events s p = Some e"
  shows "filter (\<lambda>q. q \<noteq> p) (mEfiTimerList (armed p Type d s)) = filter (\<lambda>q. q \<noteq> p) (mEfiTimerList s)"
    and "p \<in> set (mEfiTimerList (armed p Type d s)) \<longleftrightarrow> Type \<noteq> TimerCancel"
    and "trigger (armed p Type d s) p = (if Type = TimerCancel then 0 else mEfiSystemTime s + d)"
    and "period (armed p Type d s) p = (if Type = TimerPeriodic then d else 0)"
    and "q \<noteq> p \<Longrightarrow> Events s q \<noteq> None \<Longrightarrow> trigger (armed p Type d s) q = trigger s q \<and> period (armed p Type d s) q = period s q"
proof -
  let ?x = "if Type = TimerPeriodic then d else 0"
  have rem: "remove1 p (mEfiTimerList s) = filter (\<lambda>q. q \<noteq> p) (mEfiTimerList s)"
    by (rule remove1_filter [OF links_wfD(1) [OF event_wf_links(2) [OF wf]]])
  have ev: "Events (timed p (set_times p t x (untimed p s))) = (Events s)(p \<mapsto> e\<lparr>TriggerTime := t, Period := x, TimerLinked := True\<rparr>)" for t x
    using e by (simp add: timed_def set_times_def untimed_def)
  have wfu: "event_wf (untimed p s)" "Events (untimed p s) p = Some (e\<lparr>TimerLinked := False\<rparr>)"
    using event_wf_untimed [OF wf e] e by (simp_all add: untimed_def)
  have "event_wf (set_times p t x (untimed p s))" for t x
    using event_wf_update [OF wfu, of "e\<lparr>TimerLinked := False, TriggerTime := t, Period := x\<rparr>"] wfu(2)
    by (simp add: set_times_def PutEvent_def)
  then have wft: "event_wf (timed p (set_times p t x (untimed p s)))" for t x
    by (rule event_wf_timed [where e = "e\<lparr>TimerLinked := False, TriggerTime := t, Period := x\<rparr>"])
      (simp_all add: set_times_def wfu(2))
  have sig: "trigger (signalled c (timed p (set_times p t x (untimed p s)))) q = trigger (timed p (set_times p t x (untimed p s))) q"
    "period (signalled c (timed p (set_times p t x (untimed p s)))) q = period (timed p (set_times p t x (untimed p s))) q"
    if "Events s q \<noteq> None" for c t x q
  proof -
    have live: "Events (timed p (set_times p t x (untimed p s))) q \<noteq> None" using that by (auto simp: ev)
    show "trigger (signalled c (timed p (set_times p t x (untimed p s)))) q = trigger (timed p (set_times p t x (untimed p s))) q"
      by (rule signalled_trigger [OF wft live])
    show "period (signalled c (timed p (set_times p t x (untimed p s)))) q = period (timed p (set_times p t x (untimed p s))) q"
      by (rule signalled_period [OF wft live])
  qed
  show "filter (\<lambda>q. q \<noteq> p) (mEfiTimerList (armed p Type d s)) = filter (\<lambda>q. q \<noteq> p) (mEfiTimerList s)"
    "p \<in> set (mEfiTimerList (armed p Type d s)) \<longleftrightarrow> Type \<noteq> TimerCancel"
    by (auto simp: armed_def Let_def timed_def untimed_def rem filter_place)
  show "trigger (armed p Type d s) p = (if Type = TimerCancel then 0 else mEfiSystemTime s + d)"
    "period (armed p Type d s) p = (if Type = TimerPeriodic then d else 0)"
    using sig [of p] e
    by (auto simp: armed_def Let_def ev trigger_def period_def) (simp_all add: set_times_def untimed_def)
  show "trigger (armed p Type d s) q = trigger s q \<and> period (armed p Type d s) q = period s q" if "q \<noteq> p" "Events s q \<noteq> None"
    using sig [of q] that
    by (auto simp: armed_def Let_def ev trigger_def period_def) (simp_all add: set_times_def untimed_def)
qed

text \<open>The delay a request stands for, \<open>hw\<close> being the period of the hardware timer.\<close>

definition timer_delay :: "UINT32 \<Rightarrow> UINT64 \<Rightarrow> UINT64 \<Rightarrow> UINT64" where
  "timer_delay Type Time hw = (if Type = TimerPeriodic \<and> Time = 0 then hw else Time)"



end
