(* ===== verification/Timer_Tick.thy ===== *)
theory Timer_Tick
  imports Timer_Set
begin

unbundle bit_operations_syntax

text \<open>
  The tick of the clock, from \<open>CoreTimerTick\<close> through the notification of the timer check and the check itself to the
  notifications of the timer events.
\<close>

section \<open>The tick itself\<close>

definition ticked :: "UINT64 \<Rightarrow> 'a EVENT_STATE_scheme \<Rightarrow> 'a EVENT_STATE_scheme" where
  "ticked D s = (let s1 = s\<lparr>mEfiSystemTime := mEfiSystemTime s + D\<rparr> in
     if overdue (mEfiSystemTime s + D) s = {} then s1 else signalled (mEfiCheckTimerEvent s) s1)"

lemma overdue_hd:
  assumes "event_wf s"
  shows "overdue T s \<noteq> {} \<longleftrightarrow> mEfiTimerList s \<noteq> [] \<and> trigger s (hd (mEfiTimerList s)) \<le> T"
proof
  assume "overdue T s \<noteq> {}"
  then show "mEfiTimerList s \<noteq> [] \<and> trigger s (hd (mEfiTimerList s)) \<le> T" using overdue_head [OF assms] by fastforce
qed (use hd_in_set in \<open>fastforce simp: overdue_def\<close>)

lemma check_event:
  assumes "event_wf s"
  obtains e where "Events s (mEfiCheckTimerEvent s) = Some e" "signals e" "\<not> grouped e"
    "NotifyTpl e = TPL_HIGH_LEVEL - 1" "NotifyFunction e = pCoreCheckTimers"
  using assms by (auto simp: event_wf_def check_timer_wf_def signals_def grouped_def EVT_defs)

lemma signalled_acquired: "signalled p (acquired l s) = acquired l (signalled p s)"
proof -
  have n: "notified q (acquired l s) = acquired l (notified q s)" for q and s :: "'a EVENT_STATE_scheme"
    by (simp add: notified_def acquired_def Let_def)
  have "fold notified qs (acquired l s) = acquired l (fold notified qs s)" for qs and s :: "'a EVENT_STATE_scheme"
    by (induction qs arbitrary: s) (simp_all add: n)
  moreover have "PutEvent q f (acquired l s) = acquired l (PutEvent q f s)" for q f
    by (simp add: PutEvent_def acquired_def)
  moreover have "Events (acquired l s) = Events s" "gEventSignalQueue (acquired l s) = gEventSignalQueue s"
    by (simp_all add: acquired_def)
  ultimately show ?thesis using n by (simp add: signalled_def Let_def group_members_def)
qed

definition tick_check :: "'a restore \<Rightarrow> 'a EVENT_STATE_scheme \<Rightarrow> 'a EVENT_STATE_scheme option" where
  "tick_check R s = (case mEfiTimerList s of [] \<Rightarrow> Some s
     | Event # _ \<Rightarrow> Option.bind (EventCR Event s) (\<lambda>e. if TriggerTime e \<le> mEfiSystemTime s
         then Option.bind (CoreSignalEvent R (mEfiCheckTimerEvent s) s) (\<lambda>(Status, s). Some s) else Some s))"

lemma CoreTimerTick_check:
  "CoreTimerTick R D s = Option.bind (CoreAcquireLock mEfiSystemTimeLock s) (\<lambda>s.
     Option.bind (tick_check R (s\<lparr>mEfiSystemTime := mEfiSystemTime s + D\<rparr>)) (CoreReleaseLock R mEfiSystemTimeLock))"
  by (simp add: CoreTimerTick_def tick_check_def Let_def)

text \<open>Under the lock of the clock: the level is the highest one, so signalling returns at once.\<close>

context lowers
begin

lemma tick_signal:
  assumes ready: "event_ready s" and tpl: "gEfiCurrentTpl s = TPL_HIGH_LEVEL"
    and T: "mEfiSystemTime s = T"
  shows "\<exists>s1. tick_check R s = Some s1
    \<and> agrees (if overdue T s = {} then s else signalled (mEfiCheckTimerEvent s) s) s1 \<and> gEfiCurrentTpl s1 = TPL_HIGH_LEVEL"
proof -
  have wf: "event_wf s" using ready by (simp add: event_ready_def)
  obtain e where e: "Events s (mEfiCheckTimerEvent s) = Some e" using check_event [OF wf] by blast
  have "none_above (gEfiCurrentTpl s) (signalled (mEfiCheckTimerEvent s) s)"
    using wf_none_above [OF event_wf_signalled [OF wf e]] tpl by (simp add: none_above_def)
  then obtain s1 where s1: "CoreSignalEvent R (mEfiCheckTimerEvent s) s = Some (EFI_SUCCESS, s1)"
    "agrees (signalled (mEfiCheckTimerEvent s) s) s1" "gEfiCurrentTpl s1 = gEfiCurrentTpl s"
    using CoreSignalEvent_quiet [OF ready e] by blast
  show ?thesis
  proof (cases "mEfiTimerList s")
    case Nil
    then show ?thesis using tpl by (simp add: overdue_def agrees_refl tick_check_def)
  next
    case (Cons p ps)
    then obtain f where "Events s p = Some f" "EventCR p s = Some f" using timer_list_event [OF wf, of p] by auto
    then show ?thesis using Cons s1 tpl T overdue_hd [OF wf, of T] by (auto simp: trigger_def agrees_refl tick_check_def)
  qed
qed

lemma CoreTimerTick_ticked:
  assumes ready: "event_ready s" and lock: "LockState (Locks s mEfiSystemTimeLock) = EfiLockReleased"
  shows "\<exists>s1. CoreTimerTick R D s = R (gEfiCurrentTpl s) s1 \<and> agrees (ticked D s) s1 \<and> gEfiCurrentTpl s1 = TPL_HIGH_LEVEL
    \<and> event_wf s1"
proof -
  let ?l = mEfiSystemTimeLock and ?T = "mEfiSystemTime s + D"
  let ?u = "s\<lparr>mEfiSystemTime := ?T\<rparr>"
  let ?a = "acquired ?l ?u"
  have wf: "event_wf s" using ready by (simp add: event_ready_def)
  have lt: "LockTpl (Locks s ?l) = TPL_HIGH_LEVEL" using wf by (simp add: event_wf_def event_locks_wf_def)
  have free: "lock_free ?l s" using lock ready lt by (simp add: lock_free_def event_ready_def)
  have wfu: "event_wf ?u = event_wf s" by (rule event_wf_cong) simp_all
  have "event_ready ?a" using ready wfu lt by (simp add: event_ready_def)
  moreover have "overdue ?T ?a = overdue ?T s" "mEfiCheckTimerEvent ?a = mEfiCheckTimerEvent s"
    "mEfiSystemTime ?a = ?T" "gEfiCurrentTpl ?a = TPL_HIGH_LEVEL"
    using lt by (simp_all add: overdue_def trigger_def [abs_def] acquired_def)
  ultimately obtain s1 where s1: "tick_check R ?a = Some s1"
    "agrees (if overdue ?T s = {} then ?a else signalled (mEfiCheckTimerEvent s) ?a) s1" "gEfiCurrentTpl s1 = TPL_HIGH_LEVEL"
    using tick_signal [of ?a ?T] by metis
  have t: "(if overdue ?T s = {} then ?a else signalled (mEfiCheckTimerEvent s) ?a) = acquired ?l (ticked D s)"
    by (simp add: ticked_def Let_def signalled_acquired)
  have ls: "LockState (Locks (ticked D s) ?l) = EfiLockReleased" "gEfiCurrentTpl (ticked D s) = gEfiCurrentTpl s"
    using lock by (simp_all add: ticked_def Let_def)
  note u = agrees_unlocked [OF s1(2) [unfolded t] ls(1)]
  have "(acquired ?l s)\<lparr>mEfiSystemTime := mEfiSystemTime (acquired ?l s) + D\<rparr> = ?a"
    by (rule EVENT_STATE.equality) (simp_all add: acquired_def)
  then have "CoreTimerTick R D s = R (gEfiCurrentTpl s) (unlocked ?l s1)"
    using free s1(1) CoreReleaseLock_unlocked [OF u(2), of R] u(3) ls(2)
    by (simp add: CoreTimerTick_check CoreAcquireLock_eq)
  moreover obtain e where "Events s (mEfiCheckTimerEvent s) = Some e" using check_event [OF wf] by blast
  then have "event_wf (ticked D s)" using event_wf_signalled [of ?u] wfu wf by (simp add: ticked_def Let_def)
  ultimately show ?thesis using u(1) s1(3) agrees_wf [OF u(1)] by (intro exI [of _ "unlocked ?l s1"]) (simp add: unlocked_def)
qed

end

section \<open>The notification of the timer check\<close>

text \<open>What the notification of the timer check makes of the event database, at time \<open>T\<close>.\<close>

definition timers_served :: "UINT64 \<Rightarrow> 'a EVENT_STATE_scheme \<Rightarrow> 'a EVENT_STATE_scheme \<Rightarrow> bool" where
  "timers_served T s s' \<longleftrightarrow> (\<forall>q. q \<noteq> mEfiCheckTimerEvent s \<longrightarrow> rel_option keeps (Events s q) (Events s' q))
     \<and> mEfiSystemTime s' = mEfiSystemTime s \<and> mEfiCheckTimerEvent s' = mEfiCheckTimerEvent s
     \<and> EVENT_STATE.more s' = EVENT_STATE.more s
     \<and> (\<forall>l. LockState (Locks s' l) = LockState (Locks s l) \<and> LockTpl (Locks s' l) = LockTpl (Locks s l)
          \<and> (LockState (Locks s l) = EfiLockAcquired \<longrightarrow> OwnerTpl (Locks s' l) = OwnerTpl (Locks s l)))
     \<and> set (mEfiTimerList s') = {q \<in> set (mEfiTimerList s). trigger s q \<le> T \<longrightarrow> period s q \<noteq> 0}
     \<and> (\<forall>q\<in>set (mEfiTimerList s'). trigger s' q = next_trigger T (trigger s q) (period s q))
     \<and> (\<forall>q\<in>overdue T s. SignalCount (the (Events s' q)) \<noteq> 0)"

lemma take_event_simps [simp]:
  "Locks (take_event p s) = Locks s" "mEfiTimerList (take_event p s) = mEfiTimerList s"
  "mEfiSystemTime (take_event p s) = mEfiSystemTime s" "mEfiCheckTimerEvent (take_event p s) = mEfiCheckTimerEvent s"
  "EVENT_STATE.more (take_event p s) = EVENT_STATE.more s" "gEfiCurrentTpl (take_event p s) = gEfiCurrentTpl s"
  "gEventPending (take_event p s) = gEventPending s" "q \<noteq> p \<Longrightarrow> Events (take_event p s) q = Events s q"
  by (simp_all add: take_event_def)

lemma released_event_lock_simps [simp]:
  "Events (released_event_lock s) = Events s" "mEfiTimerList (released_event_lock s) = mEfiTimerList s"
  "mEfiSystemTime (released_event_lock s) = mEfiSystemTime s" "mEfiCheckTimerEvent (released_event_lock s) = mEfiCheckTimerEvent s"
  "EVENT_STATE.more (released_event_lock s) = EVENT_STATE.more s" "gEventPending (released_event_lock s) = gEventPending s"
  "LockState (Locks (released_event_lock s) gEventQueueLock) = EfiLockReleased"
  "LockTpl (Locks (released_event_lock s) l) = LockTpl (Locks s l)"
  "l \<noteq> gEventQueueLock \<Longrightarrow> Locks (released_event_lock s) l = Locks s l"
  by (simp_all add: released_event_lock_def)

lemma trigger_take_event [simp]:
  assumes "Events s q \<noteq> None"
  shows "trigger (take_event p s) q = trigger s q" "period (take_event p s) q = period s q"
  using assms by (cases "q = p"; auto simp: take_event_def trigger_def period_def cleared_def)+

lemma event_wf_take_event:
  assumes "event_wf s"
  shows "event_wf (take_event p s)"
proof (rule event_wf_delivered [OF assms])
  show "delivered (\<lambda>_ _ _ _ m. m) [p] s (take_event p s)"
    by (auto simp: delivered_def dispatch_frame_def take_event_def effect_of_def)
  show "bit (gEventPending (take_event p s)) t" if "gEventQueue (take_event p s) t \<noteq> []" for t
    using that assms by (cases "gEventQueue s t = []") (auto simp: take_event_def event_wf_def queues_wf_def)
qed simp

lemma overdue_take_event: "event_wf s \<Longrightarrow> overdue T (take_event p s) = overdue T s"
  using timer_live [of s] by (auto simp: overdue_def)

text \<open>The state in which the notification function of the first queued event is called.\<close>

definition at_call :: "ptr \<Rightarrow> 'a EVENT_STATE_scheme \<Rightarrow> 'a EVENT_STATE_scheme" where
  "at_call p s = lowered (TPL_HIGH_LEVEL - 1) (released_event_lock (take_event p s))"

lemma at_call_simps [simp]:
  "Events (at_call p s) = Events (take_event p s)" "mEfiTimerList (at_call p s) = mEfiTimerList s"
  "mEfiSystemTime (at_call p s) = mEfiSystemTime s" "mEfiCheckTimerEvent (at_call p s) = mEfiCheckTimerEvent s"
  "EVENT_STATE.more (at_call p s) = EVENT_STATE.more s" "gEfiCurrentTpl (at_call p s) = TPL_HIGH_LEVEL - 1"
  "LockState (Locks (at_call p s) gEventQueueLock) = EfiLockReleased"
  "LockTpl (Locks (at_call p s) l) = LockTpl (Locks s l)"
  "l \<noteq> gEventQueueLock \<Longrightarrow> Locks (at_call p s) l = Locks s l"
  by (simp_all add: at_call_def)

lemma at_call_ready:
  assumes "event_wf s"
  shows "event_ready (at_call p s)" "overdue T (at_call p s) = overdue T s"
    "\<And>q. Events s q \<noteq> None \<Longrightarrow> trigger (at_call p s) q = trigger s q"
    "\<And>q. Events s q \<noteq> None \<Longrightarrow> period (at_call p s) q = period s q"
proof -
  have "event_wf (at_call p s) = event_wf (take_event p s)"
    by (rule event_wf_cong) (simp_all add: at_call_def released_event_lock_def)
  then show "event_ready (at_call p s)" using event_wf_take_event [OF assms] by (simp add: event_ready_def)
  have *: "trigger (at_call p s) = trigger (take_event p s)" "period (at_call p s) = period (take_event p s)"
    by (auto simp: trigger_def period_def)
  then show "overdue T (at_call p s) = overdue T s" using overdue_take_event [OF assms] by (simp add: overdue_def)
  show "\<And>q. Events s q \<noteq> None \<Longrightarrow> trigger (at_call p s) q = trigger s q"
    "\<And>q. Events s q \<noteq> None \<Longrightarrow> period (at_call p s) q = period s q" using * by simp_all
qed

text \<open>The dispatcher is about to serve the level of the timer check, which is the only event of this level.\<close>

definition at_check :: "'a EVENT_STATE_scheme \<Rightarrow> bool" where
  "at_check s \<longleftrightarrow> event_wf s \<and> LockState (Locks s mEfiTimerLock) = EfiLockReleased
     \<and> LockState (Locks s mEfiSystemTimeLock) = EfiLockReleased
     \<and> (\<forall>q e. Events s q = Some e \<longrightarrow> NotifyTpl e = TPL_HIGH_LEVEL - 1 \<longrightarrow> q = mEfiCheckTimerEvent s)
     \<and> mEfiCheckTimerEvent s \<notin> set (mEfiTimerList s)"

definition held_at_check :: "'a EVENT_STATE_scheme \<Rightarrow> bool" where
  "held_at_check s \<longleftrightarrow> LockState (Locks s gEventQueueLock) = EfiLockAcquired
     \<and> OwnerTpl (Locks s gEventQueueLock) = TPL_HIGH_LEVEL - 1 \<and> gEfiCurrentTpl s = TPL_HIGH_LEVEL"

lemma at_check_queue:
  assumes "at_check s"
  shows "gEventQueue s (TPL_HIGH_LEVEL - 1) = [] \<or> gEventQueue s (TPL_HIGH_LEVEL - 1) = [mEfiCheckTimerEvent s]"
proof -
  let ?q = "gEventQueue s (TPL_HIGH_LEVEL - 1)"
  have Q: "links_wf (Events s) (\<lambda>e. NotifyLinked e \<and> NotifyTpl e = TPL_HIGH_LEVEL - 1) ?q"
    using assms by (intro event_wf_links(1)) (simp add: at_check_def)
  have "set ?q \<subseteq> {mEfiCheckTimerEvent s}" using assms links_wfD(2) [OF Q] by (auto simp: at_check_def)
  moreover have "distinct ?q" by (rule links_wfD(1) [OF Q])
  ultimately show ?thesis by (cases ?q rule: list.exhaust; cases "tl ?q") auto
qed

lemma at_check_kept:
  assumes "at_check s" and "event_wf s'" and "timers_served T s s'"
  shows "at_check s'"
proof -
  have "q = mEfiCheckTimerEvent s" if "Events s' q = Some e'" "NotifyTpl e' = TPL_HIGH_LEVEL - 1" for q e'
  proof (rule ccontr)
    assume "q \<noteq> mEfiCheckTimerEvent s"
    then have *: "rel_option keeps (Events s q) (Some e')" using assms(3) that(1) unfolding timers_served_def by metis
    then obtain e where "Events s q = Some e" "keeps e e'" by (cases "Events s q") auto
    then show False using assms(1) that(2) \<open>q \<noteq> _\<close> by (auto simp: at_check_def keeps_def)
  qed
  then show ?thesis using assms by (auto simp: at_check_def timers_served_def)
qed

lemma timers_served_trans:
  assumes "at_check s" and "timers_served T s s1" and "overdue T s1 = {}" and "timers_served T s1 s2"
  shows "timers_served T s s2"
proof -
  have l: "set (mEfiTimerList s2) = set (mEfiTimerList s1)" using assms(3,4) by (auto simp: timers_served_def overdue_def)
  have ct: "mEfiCheckTimerEvent s1 = mEfiCheckTimerEvent s" using assms(2) by (simp add: timers_served_def)
  have "rel_option keeps (Events s q) (Events s2 q)" if "q \<noteq> mEfiCheckTimerEvent s" for q
  proof -
    have "rel_option keeps (Events s q) (Events s1 q)" "rel_option keeps (Events s1 q) (Events s2 q)"
      using assms(2,4) that ct by (simp_all add: timers_served_def)
    then show ?thesis
      by (cases "Events s q"; cases "Events s1 q"; cases "Events s2 q") (auto simp: keeps_def signals_def)
  qed
  moreover have "trigger s2 q = next_trigger T (trigger s q) (period s q)" if "q \<in> set (mEfiTimerList s2)" for q
  proof -
    have "T < trigger s1 q" using assms(3) that l by (auto simp: overdue_def not_le)
    then have "trigger s2 q = trigger s1 q" using assms(4) that by (simp add: timers_served_def next_trigger_def)
    then show ?thesis using assms(2) that l by (simp add: timers_served_def)
  qed
  moreover have "SignalCount (the (Events s2 q)) \<noteq> 0" if "q \<in> overdue T s" for q
  proof -
    have "q \<noteq> mEfiCheckTimerEvent s1" using that assms(1) ct by (auto simp: overdue_def at_check_def)
    then have "rel_option keeps (Events s1 q) (Events s2 q)" using assms(4) by (simp add: timers_served_def)
    moreover have "SignalCount (the (Events s1 q)) \<noteq> 0" using assms(2) that by (simp add: timers_served_def)
    ultimately show ?thesis by (cases "Events s1 q"; cases "Events s2 q") (auto simp: keeps_def)
  qed
  moreover have "set (mEfiTimerList s2) = {q \<in> set (mEfiTimerList s). trigger s q \<le> T \<longrightarrow> period s q \<noteq> 0}"
    using assms(2) unfolding l timers_served_def by blast
  moreover have "mEfiSystemTime s2 = mEfiSystemTime s" "mEfiCheckTimerEvent s2 = mEfiCheckTimerEvent s"
    "EVENT_STATE.more s2 = EVENT_STATE.more s"
    "\<forall>l. LockState (Locks s2 l) = LockState (Locks s l) \<and> LockTpl (Locks s2 l) = LockTpl (Locks s l)
       \<and> (LockState (Locks s l) = EfiLockAcquired \<longrightarrow> OwnerTpl (Locks s2 l) = OwnerTpl (Locks s l))"
    using assms(2,4) unfolding timers_served_def by auto
  ultimately show ?thesis unfolding timers_served_def by blast
qed

lemma agrees_checked:
  assumes "event_wf s" and "agrees s s'" and "overdue T s = {}"
  shows "timers_checked T s s'"
proof -
  have "check_frame s s'"
    using assms(2) by (auto simp: check_frame_def agrees_def dispatch_frame_def events_keep_def keeps_def option.rel_refl)
  moreover have "Events s' = Events s" "mEfiTimerList s' = mEfiTimerList s"
    using assms(2) by (simp_all add: agrees_def dispatch_frame_def)
  moreover have "\<not> trigger s q \<le> T" if "q \<in> set (mEfiTimerList s)" for q using that assms(3) by (auto simp: overdue_def)
  moreover have "trigger s' = trigger s" using calculation(2) by (auto simp: trigger_def)
  ultimately show ?thesis using assms(3) by (auto simp: timers_checked_def next_trigger_def not_less)
qed

context lowers
begin

text \<open>One notification of the timer check.\<close>

lemma check_round:
  assumes s: "at_check s" "held_at_check s" "gEventQueue s (TPL_HIGH_LEVEL - 1) = [mEfiCheckTimerEvent s]"
    and call: "Call pCoreCheckTimers = (\<lambda>_ _. CoreCheckTimers R)"
    and c: "CoreCheckTimers R (at_call (mEfiCheckTimerEvent s) s) = R (TPL_HIGH_LEVEL - 1) s3"
      "timers_checked T (at_call (mEfiCheckTimerEvent s) s) s3" "event_wf s3" "gEfiCurrentTpl s3 = TPL_HIGH_LEVEL - 1"
    and s1: "s1 = acquired gEventQueueLock (lowered (TPL_HIGH_LEVEL - 1) s3)"
  shows "DispatchLoop R Call (TPL_HIGH_LEVEL - 1) s = DispatchLoop R Call (TPL_HIGH_LEVEL - 1) s1"
    "at_check s1" "held_at_check s1" "timers_served T s s1"
proof -
  let ?ct = "mEfiCheckTimerEvent s" and ?P = "TPL_HIGH_LEVEL - 1" and ?l = gEventQueueLock
  let ?s3 = "lowered ?P s3"
  have wf: "event_wf s" using s(1) by (simp add: at_check_def)
  obtain e where e: "Events s ?ct = Some e" "NotifyFunction e = pCoreCheckTimers" using check_event [OF wf] by metis
  have R: "R ?P s3 = Some ?s3" using wf_none_above [OF c(3)] c(4) by (intro quiet_law) simp_all
  have fr: "check_frame (at_call ?ct s) s3" using c(2) by (simp add: timers_checked_def)
  have l3: "LockState (Locks s3 ?l) = EfiLockReleased" "LockTpl (Locks s3 ?l) = TPL_HIGH_LEVEL"
    using fr c(3) by (simp_all add: check_frame_def event_wf_def event_locks_wf_def)
  then have "CoreAcquireEventLock ?s3 = Some s1"
    unfolding s1 by (simp add: CoreAcquireEventLock_def CoreAcquireLock_eq lock_free_def)
  then show "DispatchLoop R Call ?P s = DispatchLoop R Call ?P s1"
    using DispatchLoop_head [OF wf s(3) e(1), of Call] s(2) wf_none_above [OF wf] e(2) call c(1) R
    by (simp add: held_at_check_def at_call_def)
  show "held_at_check s1" using l3 by (simp add: held_at_check_def s1)
  have "rel_option keeps (Events s q) (Events s3 q)" if "q \<noteq> ?ct" for q
    using fr that unfolding check_frame_def events_keep_def by (metis at_call_simps(1) take_event_simps(8))
  moreover have "trigger s3 q = next_trigger T (trigger s q) (period s q)" if "q \<in> set (mEfiTimerList s3)" for q
  proof -
    have "q \<in> set (mEfiTimerList s)" using c(2) that by (simp add: timers_checked_def)
    moreover from this have "Events s q \<noteq> None" by (rule timer_live [OF wf])
    moreover from this have "Events (at_call ?ct s) q \<noteq> None" by (cases "q = ?ct") (auto simp: take_event_def)
    ultimately show ?thesis using c(2) at_call_ready(3,4) [OF wf] by (simp add: timers_checked_def)
  qed
  moreover have "set (mEfiTimerList s3) = {q \<in> set (mEfiTimerList s). trigger s q \<le> T \<longrightarrow> period s q \<noteq> 0}"
    using c(2) at_call_ready(3,4) [OF wf, of _ ?ct] timer_live [OF wf] by (auto simp: timers_checked_def)
  moreover have "\<forall>q\<in>overdue T s. SignalCount (the (Events s3 q)) \<noteq> 0"
    using c(2) at_call_ready(2) [OF wf] by (simp add: timers_checked_def)
  moreover have "LockState (Locks s1 l) = LockState (Locks s l) \<and> LockTpl (Locks s1 l) = LockTpl (Locks s l)
    \<and> (LockState (Locks s l) = EfiLockAcquired \<longrightarrow> OwnerTpl (Locks s1 l) = OwnerTpl (Locks s l))" for l
  proof (cases "l = ?l")
    case True
    then show ?thesis using \<open>held_at_check s1\<close> s(2) fr by (simp add: held_at_check_def check_frame_def s1)
  next
    case False
    then show ?thesis using fr by (simp add: check_frame_def s1)
  qed
  moreover have eq: "Events s1 = Events s3" "mEfiTimerList s1 = mEfiTimerList s3" "trigger s1 = trigger s3"
    "mEfiSystemTime s1 = mEfiSystemTime s3" "mEfiCheckTimerEvent s1 = mEfiCheckTimerEvent s3" "EVENT_STATE.more s1 = EVENT_STATE.more s3"
    by (auto simp: s1 acquired_def trigger_def)
  moreover have "mEfiSystemTime s3 = mEfiSystemTime s" "mEfiCheckTimerEvent s3 = mEfiCheckTimerEvent s" "EVENT_STATE.more s3 = EVENT_STATE.more s"
    using fr by (simp_all add: check_frame_def)
  ultimately show served: "timers_served T s s1" unfolding timers_served_def eq by blast
  have "event_wf s1 = event_wf s3" by (rule event_wf_cong) (simp_all add: s1 acquired_def)
  then show "at_check s1" using at_check_kept [OF s(1) _ served] c(3) by simp
qed

lemma check_round_idle:
  assumes s: "at_check s" "held_at_check s" "gEventQueue s (TPL_HIGH_LEVEL - 1) = [mEfiCheckTimerEvent s]"
    and call: "Call pCoreCheckTimers = (\<lambda>_ _. CoreCheckTimers R)" and idle: "overdue (mEfiSystemTime s) s = {}"
  shows "\<exists>s1. DispatchLoop R Call (TPL_HIGH_LEVEL - 1) s = Some s1 \<and> at_check s1 \<and> held_at_check s1
    \<and> timers_served (mEfiSystemTime s) s s1 \<and> gEventQueue s1 (TPL_HIGH_LEVEL - 1) = [] \<and> gEventPending s1 = gEventPending s"
proof -
  let ?c = "at_call (mEfiCheckTimerEvent s) s"
  have wf: "event_wf s" "LockState (Locks s mEfiTimerLock) = EfiLockReleased" "LockState (Locks s mEfiSystemTimeLock) = EfiLockReleased"
    using s(1) by (simp_all add: at_check_def)
  have wfc: "event_wf ?c" using at_call_ready(1) [OF wf(1)] by (simp add: event_ready_def)
  obtain s3 where s3: "CoreCheckTimers R ?c = R (TPL_HIGH_LEVEL - 1) s3" "agrees ?c s3" "gEfiCurrentTpl s3 = TPL_HIGH_LEVEL - 1"
    using CoreCheckTimers_idle [of ?c] at_call_ready(1,2) [OF wf(1)] wf(2,3) idle by auto
  let ?s1 = "acquired gEventQueueLock (lowered (TPL_HIGH_LEVEL - 1) s3)"
  have "timers_checked (mEfiSystemTime s) ?c s3"
    using agrees_checked [OF wfc s3(2)] at_call_ready(2) [OF wf(1)] idle by simp
  note r = check_round [where Call = Call, OF s call s3(1) this _ s3(3) refl]
  have "gEventQueue ?s1 (TPL_HIGH_LEVEL - 1) = []" "gEventPending ?s1 = gEventPending s"
    using s3(2) s(3) by (simp_all add: agrees_def acquired_def at_call_def released_event_lock_def take_event_def)
  moreover from this have "DispatchLoop R Call (TPL_HIGH_LEVEL - 1) ?s1 = Some ?s1" by (subst DispatchLoop.simps) simp
  ultimately show ?thesis using r agrees_wf [OF s3(2)] wfc by (intro exI [of _ ?s1]) simp
qed

text \<open>The timer check signals itself when it rearmed a timer for now; then it is notified once more.\<close>

lemma DispatchLoop_check:
  assumes s: "at_check s" "held_at_check s" "gEventQueue s (TPL_HIGH_LEVEL - 1) = [mEfiCheckTimerEvent s]"
    and call: "Call pCoreCheckTimers = (\<lambda>_ _. CoreCheckTimers R)" and nw: "no_wrap (mEfiSystemTime s) s"
  shows "\<exists>s1. DispatchLoop R Call (TPL_HIGH_LEVEL - 1) s = Some s1 \<and> at_check s1 \<and> held_at_check s1
    \<and> timers_served (mEfiSystemTime s) s s1 \<and> overdue (mEfiSystemTime s) s1 = {} \<and> gEventQueue s1 (TPL_HIGH_LEVEL - 1) = []"
proof -
  let ?c = "at_call (mEfiCheckTimerEvent s) s" and ?T = "mEfiSystemTime s" and ?P = "TPL_HIGH_LEVEL - 1"
  have wf: "event_wf s" "LockState (Locks s mEfiTimerLock) = EfiLockReleased" "LockState (Locks s mEfiSystemTimeLock) = EfiLockReleased"
    using s(1) by (simp_all add: at_check_def)
  note c = at_call_ready [OF wf(1), where p = "mEfiCheckTimerEvent s"]
  have nwc: "no_wrap ?T ?c" using nw c timer_live [OF wf(1)] by (auto simp: no_wrap_def overdue_def)
  obtain s3 where s3: "CoreCheckTimers R ?c = R ?P s3" "timers_checked ?T ?c s3" "event_wf s3" "gEfiCurrentTpl s3 = ?P"
    using CoreCheckTimers_checked [of ?c] c(1) wf(2,3) nwc by auto
  define s1 where "s1 = acquired gEventQueueLock (lowered ?P s3)"
  note r = check_round [where Call = Call, OF s call s3 s1_def]
  have "overdue ?T s3 = {}" using timers_checked_future [OF _ nwc s3(2)] c(1) by (simp add: event_ready_def)
  then have o1: "overdue ?T s1 = {}" by (simp add: overdue_def s1_def acquired_def trigger_def)
  have eq1: "mEfiSystemTime s1 = ?T" "mEfiCheckTimerEvent s1 = mEfiCheckTimerEvent s"
    using r(4) by (simp_all add: timers_served_def)
  from at_check_queue [OF r(2)] show ?thesis
  proof
    assume "gEventQueue s1 ?P = []"
    moreover from this have "DispatchLoop R Call ?P s1 = Some s1" by (subst DispatchLoop.simps) simp
    ultimately show ?thesis using r o1 by auto
  next
    assume "gEventQueue s1 ?P = [mEfiCheckTimerEvent s1]"
    from check_round_idle [where Call = Call, OF r(2,3) this call] o1 eq1(1) obtain s2 where
      s2: "DispatchLoop R Call ?P s1 = Some s2" "at_check s2" "held_at_check s2" "timers_served ?T s1 s2" "gEventQueue s2 ?P = []"
      by auto
    have "timers_served ?T s s2" by (rule timers_served_trans [OF s(1) r(4) o1 s2(4)])
    moreover have "overdue ?T s2 = {}" using s2(4) o1 by (auto simp: timers_served_def overdue_def next_trigger_def)
    ultimately show ?thesis using r(1) s2 by auto
  qed
qed

end

lemma at_check_agrees:
  assumes "agrees s s'"
  shows "at_check s' = at_check s"
proof -
  have "Events s' = Events s" "mEfiCheckTimerEvent s' = mEfiCheckTimerEvent s" "mEfiTimerList s' = mEfiTimerList s"
    "\<And>l. LockState (Locks s' l) = LockState (Locks s l)"
    using assms by (simp_all add: agrees_def dispatch_frame_def)
  then show ?thesis using agrees_wf [OF assms] by (simp add: at_check_def)
qed

lemma timers_served_agrees:
  assumes "agrees s s'" and "timers_served T s' s1"
  shows "timers_served T s s1"
proof -
  have "Events s' = Events s" "mEfiTimerList s' = mEfiTimerList s" "mEfiSystemTime s' = mEfiSystemTime s"
    "mEfiCheckTimerEvent s' = mEfiCheckTimerEvent s" "EVENT_STATE.more s' = EVENT_STATE.more s" "trigger s' = trigger s"
    "period s' = period s" and l: "\<And>l. LockState (Locks s' l) = LockState (Locks s l)" "\<And>l. LockTpl (Locks s' l) = LockTpl (Locks s l)"
    "\<And>l. LockState (Locks s l) = EfiLockAcquired \<Longrightarrow> OwnerTpl (Locks s' l) = OwnerTpl (Locks s l)"
    using assms(1) by (auto simp: agrees_def dispatch_frame_def trigger_def period_def)
  note eq = this(1-7)
  show ?thesis using assms(2) unfolding timers_served_def eq overdue_def l(1,2) using l(3) by auto
qed

text \<open>The pending flag of an empty queue may be cleared.\<close>

lemma event_wf_clear_pending:
  assumes wf: "event_wf s" and "gEventQueue s k = []" and k: "k < TPL_HIGH_LEVEL"
    and s': "s' = s\<lparr>gEventPending := gEventPending s AND NOT (push_bit k 1)\<rparr>"
  shows "event_wf s'" "\<And>u. bit (gEventPending s') u \<longleftrightarrow> bit (gEventPending s) u \<and> u \<noteq> k"
proof -
  show b: "bit (gEventPending s') u \<longleftrightarrow> bit (gEventPending s) u \<and> u \<noteq> k" for u
    using k bit_imp_le_length [of "gEventPending s" u] by (auto simp: s' bit_simps bit_1_iff)
  have "delivered (\<lambda>_ _ _ _ m. m) [] s s'" by (simp add: delivered_def dispatch_frame_def s')
  then show "event_wf s'"
    by (rule event_wf_delivered [OF wf]) (use wf assms(2) b in \<open>auto simp: event_wf_def queues_wf_def s'\<close>)
qed

context lowers
begin

lemma CoreDispatchEventNotifies_check:
  assumes s: "at_check s" "gEventQueue s (TPL_HIGH_LEVEL - 1) = [mEfiCheckTimerEvent s]"
    and lock: "LockState (Locks s gEventQueueLock) = EfiLockReleased" and tpl: "gEfiCurrentTpl s = TPL_HIGH_LEVEL - 1"
    and call: "Call pCoreCheckTimers = (\<lambda>_ _. CoreCheckTimers R)" and nw: "no_wrap (mEfiSystemTime s) s"
  shows "\<exists>s1. CoreDispatchEventNotifies R Call (TPL_HIGH_LEVEL - 1) s = Some s1 \<and> event_wf s1
    \<and> timers_served (mEfiSystemTime s) s s1 \<and> overdue (mEfiSystemTime s) s1 = {} \<and> none_above (TPL_HIGH_LEVEL - 2) s1"
proof -
  let ?l = gEventQueueLock and ?P = "TPL_HIGH_LEVEL - 1" and ?T = "mEfiSystemTime s"
  let ?a = "acquired ?l s"
  have wf: "event_wf s" using s(1) by (simp add: at_check_def)
  have lt: "LockTpl (Locks s ?l) = TPL_HIGH_LEVEL" using wf by (simp add: event_wf_def event_locks_wf_def)
  then have acq: "CoreAcquireEventLock s = Some ?a" using lock tpl by (simp add: lock_free_def CoreAcquireEventLock_def CoreAcquireLock_eq)
  have "at_check ?a" "held_at_check ?a" using s(1) lt tpl by (simp_all add: at_check_def held_at_check_def)
  moreover have "gEventQueue ?a ?P = [mEfiCheckTimerEvent ?a]" "mEfiSystemTime ?a = ?T" using s(2) by (simp_all add: acquired_def)
  moreover have "no_wrap ?T ?a" using nw by (simp add: no_wrap_def overdue_def trigger_def period_def)
  ultimately obtain s2 where s2: "DispatchLoop R Call ?P ?a = Some s2" "at_check s2" "held_at_check s2" "timers_served ?T ?a s2"
    "overdue ?T s2 = {}" "gEventQueue s2 ?P = []"
    using DispatchLoop_check [where Call = Call, OF _ _ _ call, of ?a] by metis
  define s3 where "s3 = s2\<lparr>gEventPending := gEventPending s2 AND NOT (push_bit ?P 1)\<rparr>"
  have wf2: "event_wf s2" using s2(2) by (simp add: at_check_def)
  note w3 = event_wf_clear_pending [OF wf2 s2(6) _ s3_def]
  let ?s4 = "lowered ?P (unlocked ?l s3)"
  have "CoreReleaseEventLock R s3 = Some ?s4"
    using release_quiet [of s3 ?l] s2(3) wf_none_above [OF w3(1)] by (simp add: CoreReleaseEventLock_def held_at_check_def s3_def unlocked_def)
  then have "CoreDispatchEventNotifies R Call ?P s = Some ?s4"
    using acq s2(1) tpl by (simp add: CoreDispatchEventNotifies_def IntBit_def Let_def s3_def)
  moreover have "event_wf ?s4 = event_wf s3" by (rule event_wf_cong) (simp_all add: unlocked_def)
  moreover have "timers_served ?T s ?s4"
    using s2(4) lock by (auto simp: timers_served_def s3_def unlocked_def trigger_def period_def overdue_def)
  moreover have "overdue ?T ?s4 = {}" using s2(5) by (simp add: overdue_def trigger_def s3_def unlocked_def)
  moreover have "u = ?P" if "TPL_HIGH_LEVEL - 2 < u" "bit (gEventPending s2) u" for u
    using that wf_none_above [OF wf2] unfolding none_above_def by (cases "?P < u") auto
  then have "none_above (TPL_HIGH_LEVEL - 2) ?s4" using w3(2) by (auto simp: none_above_def unlocked_def)
  ultimately show ?thesis using w3(1) by (intro exI [of _ ?s4]) simp
qed

text \<open>Lowering the level with the timer check queued: the check runs first, then the notifications it queued.\<close>

lemma PendingLoop_check:
  assumes s: "at_check s" "gEventQueue s (TPL_HIGH_LEVEL - 1) = [mEfiCheckTimerEvent s]"
    and lock: "LockState (Locks s gEventQueueLock) = EfiLockReleased" and t: "t < TPL_HIGH_LEVEL - 1"
    and call: "Call pCoreCheckTimers = (\<lambda>_ _. CoreCheckTimers R)" and nw: "no_wrap (mEfiSystemTime s) s"
    and benign: "\<And>ps. mEfiCheckTimerEvent s \<notin> set ps \<Longrightarrow> benign Call g (Events s) ps"
  shows "\<exists>s1 s2. PendingLoop R Call t s = Some s2 \<and> event_wf s1 \<and> none_above (TPL_HIGH_LEVEL - 2) s1 \<and> timers_served (mEfiSystemTime s) s s1
    \<and> overdue (mEfiSystemTime s) s1 = {} \<and> delivered g (delivery_order t (TPL_HIGH_LEVEL - 1) (gEventQueue s1)) s1 s2
    \<and> (\<forall>u. bit (gEventPending s2) u \<longleftrightarrow> u \<le> t \<and> bit (gEventPending s1) u)
    \<and> mEfiCheckTimerEvent s \<notin> set (delivery_order t (TPL_HIGH_LEVEL - 1) (gEventQueue s1))"
proof -
  let ?P = "TPL_HIGH_LEVEL - 1" and ?T = "mEfiSystemTime s" and ?ct = "mEfiCheckTimerEvent s"
  have wf: "event_wf s" using s(1) by (simp add: at_check_def)
  have "bit (gEventPending s) ?P" using wf s(2) by (auto simp: event_wf_def queues_wf_def)
  then have hb: "highest_bit (gEventPending s) ?P" using wf_none_above [OF wf] by (simp add: highest_bit_def none_above_def)
  have ag: "agrees s (lowered ?P s)" by (rule agrees_lowered [OF agrees_refl])
  have "no_wrap ?T (lowered ?P s)" using nw by (simp add: no_wrap_def overdue_def trigger_def period_def)
  then obtain s1 where s1: "CoreDispatchEventNotifies R Call ?P (lowered ?P s) = Some s1" "event_wf s1"
    "timers_served ?T (lowered ?P s) s1" "overdue ?T s1 = {}" "none_above (TPL_HIGH_LEVEL - 2) s1"
    using CoreDispatchEventNotifies_check [where Call = Call, OF _ _ _ _ call, of "lowered ?P s"] at_check_agrees [OF ag] s lock by auto
  have sv: "timers_served ?T s s1" by (rule timers_served_agrees [OF ag s1(3)])
  let ?ps = "delivery_order t (Suc (TPL_HIGH_LEVEL - 2)) (gEventQueue s1)"
  have "mEfiCheckTimerEvent s1 = ?ct" using sv by (simp add: timers_served_def)
  then obtain c where "Events s1 ?ct = Some c" "NotifyTpl c = ?P" using check_event [OF s1(2)] by metis
  then have ct: "?ct \<notin> set ?ps" using event_wf_queue [OF s1(2)] by (auto simp: set_delivery_order)
  have "benign Call g (Events s1) ?ps"
    unfolding benign_def
  proof (intro allI impI)
    fix p e' u assume p: "p \<in> set ?ps" "Events s1 p = Some e'"
    then have "p \<noteq> ?ct" using ct by auto
    then have "rel_option keeps (Events s p) (Some e')" using sv p(2) unfolding timers_served_def by metis
    then obtain e where "Events s p = Some e" "keeps e e'" by (cases "Events s p") auto
    moreover have "benign Call g (Events s) [p]" using benign \<open>p \<noteq> ?ct\<close> by simp
    ultimately show "Call (NotifyFunction e') p (NotifyContext e') u
      = Some (EVENT_STATE.more_update (g (NotifyFunction e') p (NotifyContext e') (gEfiCurrentTpl u)) u)"
      by (simp add: benign_def keeps_def)
  qed
  moreover have "LockState (Locks s1 gEventQueueLock) = EfiLockReleased" using sv lock by (simp add: timers_served_def)
  ultimately obtain s2 where s2: "PendingLoop R Call t s1 = Some s2" "delivered g ?ps s1 s2"
    "\<forall>u. bit (gEventPending s2) u \<longleftrightarrow> u \<le> t \<and> bit (gEventPending s1) u"
    using PendingLoop_all [OF s1(2) _ s1(5), of Call g t] by auto
  moreover have "PendingLoop R Call t s = Some s2" using PendingLoop_step [OF hb t, of R Call] s1(1) s2(1) by simp
  moreover have "Suc (TPL_HIGH_LEVEL - 2) = ?P" by simp
  ultimately show ?thesis using s1(2,4,5) sv ct by metis
qed

end

section \<open>From the tick to the notification\<close>

lemma ticked_check:
  assumes wf: "event_wf s" and due: "overdue (mEfiSystemTime s + D) s \<noteq> {}" and t: "t < TPL_HIGH_LEVEL - 1" "none_above t s"
    and idle: "SignalCount (the (Events s (mEfiCheckTimerEvent s))) = 0"
  shows "gEventQueue (ticked D s) (TPL_HIGH_LEVEL - 1) = [mEfiCheckTimerEvent s]"
    "\<And>q. q \<noteq> mEfiCheckTimerEvent s \<Longrightarrow> Events (ticked D s) q = Events s q"
    "\<And>e. Events s (mEfiCheckTimerEvent s) = Some e \<Longrightarrow>
       Events (ticked D s) (mEfiCheckTimerEvent s) = Some (e\<lparr>SignalCount := SignalCount e + 1, NotifyLinked := True\<rparr>)"
proof -
  let ?ct = "mEfiCheckTimerEvent s"
  obtain e where e: "Events s ?ct = Some e" "signals e" "\<not> grouped e" "NotifyTpl e = TPL_HIGH_LEVEL - 1"
    using check_event [OF wf] by metis
  have eq: "ticked D s = notified ?ct (PutEvent ?ct (SignalCount_update (\<lambda>c. c + 1)) (s\<lparr>mEfiSystemTime := mEfiSystemTime s + D\<rparr>))"
    using e idle due by (simp add: ticked_def Let_def signalled_single)
  have "\<not> bit (gEventPending s) (TPL_HIGH_LEVEL - 1)" using t by (simp add: none_above_def)
  then have "gEventQueue s (TPL_HIGH_LEVEL - 1) = []" using wf by (auto simp: event_wf_def queues_wf_def)
  then show "gEventQueue (ticked D s) (TPL_HIGH_LEVEL - 1) = [?ct]" using e unfolding eq by (simp add: notified_def Let_def PutEvent_def)
  show "\<And>q. q \<noteq> ?ct \<Longrightarrow> Events (ticked D s) q = Events s q"
    "\<And>e. Events s ?ct = Some e \<Longrightarrow> Events (ticked D s) ?ct = Some (e\<lparr>SignalCount := SignalCount e + 1, NotifyLinked := True\<rparr>)"
    unfolding eq by (simp_all add: PutEvent_def)
qed

lemma ticked_simps [simp]:
  "mEfiSystemTime (ticked D s) = mEfiSystemTime s + D" "mEfiCheckTimerEvent (ticked D s) = mEfiCheckTimerEvent s"
  "mEfiTimerList (ticked D s) = mEfiTimerList s" "Locks (ticked D s) = Locks s" "EVENT_STATE.more (ticked D s) = EVENT_STATE.more s"
  by (simp_all add: ticked_def Let_def)

lemma at_check_ticked:
  assumes s: "at_check s" and due: "overdue (mEfiSystemTime s + D) s \<noteq> {}" and t: "t < TPL_HIGH_LEVEL - 1" "none_above t s"
    and idle: "SignalCount (the (Events s (mEfiCheckTimerEvent s))) = 0" and wf': "event_wf (ticked D s)"
  shows "at_check (ticked D s)" "\<And>q. Events s q \<noteq> None \<Longrightarrow> trigger (ticked D s) q = trigger s q"
    "\<And>q. Events s q \<noteq> None \<Longrightarrow> period (ticked D s) q = period s q" "overdue T (ticked D s) = overdue T s"
proof -
  have wf: "event_wf s" using s by (simp add: at_check_def)
  note tc = ticked_check [OF wf due t idle]
  show tr: "trigger (ticked D s) q = trigger s q" and "period (ticked D s) q = period s q" if "Events s q \<noteq> None" for q
    using that tc(2) [of q] tc(3) by (cases "q = mEfiCheckTimerEvent s"; auto simp: trigger_def period_def)+
  show "overdue T (ticked D s) = overdue T s" using tr timer_live [OF wf] by (auto simp: overdue_def)
  have "q = mEfiCheckTimerEvent s" if "Events (ticked D s) q = Some e" "NotifyTpl e = TPL_HIGH_LEVEL - 1" for q e
    using that s tc(2) [of q] by (cases "q = mEfiCheckTimerEvent s") (auto simp: at_check_def)
  then show "at_check (ticked D s)" using s wf' by (auto simp: at_check_def)
qed

text \<open>What the notifications after the timer check leave of it.\<close>

lemma delivered_served:
  assumes wf: "event_wf s1" and del: "delivered g ps s1 s2" and none: "overdue T s1 = {}"
  shows "overdue T s2 = {}" "mEfiTimerList s2 = mEfiTimerList s1"
    "\<And>q. q \<in> set (mEfiTimerList s1) \<Longrightarrow> trigger s2 q = trigger s1 q"
proof -
  show l: "mEfiTimerList s2 = mEfiTimerList s1" using del by (simp add: delivered_def dispatch_frame_def)
  show t: "trigger s2 q = trigger s1 q" if "q \<in> set (mEfiTimerList s1)" for q
    using timer_live [OF wf that] del by (auto simp: delivered_def trigger_def)
  show "overdue T s2 = {}" using none l t by (auto simp: overdue_def)
qed

lemma fold_effect_kept:
  assumes sv: "timers_served T s s1" and "mEfiCheckTimerEvent s \<notin> set ps" and "\<forall>p\<in>set ps. Events s1 p \<noteq> None"
  shows "fold (effect_of g (Events s1)) ps m = fold (effect_of g (Events s)) ps m"
proof (rule fold_cong [OF refl refl])
  fix p assume p: "p \<in> set ps"
  then have "rel_option keeps (Events s p) (Events s1 p)" using sv assms(2) unfolding timers_served_def by metis
  then show "effect_of g (Events s1) p = effect_of g (Events s) p"
    using assms(3) p by (cases "Events s p"; cases "Events s1 p") (auto simp: effect_of_def keeps_def)
qed

text \<open>An expired event is queued at its level by the check, and then delivered if the level is above the new one.\<close>

lemma expired_queued:
  assumes s: "at_check s" and wf1: "event_wf s1" and sv: "timers_served T s s1"
    and q: "q \<in> overdue T s" "Events s q = Some e" "signals e" "SignalCount e = 0"
  shows "q \<in> set (gEventQueue s1 (NotifyTpl e))" "NotifyTpl e < TPL_HIGH_LEVEL - 1"
proof -
  have ct: "q \<noteq> mEfiCheckTimerEvent s" using s q(1) by (auto simp: at_check_def overdue_def)
  then have "rel_option keeps (Some e) (Events s1 q)" using sv q(2) unfolding timers_served_def by metis
  then obtain e1 where e1: "Events s1 q = Some e1" "keeps e e1" by (cases "Events s1 q") auto
  moreover have "SignalCount e1 \<noteq> 0" using sv q(1) e1(1) by (auto simp: timers_served_def)
  ultimately show "q \<in> set (gEventQueue s1 (NotifyTpl e))"
    using q(3,4) event_wf_queue [OF wf1 e1(1)] by (simp add: keeps_def)
  have "NotifyTpl e < TPL_HIGH_LEVEL" using s q(2,3) by (auto simp: at_check_def event_wf_def event_ok_def dest: signals_notifies)
  moreover have "NotifyTpl e \<noteq> TPL_HIGH_LEVEL - 1" using s q(2) ct by (auto simp: at_check_def)
  ultimately show "NotifyTpl e < TPL_HIGH_LEVEL - 1" by simp
qed

text \<open>
  What a tick of the clock to time \<open>T\<close> achieves at level \<open>t\<close>: the expired timers are gone or rearmed after \<open>T\<close>, and each
  expired event of the signal kind that was not yet signalled is in the list \<open>ps\<close> of the notifications made or, if its level is not
  above \<open>t\<close>, queued.
\<close>

definition tick_done :: "'a effect \<Rightarrow> UINT64 \<Rightarrow> EFI_TPL \<Rightarrow> ptr list \<Rightarrow> 'a EVENT_STATE_scheme \<Rightarrow> 'a EVENT_STATE_scheme \<Rightarrow> bool" where
  "tick_done g T t ps s s' \<longleftrightarrow> event_wf s' \<and> gEfiCurrentTpl s' = t \<and> none_above t s' \<and> mEfiSystemTime s' = T
     \<and> overdue T s' = {}
     \<and> set (mEfiTimerList s') = {q \<in> set (mEfiTimerList s). trigger s q \<le> T \<longrightarrow> period s q \<noteq> 0}
     \<and> (\<forall>q\<in>set (mEfiTimerList s'). trigger s' q = next_trigger T (trigger s q) (period s q))
     \<and> EVENT_STATE.more s' = fold (effect_of g (Events s)) ps (EVENT_STATE.more s)
     \<and> (\<forall>q\<in>overdue T s. \<forall>e. Events s q = Some e \<longrightarrow> signals e \<longrightarrow> SignalCount e = 0 \<longrightarrow>
          (if t < NotifyTpl e then q \<in> set ps else q \<in> set (gEventQueue s' (NotifyTpl e))))"

lemma tick_idle:
  assumes "at_check s" and due: "overdue (mEfiSystemTime s + D) s = {}" and "none_above t s" and "agrees (ticked D s) s1"
  shows "tick_done g (mEfiSystemTime s + D) t [] s (lowered t s1)"
proof -
  let ?T = "mEfiSystemTime s + D"
  have tk: "ticked D s = s\<lparr>mEfiSystemTime := ?T\<rparr>" using due by (simp add: ticked_def)
  have eq: "Events s1 = Events s" "mEfiTimerList s1 = mEfiTimerList s" "mEfiSystemTime s1 = ?T" "gEventPending s1 = gEventPending s"
    "EVENT_STATE.more s1 = EVENT_STATE.more s"
    using assms(4) by (simp_all add: tk agrees_def dispatch_frame_def)
  have "event_wf (lowered t s1) = event_wf (ticked D s)"
    using agrees_wf [OF agrees_lowered [OF assms(4)]] by simp
  also have "\<dots> = event_wf s" unfolding tk by (rule event_wf_cong) simp_all
  finally have "event_wf (lowered t s1)" using assms(1) by (simp add: at_check_def)
  moreover have "\<not> trigger s q \<le> ?T \<and> ?T < trigger s q" if "q \<in> set (mEfiTimerList s)" for q
    using due that by (auto simp: overdue_def)
  moreover have "trigger (lowered t s1) = trigger s" by (auto simp: trigger_def eq)
  ultimately show ?thesis using assms(3) due
    by (auto simp: tick_done_def none_above_def eq overdue_def next_trigger_def)
qed

lemma tick_dispatched:
  assumes s: "at_check s" and due: "overdue (mEfiSystemTime s + D) s \<noteq> {}" and t: "t < TPL_HIGH_LEVEL - 1" "none_above t s"
    and idle: "SignalCount (the (Events s (mEfiCheckTimerEvent s))) = 0" and wf1: "event_wf s1" "agrees (ticked D s) s1"
    and sv: "timers_served (mEfiSystemTime s + D) s1 s2" "event_wf s2" "overdue (mEfiSystemTime s + D) s2 = {}" "none_above (TPL_HIGH_LEVEL - 2) s2"
    and del: "delivered g ps s2 s3" and ps: "ps = delivery_order t (TPL_HIGH_LEVEL - 1) (gEventQueue s2)"
    and pend: "\<forall>u. bit (gEventPending s3) u \<longleftrightarrow> u \<le> t \<and> bit (gEventPending s2) u" and ct: "mEfiCheckTimerEvent s \<notin> set ps"
  shows "tick_done g (mEfiSystemTime s + D) t ps s (lowered t s3)"
proof -
  let ?T = "mEfiSystemTime s + D" and ?s' = "lowered t s3"
  have wf: "event_wf s" using s by (simp add: at_check_def)
  have wft: "event_wf (ticked D s)" using agrees_wf [OF wf1(2)] wf1(1) by simp
  note tk = at_check_ticked [OF s due t idle wft] and tc = ticked_check [OF wf due t idle]
  have sv': "timers_served ?T (ticked D s) s2" by (rule timers_served_agrees [OF wf1(2) sv(1)])
  note ds = delivered_served [OF sv(2) del sv(3)]
  have live: "\<forall>p\<in>set ps. Events s2 p \<noteq> None"
    using links_wfD(2) [OF event_wf_links(1) [OF sv(2)]] unfolding ps by (fastforce simp: set_delivery_order)
  have fold: "fold (effect_of g (Events s2)) ps m = fold (effect_of g (Events s)) ps m" for m
  proof -
    have "fold (effect_of g (Events (ticked D s))) ps m = fold (effect_of g (Events s)) ps m"
      by (rule fold_cong [OF refl refl]) (metis ct effect_of_def tc(2))
    then show ?thesis using fold_effect_kept [OF sv' _ live, of g m] ct by simp
  qed
  have "if t < NotifyTpl e then q \<in> set ps else q \<in> set (gEventQueue s3 (NotifyTpl e))"
    if q: "q \<in> overdue ?T s" "Events s q = Some e" "signals e" "SignalCount e = 0" for q e
  proof -
    have "q \<noteq> mEfiCheckTimerEvent s" using s q(1) by (auto simp: at_check_def overdue_def)
    then have "Events (ticked D s) q = Some e" using tc(2) q(2) by simp
    then have n: "q \<in> set (gEventQueue s2 (NotifyTpl e))" "NotifyTpl e < TPL_HIGH_LEVEL - 1"
      using expired_queued [OF tk(1) sv(2) sv', of q e] q tk(4) by auto
    then have "q \<in> set ps \<longleftrightarrow> t < NotifyTpl e"
      unfolding ps set_delivery_order using queue_disjoint [OF sv(2) _ n(1)] by metis
    then show ?thesis using del n(1) by (auto simp: delivered_def)
  qed
  moreover have "set (mEfiTimerList s3) = {q \<in> set (mEfiTimerList s). trigger s q \<le> ?T \<longrightarrow> period s q \<noteq> 0}"
    using sv' ds(2) tk(2,3) timer_live [OF wf] by (auto simp: timers_served_def)
  moreover have "trigger s3 q = next_trigger ?T (trigger s q) (period s q)" if "q \<in> set (mEfiTimerList s3)" for q
    using sv' ds(2,3) that tk(2,3) timer_live [OF wf, of q] by (auto simp: timers_served_def)
  moreover have "event_wf s3"
  proof (rule event_wf_delivered [OF sv(2) del])
    fix u assume "gEventQueue s3 u \<noteq> []"
    then obtain q where q: "q \<in> set (gEventQueue s2 u)" "q \<notin> set ps" using del by (fastforce simp: delivered_def filter_empty_conv)
    then have b: "bit (gEventPending s2) u" using sv(2) by (force simp: event_wf_def queues_wf_def)
    then have "u < TPL_HIGH_LEVEL - 1" using sv(4) by (cases "TPL_HIGH_LEVEL - 2 < u") (auto simp: none_above_def)
    then show "bit (gEventPending s3) u" using pend b q by (auto simp: ps set_delivery_order not_less)
  qed (use pend in simp)
  moreover from this have "event_wf ?s'" using event_wf_cong [of ?s' s3] by simp
  moreover have "trigger ?s' = trigger s3" "overdue ?T ?s' = overdue ?T s3" by (auto simp: trigger_def overdue_def)
  moreover have "mEfiSystemTime s3 = ?T" "EVENT_STATE.more s3 = fold (effect_of g (Events s)) ps (EVENT_STATE.more s)"
    using del sv' fold by (simp_all add: delivered_def dispatch_frame_def timers_served_def)
  moreover have "none_above t ?s'" using pend by (simp add: none_above_def)
  ultimately show ?thesis using ds(1) unfolding tick_done_def by simp
qed

text \<open>
  C1. A tick of the clock serves the timers: \<open>CoreTimerTick\<close> at a level below that of the timer check returns at that level, with the
  clock advanced, no timer overdue, one-shot timers gone and periodic ones rearmed after now, and before it returns it notified every
  expired event whose level is above the caller's and that was not signalled already; the other expired events are queued. The
  notification functions of drivers are arbitrary functions on the client's data, and no period of an expired timer may wrap around
  the clock.
\<close>

theorem CoreTimerTick_serves:
  assumes s: "at_check s" and lock: "LockState (Locks s gEventQueueLock) = EfiLockReleased"
    and t: "gEfiCurrentTpl s < TPL_HIGH_LEVEL - 1" "none_above (gEfiCurrentTpl s) s"
    and idle: "SignalCount (the (Events s (mEfiCheckTimerEvent s))) = 0" and nw: "no_wrap (mEfiSystemTime s + D) s"
    and call: "\<And>ps. mEfiCheckTimerEvent s \<notin> set ps \<Longrightarrow> benign (CallNotify Notify (RestoreTpl Notify (Suc n))) g (Events s) ps"
  shows "\<exists>s' ps. CoreTimerTick (RestoreTpl Notify (Suc (Suc n))) D s = Some s'
    \<and> tick_done g (mEfiSystemTime s + D) (gEfiCurrentTpl s) ps s s'"
proof -
  let ?R = "RestoreTpl Notify (Suc n)" and ?t = "gEfiCurrentTpl s" and ?T = "mEfiSystemTime s + D" and ?ct = "mEfiCheckTimerEvent s"
  have wf: "event_wf s" using s by (simp add: at_check_def)
  have "event_ready s" using wf lock t(1) by (simp add: event_ready_def)
  moreover have "LockState (Locks s mEfiSystemTimeLock) = EfiLockReleased" using s by (simp add: at_check_def)
  ultimately obtain s1 where s1: "CoreTimerTick (RestoreTpl Notify (Suc (Suc n))) D s = RestoreTpl Notify (Suc (Suc n)) ?t s1"
    "agrees (ticked D s) s1" "gEfiCurrentTpl s1 = TPL_HIGH_LEVEL" "event_wf s1"
    using rt.CoreTimerTick_ticked by blast
  show ?thesis
  proof (cases "overdue ?T s = {}")
    case True
    have "none_above ?t s1" using t(2) agrees_above [OF s1(2)] True by (simp add: ticked_def none_above_def)
    then have "RestoreTpl Notify (Suc (Suc n)) ?t s1 = Some (lowered ?t s1)" using t(1) s1(3) by (intro rt.quiet_law) simp_all
    then show ?thesis using s1(1) tick_idle [OF s True t(2) s1(2)] by metis
  next
    case False
    note tk = at_check_ticked [OF s False t idle] and tc = ticked_check [OF wf False t idle]
    have wft: "event_wf (ticked D s)" using agrees_wf [OF s1(2)] s1(4) by simp
    have eq: "Events s1 = Events (ticked D s)" "gEventQueue s1 = gEventQueue (ticked D s)" "mEfiCheckTimerEvent s1 = ?ct"
      "mEfiSystemTime s1 = ?T" "mEfiTimerList s1 = mEfiTimerList s" "LockState (Locks s1 gEventQueueLock) = EfiLockReleased"
      using s1(2) lock by (simp_all add: agrees_def dispatch_frame_def)
    have nw1: "no_wrap ?T s1"
      using nw tk(2,3) [OF wft] timer_live [OF wf] by (auto simp: no_wrap_def overdue_def trigger_def period_def eq)
    have b1: "benign (CallNotify Notify ?R) g (Events s1) ps" if "?ct \<notin> set ps" for ps
      using call [OF that] that tc(2) unfolding benign_def eq(1) by metis
    have c1: "CallNotify Notify ?R pCoreCheckTimers = (\<lambda>_ _. CoreCheckTimers ?R)" by (auto simp: CallNotify_def fun_eq_iff)
    have a1: "at_check s1" "gEventQueue s1 (TPL_HIGH_LEVEL - 1) = [mEfiCheckTimerEvent s1]"
      using at_check_agrees [OF s1(2)] tk(1) [OF wft] tc(1) eq(2,3) by simp_all
    obtain s2 s3 where s3: "PendingLoop ?R (CallNotify Notify ?R) ?t s1 = Some s3" "event_wf s2" "none_above (TPL_HIGH_LEVEL - 2) s2"
      "timers_served ?T s1 s2" "overdue ?T s2 = {}" "delivered g (delivery_order ?t (TPL_HIGH_LEVEL - 1) (gEventQueue s2)) s2 s3"
      "\<forall>u. bit (gEventPending s3) u \<longleftrightarrow> u \<le> ?t \<and> bit (gEventPending s2) u"
      "?ct \<notin> set (delivery_order ?t (TPL_HIGH_LEVEL - 1) (gEventQueue s2))"
      using rt.PendingLoop_check [where Call = "CallNotify Notify ?R", OF a1 eq(6) t(1) c1] nw1 b1 eq(3,4) by metis
    have "RestoreTpl Notify (Suc (Suc n)) ?t s1 = Some (lowered ?t s3)" using CoreRestoreTpl_eq [of ?t s1] s3(1) s1(3) t(1) by simp
    moreover note tick_dispatched [OF s False t idle s1(4,2) s3(4,2,5,3,6) refl s3(7,8)]
    ultimately show ?thesis using s1(1) by metis
  qed
qed

text \<open>A database with a timer event of level 16 that is due at 25, at time 20.\<close>

definition witness_alarm :: IEVENT where
  "witness_alarm = (witness_event 16 7 0 False)\<lparr>EvType := EVT_TIMER OR EVT_NOTIFY_SIGNAL, TimerLinked := True, TriggerTime := 25\<rparr>"

definition witness_tick :: "ptr list EVENT_STATE_scheme" where
  "witness_tick = (witness_events 0 False 4)
     \<lparr>Events := (Events (witness_events 0 False 4))(102 \<mapsto> witness_alarm), mEfiTimerList := [102], mEfiSystemTime := 20\<rparr>"

lemma witness_alarm_simps [simp]:
  "signals witness_alarm" "notifies witness_alarm" "EvSignature witness_alarm = EVENT_SIGNATURE" "NotifyTpl witness_alarm = 16"
  "NotifyFunction witness_alarm = 7" "\<not> NotifyLinked witness_alarm" "SignalLinked witness_alarm" "\<not> RuntimeLinked witness_alarm"
  "TimerLinked witness_alarm" "TriggerTime witness_alarm = 25" "Period witness_alarm = 0" "SignalCount witness_alarm = 0"
  by (simp_all add: witness_alarm_def witness_event_def ZeroEvent_def signals_def notifies_def EVT_defs)

lemma witness_tick_check: "at_check witness_tick"
proof -
  let ?s = witness_tick
  have "links_wf (Events ?s) (\<lambda>e. NotifyLinked e \<and> NotifyTpl e = u) (gEventQueue ?s u)" for u
    by (rule links_wfI) (auto simp: witness_tick_def witness_events_def)
  moreover have "links_wf (Events ?s) TimerLinked [102]" "links_wf (Events ?s) RuntimeLinked []"
    "links_wf (Events ?s) SignalLinked [102, 101, 100]"
    by (rule links_wfI, auto simp: witness_tick_def witness_events_def split: if_splits)+
  ultimately have "event_wf ?s"
    by (auto simp: event_wf_defs event_ok_def witness_tick_def witness_events_def EFI_INITIALIZE_LOCK_VARIABLE_def
        split: if_splits)
  then show ?thesis
    by (auto simp: at_check_def witness_tick_def witness_events_def EFI_INITIALIZE_LOCK_VARIABLE_def split: if_splits)
qed

theorem CoreTimerTick_serves_witness:
  "\<exists>s' ps. CoreTimerTick (RestoreTpl witness_notify 2) 10 witness_tick = Some s' \<and> 102 \<in> set ps
     \<and> EVENT_STATE.more s' = ps \<and> mEfiTimerList s' = [] \<and> mEfiSystemTime s' = 30"
proof -
  let ?s = witness_tick and ?g = "\<lambda>(f :: ptr) p (c :: ptr) (t :: EFI_TPL) log. log @ [p]"
  have s: "LockState (Locks ?s gEventQueueLock) = EfiLockReleased" "gEfiCurrentTpl ?s = 4" "none_above 4 ?s" "mEfiSystemTime ?s = 20"
    "mEfiCheckTimerEvent ?s = 100" "SignalCount (the (Events ?s 100)) = 0" "Events ?s 102 = Some witness_alarm"
    "mEfiTimerList ?s = [102]" "EVENT_STATE.more ?s = []"
    by (simp_all add: witness_tick_def witness_events_def EFI_INITIALIZE_LOCK_VARIABLE_def none_above_def)
  have t: "trigger ?s 102 = 25" "period ?s 102 = 0" using s(7) by (simp_all add: trigger_def period_def)
  have "no_wrap 30 ?s" using s(8) t by (auto simp: no_wrap_def overdue_def)
  moreover have "benign (CallNotify witness_notify (RestoreTpl witness_notify (Suc 0))) ?g (Events ?s) ps"
    if "100 \<notin> set ps" for ps
    by (rule witness_benign) (use that in \<open>auto simp: witness_tick_def witness_events_def split: if_splits\<close>)
  ultimately obtain s' ps where s': "CoreTimerTick (RestoreTpl witness_notify (Suc (Suc 0))) 10 ?s = Some s'"
    "tick_done ?g 30 4 ps ?s s'"
    using CoreTimerTick_serves [of ?s 10 witness_notify 0 ?g] witness_tick_check s by auto
  have "102 \<in> overdue 30 ?s" using s(8) t by (simp add: overdue_def)
  then have "102 \<in> set ps" using s'(2) s(7) by (auto simp: tick_done_def)
  moreover have "fold (effect_of ?g ev) ps xs = xs @ ps" for ev xs by (induction ps arbitrary: xs) (simp_all add: effect_of_def)
  then have "EVENT_STATE.more s' = ps" using s'(2) s(9) by (simp add: tick_done_def)
  moreover have "set (mEfiTimerList s') = {}" using s'(2) s(8) t by (auto simp: tick_done_def)
  ultimately show ?thesis using s' by (auto simp: tick_done_def numeral_2_eq_2)
qed

end
