(* ===== verification/Event_Life.thy ===== *)
theory Event_Life
  imports Timer_Set
begin

unbundle bit_operations_syntax

text \<open>
  The life of an event: what \<open>CoreCreateEventEx\<close> accepts and registers, and what \<open>CoreCloseEvent\<close> takes out of the event database.
\<close>

section \<open>Creating an event\<close>

text \<open>
  The type and the group an event gets: the two event groups of the boot services end and of the virtual address change stand for the
  two types of the same meaning, and the other way round.
\<close>

definition effective_type :: "UINT32 \<Rightarrow> EFI_GUID option \<Rightarrow> UINT32" where
  "effective_type Type Group =
     (if Group = Some gEfiEventExitBootServicesGuid then EVT_SIGNAL_EXIT_BOOT_SERVICES
      else if Group = Some gEfiEventVirtualAddressChangeGuid then EVT_SIGNAL_VIRTUAL_ADDRESS_CHANGE
      else Type)"

definition effective_group :: "UINT32 \<Rightarrow> EFI_GUID option \<Rightarrow> EFI_GUID option" where
  "effective_group Type Group =
     (if Group = None \<and> Type = EVT_SIGNAL_EXIT_BOOT_SERVICES then Some gEfiEventExitBootServicesGuid
      else if Group = None \<and> Type = EVT_SIGNAL_VIRTUAL_ADDRESS_CHANGE then Some gEfiEventVirtualAddressChangeGuid
      else Group)"

abbreviation notify_type :: "UINT32 \<Rightarrow> bool" where
  "notify_type Type \<equiv> Type AND (EVT_NOTIFY_WAIT OR EVT_NOTIFY_SIGNAL) \<noteq> 0"

text \<open>The requests that are to be accepted.\<close>

definition may_create :: "UINT32 \<Rightarrow> EFI_TPL \<Rightarrow> ptr \<Rightarrow> EFI_GUID option \<Rightarrow> bool" where
  "may_create Type Tpl Function Group \<longleftrightarrow>
     Type \<in> {0, EVT_TIMER, EVT_NOTIFY_WAIT, EVT_NOTIFY_SIGNAL, EVT_TIMER OR EVT_NOTIFY_WAIT, EVT_TIMER OR EVT_NOTIFY_SIGNAL,
       EVT_SIGNAL_EXIT_BOOT_SERVICES, EVT_SIGNAL_VIRTUAL_ADDRESS_CHANGE}
     \<and> (Type \<in> {EVT_SIGNAL_EXIT_BOOT_SERVICES, EVT_SIGNAL_VIRTUAL_ADDRESS_CHANGE} \<longrightarrow> Group = None)
     \<and> (notify_type Type \<longrightarrow> Tpl \<in> {TPL_CALLBACK, TPL_NOTIFY})
     \<and> (notify_type (effective_type Type Group) \<longrightarrow> Function \<noteq> NULL \<and> TPL_APPLICATION < Tpl \<and> Tpl < TPL_HIGH_LEVEL)"

text \<open>The event a request stands for, at the address \<open>p\<close>.\<close>

definition new_event :: "ptr \<Rightarrow> UINT32 \<Rightarrow> EFI_TPL \<Rightarrow> ptr \<Rightarrow> ptr \<Rightarrow> EFI_GUID option \<Rightarrow> IEVENT" where
  "new_event p Type Tpl Function Context Group =
     (let Type' = effective_type Type Group;
          (Tpl, Function, Context) = (if notify_type Type' then (Tpl, Function, Context) else (0, NULL, NULL));
          e = ZeroEvent\<lparr>EvSignature := EVENT_SIGNATURE, EvType := Type', NotifyTpl := Tpl, NotifyFunction := Function,
                NotifyContext := Context, SignalLinked := Type' AND EVT_NOTIFY_SIGNAL \<noteq> 0\<rparr>;
          e = (case effective_group Type Group of None \<Rightarrow> e | Some g \<Rightarrow> e\<lparr>EventGroup := g, ExFlag := EVT_EXFLAG_EVENT_GROUP\<rparr>)
      in if Type' AND EVT_RUNTIME \<noteq> 0
         then e\<lparr>RuntimeLinked := True, RuntimeData := \<lparr>RtType = Type', RtNotifyTpl = Tpl, RtNotifyFunction = Function,
                RtNotifyContext = Context, RtEvent = p\<rparr>\<rparr>
         else e)"

definition created :: "ptr \<Rightarrow> IEVENT \<Rightarrow> 'a EVENT_STATE_scheme \<Rightarrow> 'a EVENT_STATE_scheme" where
  "created p e s = s\<lparr>Pool := tl (Pool s), Events := (Events s)(p \<mapsto> e),
     RuntimeEventHead := RuntimeEventHead s @ (if RuntimeLinked e then [p] else []),
     gEventSignalQueue := (if SignalLinked e then [p] else []) @ gEventSignalQueue s\<rparr>"

lemma pool_fresh:
  assumes "event_wf s" and "Pool s = p # ps"
  shows "Events s p = None" "p \<noteq> NULL" "p \<notin> set ps" "p \<notin> set (gEventSignalQueue s)" "p \<notin> set (RuntimeEventHead s)"
    "p \<notin> set (mEfiTimerList s)" "p \<noteq> mEfiCheckTimerEvent s"
proof -
  show n: "Events s p = None" "p \<noteq> NULL" "p \<notin> set ps" using assms by (auto simp: event_wf_def event_pool_wf_def)
  then show "p \<notin> set (gEventSignalQueue s)" "p \<notin> set (RuntimeEventHead s)" "p \<notin> set (mEfiTimerList s)"
    using links_wfD(2) [OF event_wf_links(2) [OF assms(1)]] links_wfD(2) [OF event_wf_links(3) [OF assms(1)]]
      links_wfD(2) [OF event_wf_links(4) [OF assms(1)]] by auto
  show "p \<noteq> mEfiCheckTimerEvent s" using assms(1) n(1) by (auto simp: event_wf_def check_timer_wf_def)
qed

lemma event_wf_created:
  assumes wf: "event_wf s" and p: "Pool s = p # ps" and ok: "event_ok e" and idle: "\<not> NotifyLinked e" "\<not> TimerLinked e"
    and sig: "SignalLinked e = signals e"
  shows "event_wf (created p e s)"
proof -
  note f = pool_fresh [OF wf p]
  have new: "links_wf (Events s) inl qs \<Longrightarrow> \<not> inl e \<Longrightarrow> links_wf ((Events s)(p \<mapsto> e)) inl qs" for inl qs
    using links_wf_new f(1) by blast
  have add: "links_wf ((Events s)(p \<mapsto> e)) SignalLinked ((if SignalLinked e then [p] else []) @ gEventSignalQueue s)"
    "links_wf ((Events s)(p \<mapsto> e)) RuntimeLinked (RuntimeEventHead s @ (if RuntimeLinked e then [p] else []))"
    using links_wf_append(2) [OF event_wf_links(3) [OF wf] f(4), of e] links_wf_append(1) [OF event_wf_links(4) [OF wf] f(5), of e]
      new [OF event_wf_links(3) [OF wf]] new [OF event_wf_links(4) [OF wf]] by simp_all
  have "queues_wf (created p e s)"
    using wf new [OF event_wf_links(1) [OF wf]] idle by (auto simp: event_wf_def queues_wf_def created_def)
  moreover have "timers_wf (created p e s)"
  proof (rule timers_wf_same)
    show "timers_wf s" using wf by (simp add: event_wf_def)
    show "links_wf (Events (created p e s)) TimerLinked (mEfiTimerList s)"
      using new [OF event_wf_links(2) [OF wf]] idle by (simp add: created_def)
    show "TriggerTime (the (Events (created p e s) q)) = TriggerTime (the (Events s q))" if "q \<in> set (mEfiTimerList s)" for q
      using that f(6) by (auto simp: created_def)
  qed (simp add: created_def)
  moreover have "signal_wf (created p e s)" using wf add(1) sig by (auto simp: event_wf_def signal_wf_def created_def)
  moreover have "check_timer_wf (created p e s)" using wf f(7) by (auto simp: event_wf_def check_timer_wf_def created_def)
  moreover have "event_pool_wf (created p e s)" using wf p f(2,3) by (auto simp: event_wf_def event_pool_wf_def created_def)
  moreover have "event_locks_wf (created p e s)" using wf by (simp add: event_wf_def event_locks_wf_def created_def)
  ultimately show ?thesis using wf ok add(2) by (auto simp: event_wf_def created_def)
qed

text \<open>The last steps of the creation: the event enters the signal queue under the event lock.\<close>

definition signal_linked :: "ptr \<Rightarrow> bool \<Rightarrow> 'a EVENT_STATE_scheme \<Rightarrow> 'a EVENT_STATE_scheme" where
  "signal_linked p b s = (if b then (PutEvent p (SignalLinked_update (\<lambda>_. True)) s)\<lparr>gEventSignalQueue := p # gEventSignalQueue s\<rparr> else s)"

definition register :: "'a restore \<Rightarrow> ptr \<Rightarrow> IEVENT \<Rightarrow> 'a EVENT_STATE_scheme \<Rightarrow> (EFI_STATUS \<times> ptr option \<times> 'a EVENT_STATE_scheme) option" where
  "register R p e s = do {
     s \<leftarrow> CoreAcquireEventLock (created p (e\<lparr>SignalLinked := False\<rparr>) s);
     s \<leftarrow> CoreReleaseEventLock R (signal_linked p (SignalLinked e) s);
     Some (EFI_SUCCESS, Some p, s)
   }"

lemma effective_request:
  "(case Group of
         Some g \<Rightarrow>
           if g = gEfiEventExitBootServicesGuid then (EVT_SIGNAL_EXIT_BOOT_SERVICES, Group)
           else if g = gEfiEventVirtualAddressChangeGuid then (EVT_SIGNAL_VIRTUAL_ADDRESS_CHANGE, Group)
           else (Type, Group)
       | None \<Rightarrow>
           if Type = EVT_SIGNAL_EXIT_BOOT_SERVICES then (Type, Some gEfiEventExitBootServicesGuid)
           else if Type = EVT_SIGNAL_VIRTUAL_ADDRESS_CHANGE then (Type, Some gEfiEventVirtualAddressChangeGuid)
           else (Type, Group)) = (effective_type Type Group, effective_group Type Group)"
  by (auto simp: effective_type_def effective_group_def split: option.splits)

lemma CoreCreateEventInternal_register:
  assumes "Type \<in> set mEventTable" and "Group \<noteq> None \<longrightarrow> Type \<notin> {EVT_SIGNAL_EXIT_BOOT_SERVICES, EVT_SIGNAL_VIRTUAL_ADDRESS_CHANGE}"
    and "notify_type (effective_type Type Group) \<longrightarrow> Function \<noteq> NULL \<and> TPL_APPLICATION < Tpl \<and> Tpl < TPL_HIGH_LEVEL"
    and "p \<noteq> NULL" and pool: "Pool s = p # ps"
  shows "CoreCreateEventInternal R Type Tpl Function Context Group (Some v) s
    = register R p (new_event p Type Tpl Function Context Group) s"
proof -
  let ?t = "effective_type Type Group" and ?g = "effective_group Type Group"
  have ok: "\<not> (notify_type ?t \<and> (Function = NULL \<or> Tpl \<le> TPL_APPLICATION \<or> Tpl \<ge> TPL_HIGH_LEVEL))" using assms(3) by auto
  have ng: "\<not> (Group \<noteq> None \<and> (Type = EVT_SIGNAL_EXIT_BOOT_SERVICES \<or> Type = EVT_SIGNAL_VIRTUAL_ADDRESS_CHANGE))"
    using assms(2) by auto
  have nt: "\<not> Type \<notin> set mEventTable" "\<not> Some v = None" using assms(1) by simp_all
  show ?thesis
    unfolding CoreCreateEventInternal_def effective_request if_not_P [OF ng] if_not_P [OF nt(1)] if_not_P [OF nt(2)]
    using assms(4) pool ok
    by (cases ?g; cases "notify_type ?t"; cases "?t AND EVT_RUNTIME = 0"; cases "?t AND EVT_NOTIFY_SIGNAL = 0")
      (simp_all add: TakePool_def register_def new_event_def Let_def signal_linked_def created_def PutEvent_def ZeroEvent_def)
qed

lemma CoreAcquireEventLock_free:
  assumes "LockTpl (Locks s gEventQueueLock) = TPL_HIGH_LEVEL" and "LockState (Locks s gEventQueueLock) = EfiLockReleased"
    and "gEfiCurrentTpl s \<le> TPL_HIGH_LEVEL"
  shows "CoreAcquireEventLock s = Some (acquired gEventQueueLock s)" "under_lock s (acquired gEventQueueLock s)"
  using assms
  by (auto simp: CoreAcquireEventLock_def CoreAcquireLock_eq lock_free_def under_lock_def agrees_def dispatch_frame_def unlocked_def)

lemma under_lock_signal_linked: "under_lock s s' \<Longrightarrow> under_lock (signal_linked p b s) (signal_linked p b s')"
proof -
  have "unlocked l (signal_linked p b s') = signal_linked p b (unlocked l s')" for l
    by (simp add: signal_linked_def unlocked_def PutEvent_def)
  moreover have "agrees s s' \<Longrightarrow> agrees (signal_linked p b s) (signal_linked p b s')" for s s' :: "'a EVENT_STATE_scheme"
    by (simp add: agrees_def dispatch_frame_def signal_linked_def PutEvent_def)
  ultimately show "under_lock s s' \<Longrightarrow> under_lock (signal_linked p b s) (signal_linked p b s')"
    by (simp add: under_lock_def) (simp add: signal_linked_def)
qed

lemma signal_linked_created: "signal_linked p (SignalLinked e) (created p (e\<lparr>SignalLinked := False\<rparr>) s) = created p e s"
  by (cases e) (simp add: signal_linked_def created_def PutEvent_def)

lemma new_event_simps:
  "EvSignature (new_event p Type Tpl Function Context Group) = EVENT_SIGNATURE"
  "EvType (new_event p Type Tpl Function Context Group) = effective_type Type Group"
  "SignalLinked (new_event p Type Tpl Function Context Group) = signals (new_event p Type Tpl Function Context Group)"
  "\<not> NotifyLinked (new_event p Type Tpl Function Context Group)" "\<not> TimerLinked (new_event p Type Tpl Function Context Group)"
  "SignalCount (new_event p Type Tpl Function Context Group) = 0"
  "RuntimeLinked (new_event p Type Tpl Function Context Group) \<longleftrightarrow> effective_type Type Group AND EVT_RUNTIME \<noteq> 0"
  "notify_type (effective_type Type Group) \<Longrightarrow> NotifyTpl (new_event p Type Tpl Function Context Group) = Tpl
     \<and> NotifyFunction (new_event p Type Tpl Function Context Group) = Function
     \<and> NotifyContext (new_event p Type Tpl Function Context Group) = Context"
  by (auto simp: new_event_def Let_def ZeroEvent_def signals_def split: option.splits)

lemma event_ok_new_event:
  assumes "notify_type (effective_type Type Group) \<longrightarrow> Function \<noteq> NULL \<and> TPL_APPLICATION < Tpl \<and> Tpl < TPL_HIGH_LEVEL"
  shows "event_ok (new_event p Type Tpl Function Context Group)"
  using assms new_event_simps(8) [of Type Group p Tpl Function Context] by (auto simp: event_ok_def notifies_def new_event_simps(1,2))

context lowers
begin

lemma register_quiet:
  assumes ready: "event_ready s" and above: "none_above (gEfiCurrentTpl s) s"
  shows "\<exists>s'. register R p e s = Some (EFI_SUCCESS, Some p, s') \<and> agrees (created p e s) s' \<and> gEfiCurrentTpl s' = gEfiCurrentTpl s"
proof -
  let ?c = "created p (e\<lparr>SignalLinked := False\<rparr>) s"
  have "LockTpl (Locks ?c gEventQueueLock) = TPL_HIGH_LEVEL" "LockState (Locks ?c gEventQueueLock) = EfiLockReleased"
    "gEfiCurrentTpl ?c \<le> TPL_HIGH_LEVEL"
    using ready by (simp_all add: created_def event_ready_def event_wf_def event_locks_wf_def)
  note acq = CoreAcquireEventLock_free [OF this]
  have tpl: "gEfiCurrentTpl (created p e s) = gEfiCurrentTpl s" "gEventPending (created p e s) = gEventPending s" by (simp_all add: created_def)
  note u = under_lock_signal_linked [OF acq(2), of p "SignalLinked e", unfolded signal_linked_created]
  have "none_above (gEfiCurrentTpl (created p e s)) (created p e s)" using above by (simp add: none_above_def tpl)
  with release_under [OF u] show ?thesis using ready acq(1) by (auto simp: register_def event_ready_def tpl)
qed

end

section \<open>\<open>CoreCreateEventEx\<close>\<close>

lemma mEventTable_types:
  "set mEventTable = {0, EVT_TIMER, EVT_NOTIFY_WAIT, EVT_NOTIFY_SIGNAL, EVT_TIMER OR EVT_NOTIFY_WAIT, EVT_TIMER OR EVT_NOTIFY_SIGNAL,
     EVT_SIGNAL_EXIT_BOOT_SERVICES, EVT_SIGNAL_VIRTUAL_ADDRESS_CHANGE}"
  by (auto simp: mEventTable_def)

lemma CoreCreateEventInternal_refused:
  assumes "\<not> (Type \<in> set mEventTable
      \<and> (Group \<noteq> None \<longrightarrow> Type \<notin> {EVT_SIGNAL_EXIT_BOOT_SERVICES, EVT_SIGNAL_VIRTUAL_ADDRESS_CHANGE})
      \<and> (notify_type (effective_type Type Group) \<longrightarrow> Function \<noteq> NULL \<and> TPL_APPLICATION < Tpl \<and> Tpl < TPL_HIGH_LEVEL))"
  shows "CoreCreateEventInternal R Type Tpl Function Context Group Event s = Some (EFI_INVALID_PARAMETER, Event, s)"
proof -
  consider "Type \<notin> set mEventTable" | "Group \<noteq> None" "Type \<in> {EVT_SIGNAL_EXIT_BOOT_SERVICES, EVT_SIGNAL_VIRTUAL_ADDRESS_CHANGE}"
    | "notify_type (effective_type Type Group)" "Function = NULL \<or> Tpl \<le> TPL_APPLICATION \<or> Tpl \<ge> TPL_HIGH_LEVEL"
    using assms by force
  then show ?thesis
    by cases (simp_all only: CoreCreateEventInternal_def effective_request Let_def prod.case simp_thms if_True if_False insert_iff empty_iff if_cancel)
qed

lemma CoreCreateEventInternal_no_pool:
  assumes "Type \<in> set mEventTable" and "Group \<noteq> None \<longrightarrow> Type \<notin> {EVT_SIGNAL_EXIT_BOOT_SERVICES, EVT_SIGNAL_VIRTUAL_ADDRESS_CHANGE}"
    and "notify_type (effective_type Type Group) \<longrightarrow> Function \<noteq> NULL \<and> TPL_APPLICATION < Tpl \<and> Tpl < TPL_HIGH_LEVEL"
    and pool: "Pool s = []"
  shows "CoreCreateEventInternal R Type Tpl Function Context Group (Some v) s = Some (EFI_OUT_OF_RESOURCES, Some v, s)"
proof -
  have ng: "\<not> (Group \<noteq> None \<and> (Type = EVT_SIGNAL_EXIT_BOOT_SERVICES \<or> Type = EVT_SIGNAL_VIRTUAL_ADDRESS_CHANGE))"
    using assms(2) by auto
  have nt: "\<not> Type \<notin> set mEventTable" "\<not> Some v = None" using assms(1) by simp_all
  show ?thesis
    unfolding CoreCreateEventInternal_def effective_request if_not_P [OF ng] if_not_P [OF nt(1)] if_not_P [OF nt(2)]
    using assms(3) pool by (auto simp: TakePool_def Let_def)
qed

lemma notify_effective: "notify_type Type \<Longrightarrow> notify_type (effective_type Type Group)"
  by (simp add: effective_type_def EVT_defs)

lemma new_event_group:
  "grouped (new_event p Type Tpl Function Context Group) \<longleftrightarrow> effective_group Type Group \<noteq> None"
  "effective_group Type Group = Some g \<Longrightarrow> EventGroup (new_event p Type Tpl Function Context Group) = g"
  by (auto simp: new_event_def Let_def ZeroEvent_def grouped_def EVT_EXFLAG_EVENT_GROUP_def split: option.splits)

lemma CoreCreateEventEx_request:
  assumes wf: "event_wf s"
  shows "CoreCreateEventEx R Type Tpl Function Context Group (Some v) s =
    (if \<not> may_create Type Tpl Function Group then Some (EFI_INVALID_PARAMETER, Some v, s)
     else if Pool s = [] then Some (EFI_OUT_OF_RESOURCES, Some v, s)
     else register R (hd (Pool s)) (new_event (hd (Pool s)) Type Tpl Function Context Group) s)"
proof -
  let ?ok = "Type \<in> set mEventTable
      \<and> (Group \<noteq> None \<longrightarrow> Type \<notin> {EVT_SIGNAL_EXIT_BOOT_SERVICES, EVT_SIGNAL_VIRTUAL_ADDRESS_CHANGE})
      \<and> (notify_type (effective_type Type Group) \<longrightarrow> Function \<noteq> NULL \<and> TPL_APPLICATION < Tpl \<and> Tpl < TPL_HIGH_LEVEL)"
  have m: "may_create Type Tpl Function Group \<longleftrightarrow> ?ok \<and> (notify_type Type \<longrightarrow> Tpl \<in> {TPL_CALLBACK, TPL_NOTIFY})"
    unfolding may_create_def mEventTable_types by auto
  have ex: "CoreCreateEventEx R Type Tpl Function Context Group (Some v) s
      = (if notify_type Type \<and> Tpl \<notin> {TPL_APPLICATION, TPL_CALLBACK, TPL_NOTIFY} then Some (EFI_INVALID_PARAMETER, Some v, s)
         else CoreCreateEventInternal R Type Tpl Function Context Group (Some v) s)"
    by (simp add: CoreCreateEventEx_def)
  have app: "notify_type Type \<Longrightarrow> ?ok \<Longrightarrow> Tpl \<noteq> TPL_APPLICATION" using notify_effective by blast
  consider "\<not> ?ok" | "?ok" "\<not> may_create Type Tpl Function Group" | "?ok" "may_create Type Tpl Function Group" by blast
  then show ?thesis
  proof cases
    case 1
    then have "\<not> may_create Type Tpl Function Group" unfolding m by blast
    then show ?thesis unfolding ex CoreCreateEventInternal_refused [OF 1] by simp
  next
    case 2
    then show ?thesis using m app unfolding ex by auto
  next
    case 3
    then have n: "\<not> (notify_type Type \<and> Tpl \<notin> {TPL_APPLICATION, TPL_CALLBACK, TPL_NOTIFY})" using m by auto
    show ?thesis
    proof (cases "Pool s")
      case Nil
      then show ?thesis unfolding ex if_not_P [OF n] using 3 CoreCreateEventInternal_no_pool [of Type Group Function Tpl s R Context v] by simp
    next
      case (Cons p ps)
      then show ?thesis unfolding ex if_not_P [OF n]
        using 3 CoreCreateEventInternal_register [of Type Group Function Tpl p s ps R Context v] pool_fresh(2) [OF wf Cons] by simp
    qed
  qed
qed

text \<open>
  C16. Creating an event with nothing pending above the caller's level.  A request with a type that is not one of the defined types, with
  an event group next to a type that already stands for one, with a notification but without a function, or at a level at which no
  notification may run is refused and changes nothing; without memory nothing changes either.  Otherwise a new event appears
  under a fresh address, with the type and group of the request, the function, context and level if it has a notification,
  not signalled, in the list of signal events and of runtime events exactly if its type asks for it and in no queue; no other
  event and no queue changes and the database is well-formed.
\<close>

theorem CoreCreateEventEx_creates:
  assumes ready: "event_ready s" and above: "none_above (gEfiCurrentTpl s) s"
  shows "if \<not> may_create Type Tpl Function Group
    then CoreCreateEventEx (RestoreTpl Notify (Suc n)) Type Tpl Function Context Group (Some v) s = Some (EFI_INVALID_PARAMETER, Some v, s)
    else if Pool s = []
    then CoreCreateEventEx (RestoreTpl Notify (Suc n)) Type Tpl Function Context Group (Some v) s = Some (EFI_OUT_OF_RESOURCES, Some v, s)
    else \<exists>p e s'. CoreCreateEventEx (RestoreTpl Notify (Suc n)) Type Tpl Function Context Group (Some v) s = Some (EFI_SUCCESS, Some p, s')
      \<and> event_wf s' \<and> gEfiCurrentTpl s' = gEfiCurrentTpl s
      \<and> p \<noteq> NULL \<and> Events s p = None \<and> Events s' = (Events s)(p \<mapsto> e) \<and> Pool s = p # Pool s'
      \<and> EvType e = effective_type Type Group \<and> SignalCount e = 0
      \<and> (notifies e \<longrightarrow> NotifyTpl e = Tpl \<and> NotifyFunction e = Function \<and> NotifyContext e = Context)
      \<and> (grouped e \<longleftrightarrow> effective_group Type Group \<noteq> None) \<and> (grouped e \<longrightarrow> effective_group Type Group = Some (EventGroup e))
      \<and> gEventSignalQueue s' = (if signals e then [p] else []) @ gEventSignalQueue s
      \<and> RuntimeEventHead s' = RuntimeEventHead s @ (if EvType e AND EVT_RUNTIME \<noteq> 0 then [p] else [])
      \<and> mEfiTimerList s' = mEfiTimerList s \<and> gEventQueue s' = gEventQueue s \<and> gEventPending s' = gEventPending s"
proof (cases "may_create Type Tpl Function Group \<and> Pool s \<noteq> []")
  case False
  then show ?thesis using CoreCreateEventEx_request [of s "RestoreTpl Notify (Suc n)"] ready by (auto simp: event_ready_def simp del: RestoreTpl.simps)
next
  case True
  let ?R = "RestoreTpl Notify (Suc n)" and ?e = "new_event (hd (Pool s)) Type Tpl Function Context Group"
  have wf: "event_wf s" using ready by (simp add: event_ready_def)
  obtain p ps where p: "Pool s = p # ps" using True by (cases "Pool s") auto
  obtain s' where s': "register ?R p ?e s = Some (EFI_SUCCESS, Some p, s')" "agrees (created p ?e s) s'" "gEfiCurrentTpl s' = gEfiCurrentTpl s"
    using rt.register_quiet [OF ready above] by blast
  have "notify_type (effective_type Type Group) \<longrightarrow> Function \<noteq> NULL \<and> TPL_APPLICATION < Tpl \<and> Tpl < TPL_HIGH_LEVEL"
    using True by (simp add: may_create_def)
  then have "event_wf s'"
    using agrees_wf [OF s'(2)] event_wf_created [OF wf p event_ok_new_event new_event_simps(4,5,3)] p by simp
  moreover have "CoreCreateEventEx ?R Type Tpl Function Context Group (Some v) s = Some (EFI_SUCCESS, Some p, s')"
    using True CoreCreateEventEx_request [OF wf, of ?R] s'(1) p by (simp del: RestoreTpl.simps)
  moreover have "Events s' = (Events s)(p \<mapsto> ?e) \<and> Pool s = p # Pool s' \<and> mEfiTimerList s' = mEfiTimerList s
      \<and> gEventQueue s' = gEventQueue s \<and> gEventPending s' = gEventPending s
      \<and> gEventSignalQueue s' = (if signals ?e then [p] else []) @ gEventSignalQueue s
      \<and> RuntimeEventHead s' = RuntimeEventHead s @ (if EvType ?e AND EVT_RUNTIME \<noteq> 0 then [p] else [])"
    using s'(2) p new_event_simps(2,3,7) by (simp add: agrees_def dispatch_frame_def created_def)
  moreover have "EvType ?e = effective_type Type Group \<and> SignalCount ?e = 0
      \<and> (notifies ?e \<longrightarrow> NotifyTpl ?e = Tpl \<and> NotifyFunction ?e = Function \<and> NotifyContext ?e = Context)
      \<and> (grouped ?e \<longleftrightarrow> effective_group Type Group \<noteq> None) \<and> (grouped ?e \<longrightarrow> effective_group Type Group = Some (EventGroup ?e))"
    using new_event_simps(8) [of Type Group] new_event_group(2) by (auto simp: notifies_def new_event_simps(2,6) new_event_group(1))
  moreover have c: "\<not> \<not> may_create Type Tpl Function Group" "\<not> Pool s = []" using True by simp_all
  ultimately show ?thesis
    unfolding if_not_P [OF c(1)] if_not_P [OF c(2)] using s'(3) pool_fresh(1,2) [OF wf p]
    by (intro exI [of _ p] exI [of _ ?e] exI [of _ s']) simp
qed

section \<open>Closing an event\<close>

definition closed :: "ptr \<Rightarrow> 'a EVENT_STATE_scheme \<Rightarrow> 'a EVENT_STATE_scheme" where
  "closed p s = s\<lparr>Events := (Events s)(p := None), gEventQueue := (\<lambda>t. remove1 p (gEventQueue s t)),
     gEventSignalQueue := remove1 p (gEventSignalQueue s), RuntimeEventHead := remove1 p (RuntimeEventHead s),
     mEfiTimerList := remove1 p (mEfiTimerList s), Pool := Pool s @ [p]\<rparr>"

lemma event_wf_closed:
  assumes wf: "event_wf s" and e: "Events s p = Some e" and c: "p \<noteq> mEfiCheckTimerEvent s"
  shows "event_wf (closed p s)"
proof -
  have "remove1 p xs \<noteq> [] \<Longrightarrow> xs \<noteq> []" for xs :: "ptr list" by auto
  then have "queues_wf (closed p s)"
    using wf links_wf_free [OF event_wf_links(1) [OF wf]] by (auto simp: event_wf_def queues_wf_def closed_def split: if_splits)
  moreover have "timers_wf (closed p s)"
  proof -
    have l: "links_wf ((Events s)(p := None)) TimerLinked (remove1 p (mEfiTimerList s))" by (rule links_wf_free [OF event_wf_links(2) [OF wf]])
    have d: "distinct (mEfiTimerList s)" by (rule links_wfD(1) [OF event_wf_links(2) [OF wf]])
    have "map (\<lambda>q. TriggerTime (the (((Events s)(p := None)) q))) (remove1 p (mEfiTimerList s))
        = map (\<lambda>q. TriggerTime (the (Events s q))) (remove1 p (mEfiTimerList s))" using d by (intro map_cong) auto
    moreover have "sorted (map (\<lambda>q. TriggerTime (the (Events s q))) (remove1 p (mEfiTimerList s)))"
      unfolding remove1_filter [OF d] using wf by (intro sorted_filter) (simp add: event_wf_def timers_wf_def)
    ultimately have "sorted (map (\<lambda>q. TriggerTime (the (((Events s)(p := None)) q))) (remove1 p (mEfiTimerList s)))" by (simp only:)
    then show ?thesis using l by (simp add: timers_wf_def closed_def)
  qed
  moreover have "signal_wf (closed p s)"
    using wf links_wf_free [OF event_wf_links(3) [OF wf]] by (auto simp: event_wf_def signal_wf_def closed_def split: if_splits)
  moreover have "check_timer_wf (closed p s)" using wf c by (auto simp: event_wf_def check_timer_wf_def closed_def)
  moreover have "event_pool_wf (closed p s)"
    using wf e event_wf_event(2) [OF wf e] by (auto simp: event_wf_def event_pool_wf_def closed_def)
  moreover have "links_wf (Events (closed p s)) RuntimeLinked (RuntimeEventHead (closed p s))"
    using links_wf_free [OF event_wf_links(4) [OF wf]] by (simp add: closed_def)
  moreover have "event_locks_wf (closed p s)" using wf by (simp add: event_wf_def event_locks_wf_def closed_def)
  ultimately show ?thesis using wf by (auto simp: event_wf_def closed_def split: if_splits)
qed

lemma same_events_wf: "same_events s s' \<Longrightarrow> event_locks_wf s' \<Longrightarrow> event_wf s \<Longrightarrow> event_wf s'"
  by (simp add: event_wf_def queues_wf_def timers_wf_def signal_wf_def check_timer_wf_def event_pool_wf_def same_events_def)

text \<open>Only timer events are in the list of timers.\<close>

definition timer_types :: "'a EVENT_STATE_scheme \<Rightarrow> bool" where
  "timer_types s \<longleftrightarrow> (\<forall>p\<in>set (mEfiTimerList s). EvType (the (Events s p)) AND EVT_TIMER \<noteq> 0)"

definition unlinked :: "ptr \<Rightarrow> 'a EVENT_STATE_scheme \<Rightarrow> 'a EVENT_STATE_scheme" where
  "unlinked p s = s\<lparr>RuntimeEventHead := remove1 p (RuntimeEventHead s), gEventQueue := (\<lambda>t. remove1 p (gEventQueue s t)),
     gEventSignalQueue := remove1 p (gEventSignalQueue s)\<rparr>"

lemma under_lock_unlinked: "under_lock s s' \<Longrightarrow> under_lock (unlinked p s) (unlinked p s')"
proof -
  have "unlocked l (unlinked p s') = unlinked p (unlocked l s')" for l by (simp add: unlinked_def unlocked_def)
  moreover have "agrees s s' \<Longrightarrow> agrees (unlinked p s) (unlinked p s')" for s s' :: "'a EVENT_STATE_scheme"
    by (simp add: agrees_def dispatch_frame_def unlinked_def)
  ultimately show "under_lock s s' \<Longrightarrow> under_lock (unlinked p s) (unlinked p s')"
    by (simp add: under_lock_def) (simp add: unlinked_def)
qed

lemma unlink_steps:
  assumes wf: "event_wf s" and e: "Events s p = Some e"
  shows "do {
      s \<leftarrow> (if RuntimeLinked e then do { ps \<leftarrow> Unlink p (RuntimeEventHead s); Some (s\<lparr>RuntimeEventHead := ps\<rparr>) } else Some s);
      s \<leftarrow> (if NotifyLinked e then RemoveNotifyLink p s else Some s);
      if SignalLinked e then do { ps \<leftarrow> Unlink p (gEventSignalQueue s); Some (s\<lparr>gEventSignalQueue := ps\<rparr>) } else Some s
    } = Some (unlinked p s)"
proof -
  have r: "p \<in> set (RuntimeEventHead s) \<longleftrightarrow> RuntimeLinked e" "p \<in> set (gEventSignalQueue s) \<longleftrightarrow> SignalLinked e"
    "p \<in> set (gEventQueue s t) \<longleftrightarrow> NotifyLinked e \<and> NotifyTpl e = t" for t
    using links_wfD(2) [OF event_wf_links(4) [OF wf], of p] links_wfD(2) [OF event_wf_links(3) [OF wf], of p] event_wf_queue [OF wf e] e by simp_all
  have n: "NotifyLinked e \<Longrightarrow> NotifyTpl e < TPL_HIGH_LEVEL"
  proof -
    assume "NotifyLinked e"
    then have "notifies e" using wf e by (auto simp: event_wf_def queues_wf_def)
    then show ?thesis using event_wf_event(1) [OF wf e] by (simp add: event_ok_def)
  qed
  show ?thesis
    using r n
    by (cases "RuntimeLinked e"; cases "NotifyLinked e"; cases "SignalLinked e")
      (auto simp: Unlink_def RemoveNotifyLink_def unlinked_def remove1_idem)
qed

text \<open>The state in which the event services are called: no lock of theirs is held and nothing is pending above the caller.\<close>

definition service_ready :: "'a EVENT_STATE_scheme \<Rightarrow> bool" where
  "service_ready s \<longleftrightarrow> event_ready s \<and> timer_types s \<and> none_above (gEfiCurrentTpl s) s
     \<and> LockState (Locks s mEfiTimerLock) = EfiLockReleased \<and> LockState (Locks s mEfiSystemTimeLock) = EfiLockReleased
     \<and> gEfiCurrentTpl s \<le> TPL_HIGH_LEVEL - 1"

lemma service_readyD:
  assumes "service_ready s"
  shows "event_ready s" "event_wf s" "none_above (gEfiCurrentTpl s) s" "timer_types s" "gEfiCurrentTpl s \<le> TPL_HIGH_LEVEL - 1"
    "LockState (Locks s mEfiTimerLock) = EfiLockReleased" "LockState (Locks s mEfiSystemTimeLock) = EfiLockReleased"
    "LockState (Locks s gEventQueueLock) = EfiLockReleased"
  using assms by (simp_all add: service_ready_def event_ready_def)

lemma same_events_above: "same_events s s' \<Longrightarrow> none_above t s' = none_above t s"
  by (simp add: same_events_def none_above_def)

definition cancelled :: "IEVENT \<Rightarrow> IEVENT" where
  "cancelled e = (if EvType e AND EVT_TIMER \<noteq> 0 then e\<lparr>TimerLinked := False, TriggerTime := 0, Period := 0\<rparr> else e)"

lemma cancelled_simps [simp]:
  "RuntimeLinked (cancelled e) = RuntimeLinked e" "NotifyLinked (cancelled e) = NotifyLinked e"
  "SignalLinked (cancelled e) = SignalLinked e" "ExFlag (cancelled e) = ExFlag e"
  by (simp_all add: cancelled_def)

context lowers
begin

text \<open>The first step of closing: a timer is cancelled.\<close>

lemma cancel_timer:
  assumes sr: "service_ready s" and e: "Events s p = Some e"
  shows "\<exists>s'. (if EvType e AND EVT_TIMER \<noteq> 0 then do { (Status, s) \<leftarrow> CoreSetTimer R p TimerCancel 0 s; Some s } else Some s) = Some s'
    \<and> event_ready s' \<and> gEfiCurrentTpl s' = gEfiCurrentTpl s \<and> (\<forall>l. LockState (Locks s' l) = LockState (Locks s l))
    \<and> Events s' = (Events s)(p \<mapsto> cancelled e)
    \<and> mEfiTimerList s' = remove1 p (mEfiTimerList s) \<and> gEventQueue s' = gEventQueue s \<and> gEventPending s' = gEventPending s
    \<and> gEventSignalQueue s' = gEventSignalQueue s \<and> RuntimeEventHead s' = RuntimeEventHead s
    \<and> mEfiCheckTimerEvent s' = mEfiCheckTimerEvent s \<and> mEfiSystemTime s' = mEfiSystemTime s \<and> gTimer s' = gTimer s
    \<and> Pool s' = Pool s \<and> EVENT_STATE.more s' = EVENT_STATE.more s"
proof (cases "EvType e AND EVT_TIMER \<noteq> 0")
  case True
  note d = service_readyD [OF sr]
  obtain s1 where s1: "CoreSetTimer R p TimerCancel 0 s = map_option (Pair EFI_SUCCESS) (R (gEfiCurrentTpl s) s1)"
    "same_events (armed p TimerCancel 0 s) s1" "event_wf s1" "gEfiCurrentTpl s1 = TPL_HIGH_LEVEL - 1"
    "\<forall>l. LockState (Locks s1 l) = LockState (Locks s l)"
    using CoreSetTimer_armed [OF d(1,6,7,5) e True, of TimerCancel 0 0] by auto
  have pend: "gEventPending (armed p TimerCancel 0 s) = gEventPending s" by (simp add: armed_def set_times_def untimed_def)
  then have "none_above (gEfiCurrentTpl s) s1" using d(3) s1(2) by (simp add: none_above_def same_events_def)
  then have "R (gEfiCurrentTpl s) s1 = Some (lowered (gEfiCurrentTpl s) s1)" using s1(4) d(5) by (intro quiet_law) simp_all
  moreover have "event_wf (lowered (gEfiCurrentTpl s) s1)" using s1(3) event_wf_cong [of "lowered (gEfiCurrentTpl s) s1" s1] by simp
  ultimately show ?thesis
    using True s1 d(5,8) e
    by (intro exI [of _ "lowered (gEfiCurrentTpl s) s1"])
      (simp add: event_ready_def same_events_def armed_def set_times_def untimed_def cancelled_def)
next
  case False
  note d = service_readyD [OF sr]
  have "p \<notin> set (mEfiTimerList s)" using False d(4) e by (auto simp: timer_types_def)
  then show ?thesis using False d(1) e by (simp add: remove1_idem fun_upd_idem cancelled_def)
qed

lemma CoreCloseEvent_quiet:
  assumes sr: "service_ready s" and e: "Events s p = Some e" and x: "ExFlag e AND EVT_EXFLAG_EVENT_PROTOCOL_NOTIFICATION = 0"
  shows "\<exists>s'. CoreCloseEvent R U p s = Some (EFI_SUCCESS, s') \<and> same_events (closed p s) s' \<and> event_locks_wf s'
    \<and> gEfiCurrentTpl s' = gEfiCurrentTpl s \<and> (\<forall>l. LockState (Locks s' l) = LockState (Locks s l))"
proof -
  note d = service_readyD [OF sr] and ev = event_wf_event [OF service_readyD(2) [OF sr] e]
  from cancel_timer [OF sr e] obtain a where a: "(if EvType e AND EVT_TIMER \<noteq> 0 then do { (Status, s) \<leftarrow> CoreSetTimer R p TimerCancel 0 s; Some s } else Some s) = Some a"
    "event_ready a" "gEfiCurrentTpl a = gEfiCurrentTpl s" "\<forall>l. LockState (Locks a l) = LockState (Locks s l)"
    "Events a = (Events s)(p \<mapsto> cancelled e)" "mEfiTimerList a = remove1 p (mEfiTimerList s)" "gEventQueue a = gEventQueue s"
    "gEventPending a = gEventPending s" "gEventSignalQueue a = gEventSignalQueue s" "RuntimeEventHead a = RuntimeEventHead s"
    "mEfiCheckTimerEvent a = mEfiCheckTimerEvent s" "mEfiSystemTime a = mEfiSystemTime s" "gTimer a = gTimer s"
    "Pool a = Pool s" "EVENT_STATE.more a = EVENT_STATE.more s" by blast
  have ea: "Events a p = Some (cancelled e)" using a(5) by simp
  have wa: "event_wf a" using a(2) by (simp add: event_ready_def)
  let ?q = "acquired gEventQueueLock a"
  note acq = CoreAcquireEventLock_ready [OF a(2)]
  have ul: "Option.bind (if RuntimeLinked e then do { ps \<leftarrow> Unlink p (RuntimeEventHead a); Some (?q\<lparr>RuntimeEventHead := ps\<rparr>) } else Some ?q)
      (\<lambda>s. Option.bind (if NotifyLinked e then RemoveNotifyLink p s else Some s)
        (\<lambda>s. Option.bind (if SignalLinked e then do { ps \<leftarrow> Unlink p (gEventSignalQueue s); Some (s\<lparr>gEventSignalQueue := ps\<rparr>) } else Some s) K))
    = K (unlinked p ?q)" for K :: "'a EVENT_STATE_scheme \<Rightarrow> (EFI_STATUS \<times> 'a EVENT_STATE_scheme) option"
    using arg_cong [OF unlink_steps [of ?q p "cancelled e"], of "\<lambda>x. Option.bind x K"] wa ea
    by (simp only: Option.bind_assoc bind.bind_lunit acquired_event_simps event_wf_acquired cancelled_simps simp_thms)
  have "none_above (gEfiCurrentTpl (unlinked p a)) (unlinked p a)" using d(3) a(3,8) by (simp add: unlinked_def none_above_def)
  then obtain z where z: "CoreReleaseEventLock R (unlinked p ?q) = Some z" "agrees (unlinked p a) z" "gEfiCurrentTpl z = gEfiCurrentTpl a"
    using release_under [OF under_lock_unlinked [OF acq(2)], of p] a(2) by (auto simp: unlinked_def event_ready_def)
  have zp: "Events z p = Some (cancelled e)" "ExFlag (cancelled e) AND EVT_EXFLAG_EVENT_PROTOCOL_NOTIFICATION = 0"
    using z(2) ea x by (simp_all add: agrees_def unlinked_def)
  have "CoreCloseEvent R U p s = Some (EFI_SUCCESS, z\<lparr>Events := (Events z)(p := None), Pool := Pool z @ [p]\<rparr>)"
    by (simp only: CoreCloseEvent_def ev(2,3) e a(1) acq(1) ea ul z(1) zp(1) x bind.bind_lunit cancelled_simps acquired_event_simps
        simp_thms if_True if_False)
  moreover have "same_events (closed p s) (z\<lparr>Events := (Events z)(p := None), Pool := Pool z @ [p]\<rparr>)"
    using z(2) a by (simp add: same_events_def closed_def agrees_def dispatch_frame_def unlinked_def)
  moreover have "event_locks_wf z" "\<forall>l. LockState (Locks z l) = LockState (Locks s l)"
    using z(2) wa a(4) by (simp_all add: agrees_def dispatch_frame_def unlinked_def event_wf_def event_locks_wf_def)
  ultimately show ?thesis using z(3) a(3) by (simp add: event_locks_wf_def)
qed

end

text \<open>
  C15. Closing an event, other than the one of the timer check, that is not registered for a protocol: whatever state it is in,
  armed as a timer, queued for its notification, signalled or not, it is in no list of the event database afterwards, its memory
  goes back to the pool, every list keeps its other entries in order, no other event changes and the database is
  well-formed.  \<open>NULL\<close> is refused.
\<close>

theorem CoreCloseEvent_closes:
  assumes sr: "service_ready s" and e: "Events s p = Some e" and x: "ExFlag e AND EVT_EXFLAG_EVENT_PROTOCOL_NOTIFICATION = 0"
    and c: "p \<noteq> mEfiCheckTimerEvent s"
  shows "CoreCloseEvent (RestoreTpl Notify (Suc n)) U NULL s = Some (EFI_INVALID_PARAMETER, s)
    \<and> (\<exists>s'. CoreCloseEvent (RestoreTpl Notify (Suc n)) U p s = Some (EFI_SUCCESS, s')
      \<and> event_wf s' \<and> gEfiCurrentTpl s' = gEfiCurrentTpl s
      \<and> Events s' = (Events s)(p := None) \<and> Pool s' = Pool s @ [p]
      \<and> mEfiTimerList s' = filter (\<lambda>q. q \<noteq> p) (mEfiTimerList s)
      \<and> gEventSignalQueue s' = filter (\<lambda>q. q \<noteq> p) (gEventSignalQueue s)
      \<and> RuntimeEventHead s' = filter (\<lambda>q. q \<noteq> p) (RuntimeEventHead s)
      \<and> (\<forall>t. gEventQueue s' t = filter (\<lambda>q. q \<noteq> p) (gEventQueue s t)))"
proof -
  note wf = service_readyD(2) [OF sr]
  have r: "remove1 p (mEfiTimerList s) = filter (\<lambda>q. q \<noteq> p) (mEfiTimerList s)"
    "remove1 p (gEventSignalQueue s) = filter (\<lambda>q. q \<noteq> p) (gEventSignalQueue s)"
    "remove1 p (RuntimeEventHead s) = filter (\<lambda>q. q \<noteq> p) (RuntimeEventHead s)"
    "remove1 p (gEventQueue s t) = filter (\<lambda>q. q \<noteq> p) (gEventQueue s t)" for t
    using links_wfD(1) [OF event_wf_links(1) [OF wf]] links_wfD(1) [OF event_wf_links(2) [OF wf]]
      links_wfD(1) [OF event_wf_links(3) [OF wf]] links_wfD(1) [OF event_wf_links(4) [OF wf]] by (intro remove1_filter; simp)+
  obtain s' where s': "CoreCloseEvent (RestoreTpl Notify (Suc n)) U p s = Some (EFI_SUCCESS, s')" "same_events (closed p s) s'"
    "event_locks_wf s'" "gEfiCurrentTpl s' = gEfiCurrentTpl s"
    using rt.CoreCloseEvent_quiet [OF sr e x] by blast
  have "event_wf s'" by (rule same_events_wf [OF s'(2,3) event_wf_closed [OF wf e c]])
  then show ?thesis
    using s' by (intro conjI exI [of _ s']) (simp_all add: CoreCloseEvent_def same_events_def closed_def r del: RestoreTpl.simps)
qed

text \<open>A database with memory left, for the witnesses.\<close>

definition witness_life :: "EFI_TPL \<Rightarrow> ptr list EVENT_STATE_scheme" where
  "witness_life t = (witness_timers 10 t)\<lparr>Pool := [200, 201], gTimer := Some 1\<rparr>"

lemma witness_life_ready: "t \<le> TPL_HIGH_LEVEL - 1 \<Longrightarrow> service_ready (witness_life t)"
proof -
  assume t: "t \<le> TPL_HIGH_LEVEL - 1"
  have "event_pool_wf (witness_life t)"
    by (auto simp: event_pool_wf_def witness_life_def witness_timers_def witness_events_def)
  then have "event_wf (witness_life t)" using witness_timers_wf [of 10 t]
    by (simp add: event_wf_def queues_wf_def timers_wf_def signal_wf_def check_timer_wf_def event_locks_wf_def) (simp add: witness_life_def)
  then show ?thesis using t
    by (simp add: service_ready_def event_ready_def witness_life_def timer_types_def none_above_def EFI_INITIALIZE_LOCK_VARIABLE_def EVT_defs)
      (simp add: witness_timers_def witness_events_def)
qed

lemma witness_life_simps [simp]:
  "gEfiCurrentTpl (witness_life t) = t" "Pool (witness_life t) = [200, 201]" "gTimer (witness_life t) = Some 1"
  "Events (witness_life t) 103 = Some (witness_timer 5 0)" "mEfiTimerList (witness_life t) = [103, 104]"
  "mEfiCheckTimerEvent (witness_life t) = 100"
  by (simp_all add: witness_life_def witness_timers_def witness_events_def)

theorem CoreCloseEvent_closes_witness:
  "\<exists>s'. CoreCloseEvent (RestoreTpl witness_notify 1) (\<lambda>_ _. None) 103 (witness_life 8) = Some (EFI_SUCCESS, s')
    \<and> mEfiTimerList s' = [104] \<and> Pool s' = [200, 201, 103] \<and> Events s' 103 = None"
proof -
  have "service_ready (witness_life 8)" by (rule witness_life_ready) simp
  moreover have "ExFlag (witness_timer 5 0) AND EVT_EXFLAG_EVENT_PROTOCOL_NOTIFICATION = 0" by (simp add: witness_timer_def ZeroEvent_def)
  ultimately show ?thesis
    using CoreCloseEvent_closes [of "witness_life 8" 103 "witness_timer 5 0" witness_notify 0 "\<lambda>_ _. None"] unfolding One_nat_def
    by (auto simp del: RestoreTpl.simps)
qed

theorem CoreCreateEventEx_creates_witness:
  "CoreCreateEventEx (RestoreTpl witness_notify 1) EVT_NOTIFY_SIGNAL 16 7 0 None (Some 0) (witness_life 8) \<noteq> None
    \<and> may_create EVT_NOTIFY_SIGNAL 16 7 None \<and> CoreCreateEventEx (RestoreTpl witness_notify 1) EVT_NOTIFY_SIGNAL 30 7 0 None (Some 0) (witness_life 8)
        = Some (EFI_INVALID_PARAMETER, Some 0, witness_life 8)"
proof -
  have sr: "service_ready (witness_life 8)" by (rule witness_life_ready) simp
  have m: "may_create EVT_NOTIFY_SIGNAL 16 7 None" "\<not> may_create EVT_NOTIFY_SIGNAL 30 7 None"
    by (simp_all add: may_create_def effective_type_def EVT_defs)
  note c = CoreCreateEventEx_creates [OF service_readyD(1,3) [OF sr], of EVT_NOTIFY_SIGNAL _ 7 None witness_notify 0 0 0]
  show ?thesis using c [of 16] c [of 30] m unfolding One_nat_def by (auto simp del: RestoreTpl.simps)
qed

end
