(* ===== verification/Event_Services.thy ===== *)
theory Event_Services
  imports Event_Life
begin

unbundle bit_operations_syntax

text \<open>
  Sequences of calls of the event services: the database stays well-formed and no call fails an ASSERT or touches memory it does not own.
\<close>

section \<open>One call\<close>

text \<open>
  A caller at the highest level at which the services may be called, so that the notifications it causes wait in the queues until it
  lowers the level; the timer architectural protocol is installed.
\<close>

definition serving :: "'a EVENT_STATE_scheme \<Rightarrow> bool" where
  "serving s \<longleftrightarrow> service_ready s \<and> gEfiCurrentTpl s = TPL_HIGH_LEVEL - 1 \<and> gTimer s \<noteq> None"

lemma servingI:
  assumes "serving s" and "event_wf s'" and "timer_types s'" and "\<forall>l. LockState (Locks s' l) = LockState (Locks s l)"
    and "gEfiCurrentTpl s' = gEfiCurrentTpl s" and "gTimer s' = gTimer s"
  shows "serving s'"
  using assms wf_none_above [OF assms(2)] by (simp add: serving_def service_ready_def event_ready_def)

lemma servingD:
  assumes "serving s"
  shows "service_ready s" "event_ready s" "event_wf s" "none_above (gEfiCurrentTpl s) s'  = none_above (TPL_HIGH_LEVEL - 1) s'"
    "gEfiCurrentTpl s = TPL_HIGH_LEVEL - 1" "\<exists>hw. gTimer s = Some hw" "timer_types s"
  using assms by (auto simp: serving_def service_ready_def event_ready_def)

lemma timer_types_keep:
  assumes "event_wf s" and "timer_types s" and "events_keep s s'" and "mEfiTimerList s' = mEfiTimerList s"
  shows "timer_types s'"
  unfolding timer_types_def
proof
  fix p assume p: "p \<in> set (mEfiTimerList s')"
  then obtain e where e: "Events s p = Some e" using links_wfD(2) [OF event_wf_links(2) [OF assms(1)], of p] assms(4) by auto
  then obtain e' where "Events s' p = Some e'" "keeps e e'" using events_keepD(2) [OF assms(3)] by blast
  then show "EvType (the (Events s' p)) AND EVT_TIMER \<noteq> 0" using p e assms(2,4) by (auto simp: timer_types_def keeps_def)
qed

lemma serving_agrees:
  assumes "serving s" and "agrees s1 s'" and "event_wf s1" and "timer_types s1" and "gTimer s1 = gTimer s"
    and "Locks s1 = Locks s" and "gEfiCurrentTpl s' = gEfiCurrentTpl s"
  shows "serving s'"
proof (rule servingI [OF assms(1)])
  show "event_wf s'" using agrees_wf [OF assms(2)] assms(3) by simp
  show "timer_types s'" using assms(2,4) by (simp add: timer_types_def agrees_def dispatch_frame_def)
qed (use assms in \<open>auto simp: agrees_def dispatch_frame_def\<close>)

lemma gTimer_fold_notified [simp]: "gTimer (fold notified ps s) = gTimer s"
  by (induction ps arbitrary: s) simp_all

lemma gTimer_signalled [simp]: "gTimer (signalled p s) = gTimer s"
  by (simp add: signalled_def Let_def)

text \<open>Arming a timer changes the type of no event.\<close>

lemma armed_types:
  assumes wf: "event_wf s" and e: "Events s p = Some e" and q: "Events s q \<noteq> None"
  shows "EvType (the (Events (armed p Type d s) q)) = EvType (the (Events s q))"
proof -
  define x where "x = timed p (set_times p (mEfiSystemTime s + d) (if Type = TimerPeriodic then d else 0) (untimed p s))"
  let ?f = "e\<lparr>TimerLinked := False, TriggerTime := mEfiSystemTime s + d, Period := if Type = TimerPeriodic then d else 0\<rparr>"
  have u: "event_wf (untimed p s)" "Events (untimed p s) p = Some (e\<lparr>TimerLinked := False\<rparr>)"
    using event_wf_untimed [OF wf e] e by (simp_all add: untimed_def)
  have "event_wf (set_times p (mEfiSystemTime s + d) (if Type = TimerPeriodic then d else 0) (untimed p s))"
    using event_wf_update [OF u, of ?f] u(2) by (simp add: set_times_def PutEvent_def)
  then have "event_wf x" unfolding x_def by (rule event_wf_timed [where e = ?f]) (simp_all add: set_times_def u(2))
  note k = events_keepD(2) [OF signalled_keep [OF this]]
  have x: "EvType (the (Events x q)) = EvType (the (Events s q))" "Events x q \<noteq> None"
    using q e by (auto simp: x_def timed_def set_times_def untimed_def)
  obtain f where "Events x q = Some f" using x(2) by blast
  then have "EvType (the (Events (signalled c x) q)) = EvType (the (Events x q))" for c using k [of q f c] by (auto simp: keeps_def)
  then show ?thesis using x(1) e by (auto simp: armed_def Let_def x_def [symmetric]) (simp add: set_times_def untimed_def)
qed

lemma timer_types_armed:
  assumes wf: "event_wf s" and e: "Events s p = Some e" "EvType e AND EVT_TIMER \<noteq> 0" and t: "timer_types s"
  shows "timer_types (armed p Type d s)"
  unfolding timer_types_def
proof
  fix q assume "q \<in> set (mEfiTimerList (armed p Type d s))"
  then have q: "q = p \<or> q \<in> set (mEfiTimerList s)" 
    using arg_cong [OF armed_facts(1) [OF wf e(1), of Type d], of set] by auto
  then have "Events s q \<noteq> None" using links_wfD(2) [OF event_wf_links(2) [OF wf], of q] e(1) by auto
  then show "EvType (the (Events (armed p Type d s) q)) AND EVT_TIMER \<noteq> 0"
    using q e t by (auto simp: armed_types [OF wf e(1)] timer_types_def)
qed

context lowers
begin

lemma create_keeps:
  assumes sv: "serving s"
  shows "\<exists>st r s'. CoreCreateEventEx R Type Tpl Function Context Group (Some v) s = Some (st, r, s') \<and> serving s'"
proof (cases "may_create Type Tpl Function Group \<and> Pool s \<noteq> []")
  case False
  then show ?thesis using CoreCreateEventEx_request [OF servingD(3) [OF sv], of R] sv by auto
next
  case True
  note d = servingD [OF sv]
  obtain p ps where p: "Pool s = p # ps" using True by (cases "Pool s") auto
  let ?e = "new_event p Type Tpl Function Context Group"
  obtain s' where s': "register R p ?e s = Some (EFI_SUCCESS, Some p, s')" "agrees (created p ?e s) s'" "gEfiCurrentTpl s' = gEfiCurrentTpl s"
    using register_quiet [OF d(2)] d(4) wf_none_above [OF d(3)] by blast
  have "notify_type (effective_type Type Group) \<longrightarrow> Function \<noteq> NULL \<and> TPL_APPLICATION < Tpl \<and> Tpl < TPL_HIGH_LEVEL"
    using True by (simp add: may_create_def)
  then have "event_wf (created p ?e s)" by (intro event_wf_created [OF d(3) p event_ok_new_event new_event_simps(4,5,3)])
  moreover have "timer_types (created p ?e s)" using d(7) pool_fresh(6) [OF d(3) p] by (auto simp: timer_types_def created_def)
  ultimately have "serving s'" by (rule serving_agrees [OF sv s'(2)]) (simp_all add: created_def s'(3))
  then show ?thesis using True p s'(1) CoreCreateEventEx_request [OF d(3), of R] by simp
qed

lemma close_keeps:
  assumes sv: "serving s" and e: "Events s p = Some e" and x: "ExFlag e AND EVT_EXFLAG_EVENT_PROTOCOL_NOTIFICATION = 0"
    and c: "p \<noteq> mEfiCheckTimerEvent s"
  shows "\<exists>st s'. CoreCloseEvent R U p s = Some (st, s') \<and> serving s'"
proof -
  note d = servingD [OF sv]
  obtain s' where s': "CoreCloseEvent R U p s = Some (EFI_SUCCESS, s')" "same_events (closed p s) s'"
    "event_locks_wf s'" "gEfiCurrentTpl s' = gEfiCurrentTpl s" "\<forall>l. LockState (Locks s' l) = LockState (Locks s l)"
    using CoreCloseEvent_quiet [OF d(1) e x] by blast
  have "serving s'"
  proof (rule servingI [OF sv _ _ s'(5,4)])
    show "event_wf s'" by (rule same_events_wf [OF s'(2,3) event_wf_closed [OF d(3) e c]])
    have "distinct (mEfiTimerList s)" by (rule links_wfD(1) [OF event_wf_links(2) [OF d(3)]])
    then show "timer_types s'" using d(7) s'(2) by (auto simp: timer_types_def same_events_def closed_def)
    show "gTimer s' = gTimer s" using s'(2) by (simp add: same_events_def closed_def)
  qed
  then show ?thesis using s'(1) by blast
qed

lemma signal_keeps:
  assumes sv: "serving s" and e: "Events s p = Some e"
  shows "\<exists>st s'. CoreSignalEvent R p s = Some (st, s') \<and> serving s'"
proof -
  note d = servingD [OF sv]
  have wf: "event_wf (signalled p s)" by (rule event_wf_signalled [OF d(3) e])
  obtain s' where s': "CoreSignalEvent R p s = Some (EFI_SUCCESS, s')" "agrees (signalled p s) s'" "gEfiCurrentTpl s' = gEfiCurrentTpl s"
    using CoreSignalEvent_quiet [OF d(2) e] d(4) wf_none_above [OF wf] by blast
  have "timer_types (signalled p s)" by (rule timer_types_keep [OF d(3,7) signalled_keep [OF d(3)]]) simp
  then have "serving s'" by (intro serving_agrees [OF sv s'(2) wf]) (simp_all add: s'(3))
  then show ?thesis using s'(1) by blast
qed

lemma set_timer_keeps:
  assumes sv: "serving s" and e: "Events s p = Some e"
  shows "\<exists>st s'. CoreSetTimer R p Type Time s = Some (st, s') \<and> serving s'"
proof (cases "Type > TimerRelative \<or> EvType e AND EVT_TIMER = 0")
  case True
  then show ?thesis using event_wf_event(2,3) [OF servingD(3) [OF sv] e] e sv by (simp add: CoreSetTimer_def)
next
  case False
  note d = servingD [OF sv] and sd = service_readyD [OF servingD(1) [OF sv]]
  obtain hw where hw: "gTimer s = Some hw" using d(6) by blast
  let ?d = "timer_delay Type Time hw"
  have dd: "(if Type = TimerPeriodic \<and> Time = 0 then gTimer s else Some Time) = Some ?d" using hw by (simp add: timer_delay_def)
  have ty: "EvType e AND EVT_TIMER \<noteq> 0" "Type \<le> TimerRelative" using False by auto
  obtain s1 where s1: "CoreSetTimer R p Type Time s = map_option (Pair EFI_SUCCESS) (R (gEfiCurrentTpl s) s1)"
    "same_events (armed p Type ?d s) s1" "event_wf s1" "gEfiCurrentTpl s1 = TPL_HIGH_LEVEL - 1" "\<forall>l. LockState (Locks s1 l) = LockState (Locks s l)"
    using CoreSetTimer_armed [OF sd(1,6,7,5) e ty dd] by blast
  let ?s = "lowered (gEfiCurrentTpl s) s1"
  have "R (gEfiCurrentTpl s) s1 = Some ?s" using s1(4) d(4,5) wf_none_above [OF s1(3)] by (intro quiet_law) simp_all
  moreover have "serving ?s"
  proof (rule servingI [OF sv])
    show "event_wf ?s" using s1(3) event_wf_cong [of ?s s1] by simp
    show "timer_types ?s" using timer_types_armed [OF d(3) e ty(1) d(7), of Type ?d] s1(2) by (simp add: timer_types_def same_events_def)
    show "gTimer ?s = gTimer s" using s1(2) by (simp add: same_events_def armed_def Let_def timed_def)
  qed (use s1(5) in simp_all)
  ultimately show ?thesis using s1(1) by simp
qed

lemma check_keeps:
  assumes sv: "serving s" and e: "Events s p = Some e"
  shows "\<exists>st s'. CoreCheckEvent R p s = Some (st, s') \<and> serving s'"
proof -
  note d = servingD [OF sv] and ev = event_wf_event [OF servingD(3) [OF sv] e] and acq = CoreAcquireEventLock_ready [OF servingD(2) [OF sv]]
  consider "signals e" | "\<not> signals e" "SignalCount e = 0" "EvType e AND EVT_NOTIFY_WAIT \<noteq> 0"
    | "\<not> signals e" "SignalCount e = 0" "EvType e AND EVT_NOTIFY_WAIT = 0" | "\<not> signals e" "SignalCount e \<noteq> 0" by blast
  then show ?thesis
  proof cases
    case 1
    then show ?thesis using ev(2,3) e sv by (simp add: CoreCheckEvent_def signals_def)
  next
    case 2
    then have n: "notifies e" by (simp add: notifies_def bit.conj_disj_distrib or_eq_0_iff)
    have wn: "event_wf (notified p s)" by (rule event_wf_notified [OF d(3) e n])
    have "CoreNotifyEvent p (acquired gEventQueueLock s) = Some (notified p (acquired gEventQueueLock s))"
      by (rule CoreNotifyEvent_eq [where e = e]) (simp_all add: d(3) e n)
    moreover obtain z where z: "CoreReleaseEventLock R (notified p (acquired gEventQueueLock s)) = Some z" "agrees (notified p s) z"
      "gEfiCurrentTpl z = gEfiCurrentTpl s"
      using release_under [OF under_lock_notified [OF acq(2)]] d(4,5) wf_none_above [OF wn] by auto
    moreover have "Events z p = Some (e\<lparr>NotifyLinked := True\<rparr>)" using z(2) e by (simp add: agrees_def)
    ultimately have "CoreCheckEvent R p s = Some (EFI_NOT_READY, z)"
      using 2 ev(2,3) e acq(1) by (simp add: CoreCheckEvent_def signals_def)
    moreover have "timer_types (notified p s)"
      using d(7) e by (auto simp: timer_types_def)
    then have "serving z" by (intro serving_agrees [OF sv z(2) wn]) (simp_all add: z(3))
    ultimately show ?thesis by blast
  next
    case 3
    then show ?thesis using ev(2,3) e sv by (simp add: CoreCheckEvent_def signals_def)
  next
    case 4
    let ?put = "PutEvent p (SignalCount_update (\<lambda>_. 0))"
    have wp: "event_wf (?put s)" using event_wf_update [OF d(3) e, of "e\<lparr>SignalCount := 0\<rparr>"] e by (simp add: PutEvent_def)
    obtain z where z: "CoreReleaseEventLock R (?put (acquired gEventQueueLock s)) = Some z" "agrees (?put s) z"
      "gEfiCurrentTpl z = gEfiCurrentTpl s"
      using release_under [OF under_lock_PutEvent [OF acq(2)]] d(4,5) wf_none_above [OF wp] by auto
    then have "CoreCheckEvent R p s = Some (EFI_SUCCESS, z)"
      using 4 ev(2,3) e acq(1) by (simp add: CoreCheckEvent_def signals_def)
    moreover have "timer_types (?put s)" using d(7) e by (auto simp: timer_types_def)
    then have "serving z" by (intro serving_agrees [OF sv z(2) wp]) (simp_all add: z(3))
    ultimately show ?thesis by blast
  qed
qed

end

section \<open>Sequences of calls\<close>

text \<open>
  One call of an event service.  A request may be malformed in any way the services check for; an event that is passed is alive, and a
  closed event is not the one of the timer check, which nobody else can name, and not registered for a protocol.
\<close>

inductive event_call :: "'a restore \<Rightarrow> 'a EVENT_STATE_scheme \<Rightarrow> 'a EVENT_STATE_scheme \<Rightarrow> bool" for R where
  create: "CoreCreateEventEx R Type Tpl Function Context Group (Some v) s = Some (st, r, s') \<Longrightarrow> event_call R s s'"
| close: "CoreCloseEvent R U p s = Some (st, s') \<Longrightarrow> Events s p = Some e \<Longrightarrow> ExFlag e AND EVT_EXFLAG_EVENT_PROTOCOL_NOTIFICATION = 0
    \<Longrightarrow> p \<noteq> mEfiCheckTimerEvent s \<Longrightarrow> event_call R s s'"
| signal: "CoreSignalEvent R p s = Some (st, s') \<Longrightarrow> Events s p = Some e \<Longrightarrow> event_call R s s'"
| check: "CoreCheckEvent R p s = Some (st, s') \<Longrightarrow> Events s p = Some e \<Longrightarrow> event_call R s s'"
| set_timer: "CoreSetTimer R p Type Time s = Some (st, s') \<Longrightarrow> Events s p = Some e \<Longrightarrow> event_call R s s'"

context lowers
begin

lemma call_keeps:
  assumes "event_call R s s'" and sv: "serving s"
  shows "serving s'"
  using assms(1)
proof (cases rule: event_call.cases)
  case (create Type Tpl Function Context Group v st r)
  then show ?thesis using create_keeps [OF sv, of Type Tpl Function Context Group v] by simp
next
  case (close U p st e)
  then show ?thesis using close_keeps [OF sv close(2,3,4), of U] by simp
next
  case (signal p st e)
  then show ?thesis using signal_keeps [OF sv signal(2)] by simp
next
  case (check p st e)
  then show ?thesis using check_keeps [OF sv check(2)] by simp
next
  case (set_timer p Type Time st e)
  then show ?thesis using set_timer_keeps [OF sv set_timer(2), of Type Time] by simp
qed

lemma calls_keep: "(event_call R)\<^sup>*\<^sup>* s s' \<Longrightarrow> serving s \<Longrightarrow> serving s'"
  by (induction rule: rtranclp_induct) (auto intro: call_keeps)

end



end
