(* ===== verification/Spec2Isabelle.thy ===== *)
theory Spec2Isabelle
  imports Depex Check_Sum Bit_Count Safe_Arith Gcd_Snapshot Gcd_Findings Timer_Tick Event_Services
begin

text \<open>
  Verification of core services of the UEFI firmware of this repository (a tree of EDK II): the services of the DXE core that
  manage events, timers, task priority levels and the address spaces of the platform, the evaluator that decides when a driver may be
  dispatched, and the base libraries they stand on.

  \<^bold>\<open>The program.\<close>  The DXE core (\<open>src/MdeModulePkg/Core/Dxe\<close>) runs one thread.  Code runs at a task priority level; raising the level
  postpones the notifications of lower levels, lowering it delivers them (\<open>Event/Tpl.c\<close>, \<open>Event/Event.c\<close>).  A clock tick signals an event of
  the core whose notification checks the timers (\<open>Event/Timer.c\<close>).  The services protect their data by locks, which raise the level and so
  deliver notifications when they are released (\<open>Library/Library.c\<close>).  The Global Coherency Domain (\<open>Gcd/Gcd.c\<close>) keeps a map of the memory
  space and one of the I/O space, lists of entries on doubly linked lists (\<open>src/MdePkg/Library/BaseLib/LinkedList.c\<close>).  The dispatcher evaluates
  dependency expressions on a stack of booleans (\<open>Dispatcher/Dependency.c\<close>).

  \<^bold>\<open>How the code is modelled.\<close>  A C function is a HOL function of the same name with the state as an argument and a result.
  \<^item> An outcome is an \<open>option\<close>: \<open>None\<close> is a failed \<open>ASSERT\<close>, an access outside an object, an undefined operation (a shift by the width of
    the type, a signed overflow) or a loop that does not end.  A theorem that says a call is \<open>Some\<close> excludes all of them.
  \<^item> Integers are words of their C width (\<open>UINTN\<close> has 64 bits), so that additions wrap.  A pointer is a natural number, \<open>NULL\<close> is 0.
  \<^item> The state of the core is the record \<open>DXE_CORE\<close>, extended by the maps (\<open>GCD_STATE\<close>) and by the events (\<open>EVENT_STATE\<close>); the last
    extension is the data of the drivers.  \<open>Pool\<close> is what the pool allocator still has to hand out.
  \<^item> The lists of the maps are nodes on a heap; the lists of events are sequences of the events together with the link fields
    that say whether an event is in a list.
  \<^item> A \<open>for\<close> or \<open>while\<close> loop over a list or a counter is a recursive function with its termination proof, a loop that may not end is a
    \<open>partial_function\<close> into \<open>option\<close>; no loop has a bound of its own.  \<open>RestoreTpl Notify n\<close> is \<open>CoreRestoreTpl\<close> with notifications that
    nest at most \<open>n\<close> deep; every theorem about it holds for every depth that the call needs: one for a call that delivers nothing
    and two for one whose notification functions stay at their level.
  \<^item> Code that is not modelled is an argument: the notification functions of drivers, \<open>CoreLocateProtocol\<close>,
    \<open>CoreUnregisterProtocolNotify\<close>, the attribute service of the processor driver, the pool allocator in the evaluator.

  \<^bold>\<open>The theories.\<close>
  \<^item> \<open>Dxe_Prelude\<close>: types, status codes, \<open>ASSERT\<close>, and lemmas on lists, options and words.  \<open>Word_Align\<close>: rounding with masks.
  \<^item> \<open>Base_Math\<close>, \<open>Check_Sum\<close>, \<open>Bit_Field\<close>, \<open>Bit_Count\<close>: integer functions, checksums and bit fields of \<open>src/MdePkg/Library/BaseLib\<close>.  The
    bit scans and byte swaps are exact, rotations undo each other (and a rotation by zero is undefined); the table-driven CRC-32 is the
    bitwise one and detects every change of four consecutive bytes; each bit-field function changes exactly the bits of its field, and the
    parallel population count is the number of set bits.  The locale \<open>field_ops\<close> is the contract of the bit-field functions of
    one width and is interpreted for the four widths.
  \<^item> \<open>Safe_Int\<close>, \<open>Safe_Arith\<close>: \<open>src/MdePkg/Library/BaseSafeIntLib\<close>.  Every conversion and every operation succeeds exactly when the exact result
    fits into its type, and none runs into undefined behaviour.
  \<^item> \<open>Linked_List\<close>: the doubly linked lists.  \<open>ring\<close> says that a list is well-formed; every operation keeps it and changes the
    sequence of its elements as its name says.  The locale \<open>list_ops\<close> is the contract that the traversal of a list needs.
  \<^item> \<open>Depex\<close>: the evaluator.  It computes the value of every well-formed expression, on arbitrary bytes it stays on its
    stack, and it reads past the expression when an operand is cut off.  The locale \<open>bool_stack\<close> is the contract of the stack.
  \<^item> \<open>Tpl_Lock\<close>: levels and locks.
  \<^item> \<open>Gcd_Map\<close>, \<open>Gcd_Space\<close>: the workers and the services of the Global Coherency Domain.  \<open>Gcd_Tiles\<close>: the abstract view, a function from addresses to
    what the map says about them.  \<open>Gcd_Workers\<close>, \<open>Gcd_Cleanup\<close>, \<open>Gcd_Correct\<close>, \<open>Gcd_Services\<close>, \<open>Gcd_Allocate\<close>: the workers implement it.
    \<open>Gcd_Properties\<close>, \<open>Gcd_Snapshot\<close>: \<open>CoreConvertSpace\<close> refines an update of that function, \<open>CoreAllocateSpace\<close> hands out only what is free and
    finds the lowest range if there is one, freeing undoes allocating, a snapshot is complete, and every sequence of calls keeps both
    maps well-formed.  \<open>Gcd_Findings\<close>: three runs that do something else than the code means to.
  \<^item> \<open>Event_Model\<close>: events, timers and \<open>CoreRestoreTpl\<close>.  \<open>Event_Wf\<close>: the invariant \<open>event_wf\<close> of the event database.  \<open>Event_Dispatch\<close>: delivery; the locale
    \<open>lowers\<close> is what the services rely on when they lower the level, and \<open>RestoreTpl\<close> provides it.  \<open>Event_Signal\<close>, \<open>Event_Properties\<close>: lowering the level
    delivers each queued notification once in the right order, and signalling queues or delivers.  \<open>Event_Timer\<close>, \<open>Timer_Properties\<close>, \<open>Timer_Set\<close>,
    \<open>Timer_Tick\<close>: arming a timer, the check of the timers with its end and the case in which it has none, and the path of a clock tick to
    the notifications of all expired timers.  \<open>Event_Life\<close>, \<open>Event_Services\<close>: creating and closing an event, and the invariant of all
    sequences of calls.

  \<^bold>\<open>Hypotheses.\<close>  The theorems on the maps ask for ranges that do not pass the end of the 64-bit space and for maps of at most \<open>2 ^ 63\<close>
  addresses; outside of this the code leaves overlapping entries, which is one of the findings.  Theorems on deliveries ask that the
  notification functions of drivers change only the data of the drivers (\<open>benign\<close>).  The theorems on the life of an event ask
  that nothing is pending above the level of the caller, which is so whenever code runs at that level; the one on
  sequences of calls is about a caller at the level below the highest, whose notifications all wait in the queues.

  \<^bold>\<open>Not modelled.\<close>  Of \<open>Gcd.c\<close>: \<open>CoreAddMemorySpace\<close>, which hands new memory to the page allocator, the initialisation from the HOB list and the
  debug output.  Of \<open>Math64.c\<close>: the arithmetic shift, the product with a 32-bit operand and the divisions.  Of \<open>BaseSafeIntLib\<close>: the
  native-size functions of targets with a 32-bit \<open>UINTN\<close>.  Of the DXE core: the page and pool allocators, which act on raw memory, the handle database, the
  dispatcher beyond dependency expressions, image loading and firmware volumes, which depend on the contents of files and on device
  drivers, and the services that only pass a request to an architectural protocol.  The other phases (PEI, SMM, runtime), the drivers
  and applications of the tree, the platform packages and the build tools are separate programs; much of them is access to
  devices, which has no meaning inside the model.
\<close>

end
